theory Spec2Isabelle
  imports Complex_Main
begin

unbundle bit_operations_syntax

chapter \<open>The program\<close>

section \<open>JavaScript values\<close>

text \<open>
  The program is JavaScript. Its numbers are modelled as the real numbers plus the one
  special value that the code under study can produce from them, \<open>NaN\<close>; the
  infinities of IEEE doubles are outside the model, and so is rounding except in the
  height queries. A value read from an object or an array may also be \<open>undefined\<close>
  or a function object.
\<close>

datatype jsnum = Num real | NaN

datatype jsval = Number jsnum | Undefined | Function

datatype js_error = TypeError | RangeError

text \<open>\<open>ToNumber\<close> of the language: \<open>undefined\<close> and a function object convert to \<open>NaN\<close>.\<close>

fun ToNumber :: "jsval \<Rightarrow> jsnum" where
  "ToNumber (Number n) = n"
| "ToNumber Undefined = NaN"
| "ToNumber Function = NaN"

fun num_mul :: "jsnum \<Rightarrow> jsnum \<Rightarrow> jsnum" where
  "num_mul (Num a) (Num b) = Num (a * b)"
| "num_mul _ _ = NaN"

fun num_add :: "jsnum \<Rightarrow> jsnum \<Rightarrow> jsnum" where
  "num_add (Num a) (Num b) = Num (a + b)"
| "num_add _ _ = NaN"

text \<open>The operator \<open>*\<close> converts both operands with \<open>ToNumber\<close>.\<close>

definition js_mul :: "jsval \<Rightarrow> jsval \<Rightarrow> jsnum" where
  "js_mul a b = num_mul (ToNumber a) (ToNumber b)"

text \<open>
  Reading \<open>xs[i]\<close> from an array: \<open>None\<close> stands for \<open>undefined\<close>, the value of every
  index outside \<open>0 .. length - 1\<close>.
\<close>

definition js_get :: "'a list \<Rightarrow> int \<Rightarrow> 'a option" where
  "js_get xs i = (if 0 \<le> i \<and> i < int (length xs) then Some (xs ! nat i) else None)"

text \<open>
  Reading \<open>heightData[iz][ix]\<close>: indexing the \<open>undefined\<close> row throws a TypeError, a
  missing column of an existing row is \<open>undefined\<close>.
\<close>

definition elem :: "jsnum list list \<Rightarrow> int \<Rightarrow> int \<Rightarrow> js_error + jsval" where
  "elem grid iz ix =
     (case js_get grid iz of
        None \<Rightarrow> Inl TypeError
      | Some row \<Rightarrow> Inr (case js_get row ix of None \<Rightarrow> Undefined | Some v \<Rightarrow> Number v))"

text \<open>An object is a finite map from property names to values; a missing property reads \<open>undefined\<close>.\<close>

type_synonym jsobject = "string \<rightharpoonup> jsval"

definition get_prop :: "jsobject \<Rightarrow> string \<Rightarrow> jsval" where
  "get_prop obj name = (case obj name of None \<Rightarrow> Undefined | Some v \<Rightarrow> v)"

section \<open>Rounding to a double\<close>

text \<open>
  A JavaScript number is an IEEE 754 double. Where the program computes with
  coordinates and a rounding error can change which branch runs or which cell is read,
  in the two height queries, the model rounds the result of every arithmetic operation
  on them as the machine does: to the nearest number with a significand of 53 bits,
  a tie going to the even significand. The exponent range is unbounded in the model,
  so overflow and subnormal numbers are outside it. The arithmetic on heights is exact.
\<close>

text \<open>The nearest integer, a tie going to the even one.\<close>

definition round_even :: "real \<Rightarrow> int" where
  "round_even r =
     (let f = \<lfloor>r\<rfloor>; d = r - real_of_int f
      in if d < 1/2 then f else if 1/2 < d then f + 1 else if even f then f else f + 1)"

text \<open>The binary exponent \<open>e\<close> of a number other than 0: \<open>2\<^sup>e \<le> |x| < 2\<^sup>e\<^sup>+\<^sup>1\<close>.\<close>

definition double_exp :: "real \<Rightarrow> int" where
  "double_exp x = \<lfloor>log 2 \<bar>x\<bar>\<rfloor>"

text \<open>The double nearest to \<open>x\<close>: \<open>x\<close> rounded to a multiple of \<open>2\<^sup>e\<^sup>-\<^sup>5\<^sup>2\<close>.\<close>

definition fl :: "real \<Rightarrow> real" where
  "fl x = (if x = 0 then 0
           else real_of_int (round_even (x / 2 powi (double_exp x - 52))) * 2 powi (double_exp x - 52))"

section \<open>Reading the height grid\<close>

text \<open>
  The height queries read \<open>heightData\<close> and can throw. Their model returns the outcome,
  a value or the error thrown, together with the index pairs (row, column) it has read
  from \<open>heightData\<close>, in order.
\<close>

type_synonym 'a traced = "(js_error + 'a) \<times> (int \<times> int) list"

definition returns :: "'a \<Rightarrow> 'a traced" where
  "returns v = (Inr v, [])"

text \<open>Sequencing: an error ends the evaluation, and the reads made so far stay.\<close>

definition and_then :: "'a traced \<Rightarrow> ('a \<Rightarrow> 'b traced) \<Rightarrow> 'b traced" where
  "and_then m f =
     (case m of
        (Inl e, reads) \<Rightarrow> (Inl e, reads)
      | (Inr v, reads) \<Rightarrow> (case f v of (r, reads') \<Rightarrow> (r, reads @ reads')))"

text \<open>The expression \<open>heightData[iz][ix]\<close>.\<close>

definition read_cell :: "jsnum list list \<Rightarrow> int \<Rightarrow> int \<Rightarrow> jsval traced" where
  "read_cell grid iz ix = (elem grid iz ix, [(iz, ix)])"

section \<open>TerrainSystem: the height query\<close>

text \<open>
  The private variables of the TerrainSystem module that \<open>getHeightAt\<close> reads.
  \<open>heightData\<close> is \<open>undefined\<close> (\<open>None\<close>) until \<open>init\<close> has run.
\<close>

record terrain_vars =
  ts_heightData :: "jsnum list list option"
  ts_terrainSize :: real
  ts_terrainResolution :: int
  ts_maxHeight :: real

text \<open>The declared initial values: \<open>terrainSize = 1000\<close>, \<open>terrainResolution = 256\<close>, \<open>maxHeight = 20\<close>.\<close>

definition terrain_vars0 :: terrain_vars where
  "terrain_vars0 =
     \<lparr>ts_heightData = None, ts_terrainSize = 1000, ts_terrainResolution = 256, ts_maxHeight = 20\<rparr>"

text \<open>
  \<open>(v + halfSize) / terrainSize\<close> with \<open>halfSize = terrainSize / 2\<close>, the normalisation
  both height queries apply: a division, a sum and a division, each rounded.
\<close>

definition normalized :: "real \<Rightarrow> real \<Rightarrow> real" where
  "normalized terrainSize v = (let halfSize = fl (terrainSize / 2) in fl (fl (v + halfSize) / terrainSize))"

text \<open>The bounds check \<open>nx < 0 || nx > 1 || nz < 0 || nz > 1\<close>.\<close>

definition rejected :: "real \<Rightarrow> real \<Rightarrow> bool" where
  "rejected nx nz = (nx < 0 \<or> nx > 1 \<or> nz < 0 \<or> nz > 1)"

text \<open>\<open>Math.min(terrainResolution - 1, Math.floor(n * terrainResolution))\<close>.\<close>

definition ts_index :: "int \<Rightarrow> real \<Rightarrow> int" where
  "ts_index res n = min (res - 1) \<lfloor>fl (n * real_of_int res)\<rfloor>"

text \<open>\<open>getHeightAt\<close> of the TerrainSystem, with the reads it makes.\<close>

definition TerrainSystem_getHeightAt_traced :: "terrain_vars \<Rightarrow> real \<Rightarrow> real \<Rightarrow> jsnum traced" where
  "TerrainSystem_getHeightAt_traced S x z =
     (case ts_heightData S of
        None \<Rightarrow> returns (Num 0)
      | Some grid \<Rightarrow>
          let normalizedX = normalized (ts_terrainSize S) x;
              normalizedZ = normalized (ts_terrainSize S) z
          in if rejected normalizedX normalizedZ then returns (Num 0)
             else let xIndex = ts_index (ts_terrainResolution S) normalizedX;
                      zIndex = ts_index (ts_terrainResolution S) normalizedZ
                  in and_then (read_cell grid zIndex xIndex)
                       (\<lambda>v. returns (js_mul v (Number (Num (ts_maxHeight S))))))"

text \<open>What the call returns or throws.\<close>

definition TerrainSystem_getHeightAt :: "terrain_vars \<Rightarrow> real \<Rightarrow> real \<Rightarrow> js_error + jsnum" where
  "TerrainSystem_getHeightAt S x z = fst (TerrainSystem_getHeightAt_traced S x z)"

text \<open>
  The object the module's closure returns, which is what the global name
  \<open>TerrainSystem\<close> denotes: it has the two properties \<open>init\<close> and \<open>getHeightAt\<close>.
\<close>

definition TerrainSystem :: jsobject where
  "TerrainSystem = [''init'' \<mapsto> Function, ''getHeightAt'' \<mapsto> Function]"

section \<open>CollisionSystem: state\<close>

datatype Vector3 = Vector3 (vec_x: real) (vec_y: real) (vec_z: real)

text \<open>A scene object as far as the collision system reads it: its identity, position and scale.\<close>

record object3d =
  obj_id :: nat
  obj_position :: Vector3
  obj_scale :: Vector3

record collisionData =
  cd_object :: object3d
  cd_position :: Vector3
  cd_radius :: real

text \<open>
  The private variables of the CollisionSystem module after \<open>init\<close>. The buckets of
  the spatial grid are arrays that \<open>push\<close> mutates in place, so the state has a store
  of arrays: \<open>collisionGrid\<close> maps a key to the address of its bucket, \<open>arrays\<close> gives the
  contents at each address and \<open>next_addr\<close> is the first address not yet allocated.
  (The mesh reference \<open>terrain\<close> is stored by \<open>init\<close> and never read.)
\<close>

record cs_state =
  terrainSize :: real
  heightData :: "jsnum list list option"
  collisionObjects :: "collisionData list"
  collisionGrid :: "string \<rightharpoonup> nat"
  arrays :: "nat \<Rightarrow> collisionData list"
  next_addr :: nat

text \<open>
  The module's state once it is loaded and \<open>init(scene, terrainData)\<close> has stored
  \<open>terrainData.terrainSize\<close> and \<open>terrainData.heightData\<close>: no obstacle, no bucket.
\<close>

definition CollisionSystem_init :: "real \<Rightarrow> jsnum list list option \<Rightarrow> cs_state" where
  "CollisionSystem_init sz hdata =
     \<lparr>terrainSize = sz, heightData = hdata, collisionObjects = [], collisionGrid = Map.empty,
      arrays = (\<lambda>_. []), next_addr = 0\<rparr>"

definition gridSize :: real where
  "gridSize = 10"

section \<open>CollisionSystem: the height query\<close>

text \<open>\<open>Math.min(Math.floor(n * (terrainResolution - 1)), terrainResolution - 2)\<close>.\<close>

definition cs_index :: "int \<Rightarrow> real \<Rightarrow> int" where
  "cs_index res n = min \<lfloor>fl (n * real_of_int (res - 1))\<rfloor> (res - 2)"

text \<open>The fractional part \<open>n * (terrainResolution - 1) - i\<close>.\<close>

definition cs_frac :: "int \<Rightarrow> real \<Rightarrow> real" where
  "cs_frac res n = fl (fl (n * real_of_int (res - 1)) - real_of_int (cs_index res n))"

text \<open>The corner height \<open>heightData[iz][ix] * TerrainSystem.maxHeight\<close>.\<close>

definition corner :: "jsobject \<Rightarrow> jsnum list list \<Rightarrow> int \<Rightarrow> int \<Rightarrow> jsnum traced" where
  "corner TS grid iz ix =
     and_then (read_cell grid iz ix) (\<lambda>v. returns (js_mul v (get_prop TS ''maxHeight'')))"

text \<open>
  \<open>h12 = h1 * (1 - fx) + h2 * fx\<close>, \<open>h34 = h3 * (1 - fx) + h4 * fx\<close>,
  \<open>h12 * (1 - fz) + h34 * fz\<close>.
\<close>

definition lerp :: "jsnum \<Rightarrow> jsnum \<Rightarrow> real \<Rightarrow> jsnum" where
  "lerp a b f = num_add (num_mul a (Num (1 - f))) (num_mul b (Num f))"

definition bilinear :: "jsnum \<Rightarrow> jsnum \<Rightarrow> jsnum \<Rightarrow> jsnum \<Rightarrow> real \<Rightarrow> real \<Rightarrow> jsnum" where
  "bilinear h1 h2 h3 h4 fx fz = lerp (lerp h1 h2 fx) (lerp h3 h4 fx) fz"

text \<open>
  \<open>getHeightAt\<close> of the CollisionSystem, with the reads it makes. The global
  \<open>TerrainSystem\<close> it reads \<open>maxHeight\<close> from is the first argument.
\<close>

definition CollisionSystem_getHeightAt_traced :: "jsobject \<Rightarrow> cs_state \<Rightarrow> real \<Rightarrow> real \<Rightarrow> jsnum traced" where
  "CollisionSystem_getHeightAt_traced TS st x z =
     (case heightData st of
        None \<Rightarrow> returns (Num 0)
      | Some grid \<Rightarrow>
          let terrainResolution = int (length grid);
              nx = normalized (terrainSize st) x;
              nz = normalized (terrainSize st) z
          in if rejected nx nz then returns (Num 0)
             else let ix = cs_index terrainResolution nx;
                      iz = cs_index terrainResolution nz;
                      fx = cs_frac terrainResolution nx;
                      fz = cs_frac terrainResolution nz
                  in and_then (corner TS grid iz ix) (\<lambda>h1.
                     and_then (corner TS grid iz (ix + 1)) (\<lambda>h2.
                     and_then (corner TS grid (iz + 1) ix) (\<lambda>h3.
                     and_then (corner TS grid (iz + 1) (ix + 1)) (\<lambda>h4.
                       returns (bilinear h1 h2 h3 h4 fx fz))))))"

text \<open>What the call returns or throws.\<close>

definition CollisionSystem_getHeightAt :: "jsobject \<Rightarrow> cs_state \<Rightarrow> real \<Rightarrow> real \<Rightarrow> js_error + jsnum" where
  "CollisionSystem_getHeightAt TS st x z = fst (CollisionSystem_getHeightAt_traced TS st x z)"

section \<open>CollisionSystem: the spatial grid\<close>

text \<open>
  The decimal text of an integer, as a template literal prints an integer-valued
  number (of magnitude below \<open>10^21\<close>).
\<close>

definition digit :: "nat \<Rightarrow> char" where
  "digit n = ''0123456789'' ! n"

fun show_nat :: "nat \<Rightarrow> string" where
  "show_nat n = (if n < 10 then [digit n] else show_nat (n div 10) @ [digit (n mod 10)])"

declare show_nat.simps [simp del]

definition show_int :: "int \<Rightarrow> string" where
  "show_int i = (if i < 0 then CHR ''-'' # show_nat (nat (- i)) else show_nat (nat i))"

text \<open>The bucket key \<open>`${x},${z}`\<close>.\<close>

definition key :: "int \<Rightarrow> int \<Rightarrow> string" where
  "key x z = show_int x @ '','' @ show_int z"

text \<open>\<open>Math.floor((v + terrainSize/2) / gridSize)\<close>.\<close>

definition cell :: "real \<Rightarrow> real \<Rightarrow> int" where
  "cell sz v = \<lfloor>(v + sz / 2) / gridSize\<rfloor>"

text \<open>
  One iteration of the inner loop of \<open>addToGrid\<close>: create the bucket if the key is
  new (a fresh empty array), then \<open>push\<close> onto the bucket.
\<close>

definition grid_push :: "collisionData \<Rightarrow> string \<Rightarrow> cs_state \<Rightarrow> cs_state" where
  "grid_push cd k st =
     (case collisionGrid st k of
        None \<Rightarrow>
          st\<lparr>collisionGrid := (collisionGrid st)(k \<mapsto> next_addr st),
             arrays := (arrays st)(next_addr st := [] @ [cd]),
             next_addr := Suc (next_addr st)\<rparr>
      | Some a \<Rightarrow> st\<lparr>arrays := (arrays st)(a := arrays st a @ [cd])\<rparr>)"

definition addToGrid :: "collisionData \<Rightarrow> cs_state \<Rightarrow> cs_state" where
  "addToGrid cd st =
     (let pos = cd_position cd;
          r = cd_radius cd;
          minCellX = cell (terrainSize st) (vec_x pos - r);
          maxCellX = cell (terrainSize st) (vec_x pos + r);
          minCellZ = cell (terrainSize st) (vec_z pos - r);
          maxCellZ = cell (terrainSize st) (vec_z pos + r)
      in fold (\<lambda>x. fold (\<lambda>z. grid_push cd (key x z)) [minCellZ..maxCellZ]) [minCellX..maxCellX] st)"

text \<open>
  \<open>addCollisionObject(object, boundingRadius)\<close>; an omitted radius is \<open>None\<close>. The
  radius falls back to half the larger horizontal scale when \<open>boundingRadius\<close> is
  \<open>undefined\<close> or 0.
\<close>

definition addCollisionObject :: "object3d \<Rightarrow> real option \<Rightarrow> cs_state \<Rightarrow> collisionData \<times> cs_state" where
  "addCollisionObject object boundingRadius st =
     (let collisionData =
            \<lparr>cd_object = object,
             cd_position = obj_position object,
             cd_radius = (case boundingRadius of
                            None \<Rightarrow> max (vec_x (obj_scale object)) (vec_z (obj_scale object)) * 0.5
                          | Some r \<Rightarrow> if r = 0
                                      then max (vec_x (obj_scale object)) (vec_z (obj_scale object)) * 0.5
                                      else r)\<rparr>;
          st1 = st\<lparr>collisionObjects := collisionObjects st @ [collisionData]\<rparr>
      in (collisionData, addToGrid collisionData st1))"

text \<open>
  \<open>getNearbyObjects\<close>: the local array \<open>result\<close> is allocated in the store, every
  bucket of the 3 by 3 block is appended to it, and its contents are returned.
\<close>

definition gather :: "nat \<Rightarrow> string \<Rightarrow> cs_state \<Rightarrow> cs_state" where
  "gather result k st =
     (case collisionGrid st k of
        None \<Rightarrow> st
      | Some a \<Rightarrow> st\<lparr>arrays := (arrays st)(result := arrays st result @ arrays st a)\<rparr>)"

definition getNearbyObjects :: "int \<Rightarrow> int \<Rightarrow> cs_state \<Rightarrow> collisionData list \<times> cs_state" where
  "getNearbyObjects cellX cellZ st =
     (let result = next_addr st;
          st0 = st\<lparr>arrays := (arrays st)(result := []), next_addr := Suc result\<rparr>;
          st1 = fold (\<lambda>x. fold (\<lambda>z. gather result (key x z)) [cellZ - 1..cellZ + 1])
                     [cellX - 1..cellX + 1] st0
      in (arrays st1 result, st1))"

section \<open>CollisionSystem: the collision query\<close>

text \<open>
  \<open>Vector3.normalize\<close> of three.js (release 0.137, which the page loads), a library
  outside the repository: \<open>normalize() { return this.divideScalar(this.length() || 1) }\<close>
  with \<open>divideScalar(s) { return this.multiplyScalar(1 / s) }\<close>.
\<close>

definition Vector3_length :: "Vector3 \<Rightarrow> real" where
  "Vector3_length v = sqrt (vec_x v * vec_x v + vec_y v * vec_y v + vec_z v * vec_z v)"

definition multiplyScalar :: "Vector3 \<Rightarrow> real \<Rightarrow> Vector3" where
  "multiplyScalar v s = Vector3 (vec_x v * s) (vec_y v * s) (vec_z v * s)"

definition Vector3_normalize :: "Vector3 \<Rightarrow> Vector3" where
  "Vector3_normalize v =
     multiplyScalar v (1 / (if Vector3_length v = 0 then 1 else Vector3_length v))"

text \<open>The two shapes of the object \<open>checkCollision\<close> returns.\<close>

datatype collision_result =
    Hit (hit_object: object3d) (hit_normal: Vector3) (hit_penetration: real) (hit_terrainY: jsnum)
  | NoHit (nohit_terrainY: jsnum)

definition planar_distance :: "Vector3 \<Rightarrow> Vector3 \<Rightarrow> real" where
  "planar_distance p q =
     sqrt ((vec_x p - vec_x q) * (vec_x p - vec_x q) + (vec_z p - vec_z q) * (vec_z p - vec_z q))"

text \<open>The loop over the nearby objects, which returns at the first one that collides.\<close>

fun scan :: "Vector3 \<Rightarrow> real \<Rightarrow> jsnum \<Rightarrow> collisionData list \<Rightarrow> collision_result" where
  "scan position radius terrainY [] = NoHit terrainY"
| "scan position radius terrainY (obj # objs) =
     (let dx = vec_x position - vec_x (cd_position obj);
          dz = vec_z position - vec_z (cd_position obj);
          distance = sqrt (dx * dx + dz * dz)
      in if distance < radius + cd_radius obj
         then Hit (cd_object obj) (Vector3_normalize (Vector3 dx 0 dz))
                  (radius + cd_radius obj - distance) terrainY
         else scan position radius terrainY objs)"

definition checkCollision ::
  "jsobject \<Rightarrow> Vector3 \<Rightarrow> real \<Rightarrow> cs_state \<Rightarrow> (js_error + collision_result) \<times> cs_state" where
  "checkCollision TS position radius st =
     (case CollisionSystem_getHeightAt TS st (vec_x position) (vec_z position) of
        Inl e \<Rightarrow> (Inl e, st)
      | Inr terrainY \<Rightarrow>
          let cellX = cell (terrainSize st) (vec_x position);
              cellZ = cell (terrainSize st) (vec_z position);
              (nearbyObjects, st') = getNearbyObjects cellX cellZ st
          in (Inr (scan position radius terrainY nearbyObjects), st'))"

section \<open>The ambient random source\<close>

text \<open>
  \<open>Math.random()\<close> is an ambient source of numbers in \<open>[0, 1)\<close>. A source is the
  sequence of numbers it will return and the count of those already drawn; a draw
  returns the next number and advances the count.
\<close>

type_synonym random_source = "(nat \<Rightarrow> real) \<times> nat"

definition Math_random :: "random_source \<Rightarrow> real \<times> random_source" where
  "Math_random rnd = (fst rnd (snd rnd), (fst rnd, Suc (snd rnd)))"

definition unit_source :: "random_source \<Rightarrow> bool" where
  "unit_source rnd = (\<forall>n. 0 \<le> fst rnd n \<and> fst rnd n < 1)"

section \<open>Dune stamping\<close>

text \<open>A loop whose body may throw: the first error ends it.\<close>

fun foldE :: "('a \<Rightarrow> 's \<Rightarrow> 'e + 's) \<Rightarrow> 'a list \<Rightarrow> 's \<Rightarrow> 'e + 's" where
  "foldE f [] s = Inr s"
| "foldE f (a # as) s = (case f a s of Inl e \<Rightarrow> Inl e | Inr s' \<Rightarrow> foldE f as s')"

text \<open>
  The statement \<open>data[z][x] += c\<close>. A missing row throws a TypeError. A column past
  the end of its row makes the row grow up to that column; the cells it gains hold no
  number and are modelled as \<open>NaN\<close>, which is what every read of them computes with.
  (The loops below never produce a negative index; a negative column would set a
  property and leave the elements alone.)
\<close>

definition add_to_cell :: "int \<Rightarrow> int \<Rightarrow> real \<Rightarrow> jsnum list list \<Rightarrow> js_error + jsnum list list" where
  "add_to_cell z x c data =
     (case js_get data z of
        None \<Rightarrow> Inl TypeError
      | Some row \<Rightarrow>
          Inr (data[nat z :=
                 (if x < 0 then row
                  else if x < int (length row) then row[nat x := num_add (row ! nat x) (Num c)]
                  else row @ replicate (nat x - length row) NaN @ [NaN])]))"

text \<open>
  The two nested loops both dune functions run: rows \<open>max(0, centerZ - radius)\<close> up to
  but excluding \<open>min(resolution, centerZ + radius)\<close>, the same range of columns inside,
  and for each cell the addition of the amount \<open>h x z\<close> when there is one.
\<close>

definition dune_loop ::
  "(int \<Rightarrow> int \<Rightarrow> real option) \<Rightarrow> int \<Rightarrow> int \<Rightarrow> int \<Rightarrow> int \<Rightarrow> jsnum list list \<Rightarrow> js_error + jsnum list list" where
  "dune_loop h centerX centerZ radius resolution data =
     foldE (\<lambda>z. foldE (\<lambda>x d. case h x z of None \<Rightarrow> Inr d | Some c \<Rightarrow> add_to_cell z x c d)
                        [max 0 (centerX - radius)..min resolution (centerX + radius) - 1])
           [max 0 (centerZ - radius)..min resolution (centerZ + radius) - 1] data"

subsection \<open>\<open>addDune\<close> (terrain.js)\<close>

text \<open>
  The body of the inner loop: the height a cell gains, if it is within the radius.
  \<open>Math.pow(v, 2)\<close> is the square \<open>v\<^sup>2\<close> for every number \<open>v\<close>.
\<close>

definition addDune_height :: "real \<Rightarrow> real \<Rightarrow> int \<Rightarrow> int \<Rightarrow> int \<Rightarrow> real \<Rightarrow> int \<Rightarrow> int \<Rightarrow> real option" where
  "addDune_height orientation elongation centerX centerZ radius height x z =
     (let dx = real_of_int x - real_of_int centerX;
          dz = real_of_int z - real_of_int centerZ;
          rotatedX = dx * cos orientation - dz * sin orientation;
          rotatedZ = dx * sin orientation + dz * cos orientation;
          distance = sqrt ((rotatedX / elongation)\<^sup>2 + rotatedZ\<^sup>2)
      in if distance < real_of_int radius
         then (let falloff = 1 - distance / real_of_int radius;
                   duneHeight = height * falloff\<^sup>2
               in Some duneHeight)
         else None)"

definition addDune ::
  "random_source \<Rightarrow> jsnum list list \<Rightarrow> int \<Rightarrow> int \<Rightarrow> int \<Rightarrow> real \<Rightarrow> int \<Rightarrow>
     (js_error + jsnum list list) \<times> random_source" where
  "addDune rnd data centerX centerZ radius height resolution =
     (let (u1, rnd1) = Math_random rnd;
          orientation = u1 * pi;
          (u2, rnd2) = Math_random rnd1;
          elongation = 1 + u2 * 2
      in (dune_loop (addDune_height orientation elongation centerX centerZ radius height)
            centerX centerZ radius resolution data, rnd2))"

subsection \<open>\<open>addDesertDunes\<close> (TerrainSystem)\<close>

definition dune_contribution :: "real \<Rightarrow> real \<Rightarrow> int \<Rightarrow> int \<Rightarrow> int \<Rightarrow> real \<Rightarrow> int \<Rightarrow> int \<Rightarrow> real option" where
  "dune_contribution rotation elongation centerX centerY radius height x y =
     (let dx = real_of_int x - real_of_int centerX;
          dy = real_of_int y - real_of_int centerY;
          rotatedX = dx * cos rotation - dy * sin rotation;
          rotatedY = dx * sin rotation + dy * cos rotation;
          normalizedX = rotatedX / elongation;
          normalizedY = rotatedY;
          distance = sqrt (normalizedX * normalizedX + normalizedY * normalizedY)
      in if distance < real_of_int radius
         then (let falloff = 1 - distance / real_of_int radius;
                   contribution = falloff\<^sup>2 * height
               in Some contribution)
         else None)"

text \<open>
  One iteration of the loop over the dunes draws the six parameters of a dune and
  stamps it: the draws and the stamp are the two halves of the loop body.
\<close>

record dune =
  d_centerX :: int
  d_centerY :: int
  d_radius :: int
  d_height :: real
  d_elongation :: real
  d_rotation :: real

definition draw_dune :: "int \<Rightarrow> random_source \<Rightarrow> dune \<times> random_source" where
  "draw_dune terrainResolution rnd =
     (let (u1, rnd1) = Math_random rnd;
          centerX = \<lfloor>u1 * real_of_int terrainResolution\<rfloor>;
          (u2, rnd2) = Math_random rnd1;
          centerY = \<lfloor>u2 * real_of_int terrainResolution\<rfloor>;
          (u3, rnd3) = Math_random rnd2;
          radius = \<lfloor>u3 * 20\<rfloor> + 10;
          (u4, rnd4) = Math_random rnd3;
          height = u4 * 0.5 + 0.1;
          (u5, rnd5) = Math_random rnd4;
          elongation = u5 * 3 + 1;
          (u6, rnd6) = Math_random rnd5;
          rotation = u6 * pi
      in (\<lparr>d_centerX = centerX, d_centerY = centerY, d_radius = radius, d_height = height,
           d_elongation = elongation, d_rotation = rotation\<rparr>, rnd6))"

definition stamp_dune :: "int \<Rightarrow> dune \<Rightarrow> jsnum list list \<Rightarrow> js_error + jsnum list list" where
  "stamp_dune terrainResolution d heightmap =
     dune_loop (dune_contribution (d_rotation d) (d_elongation d) (d_centerX d) (d_centerY d)
                  (d_radius d) (d_height d))
       (d_centerX d) (d_centerY d) (d_radius d) terrainResolution heightmap"

fun addDesertDunes_loop ::
  "nat \<Rightarrow> int \<Rightarrow> random_source \<Rightarrow> jsnum list list \<Rightarrow> (js_error + jsnum list list) \<times> random_source" where
  "addDesertDunes_loop 0 terrainResolution rnd heightmap = (Inr heightmap, rnd)"
| "addDesertDunes_loop (Suc n) terrainResolution rnd heightmap =
     (let (d, rnd') = draw_dune terrainResolution rnd
      in case stamp_dune terrainResolution d heightmap of
           Inl e \<Rightarrow> (Inl e, rnd')
         | Inr heightmap' \<Rightarrow> addDesertDunes_loop n terrainResolution rnd' heightmap')"

text \<open>\<open>duneCount = 30\<close>.\<close>

definition addDesertDunes ::
  "int \<Rightarrow> random_source \<Rightarrow> jsnum list list \<Rightarrow> (js_error + jsnum list list) \<times> random_source" where
  "addDesertDunes terrainResolution rnd heightmap = addDesertDunes_loop 30 terrainResolution rnd heightmap"

section \<open>SimplexNoise\<close>

text \<open>The operator \<open>%\<close> on numbers: the remainder has the sign of the dividend.\<close>

definition js_rem :: "real \<Rightarrow> real \<Rightarrow> real" where
  "js_rem a n = a - n * real_of_int (if a / n < 0 then \<lceil>a / n\<rceil> else \<lfloor>a / n\<rfloor>)"

text \<open>
  \<open>_seededRandom\<close>: each call replaces the seed by \<open>(seed * 9301 + 49297) % 233280\<close>
  and returns the new seed divided by 233280.
\<close>

definition next_seed :: "real \<Rightarrow> real" where
  "next_seed seed = js_rem (seed * 9301 + 49297) 233280"

text \<open>
  The destructuring swap \<open>[p[i], p[j]] = [p[j], p[i]]\<close> on a \<open>Uint8Array\<close>: a read
  outside the array is \<open>undefined\<close>, which is stored as 0, and a write outside it is
  ignored.
\<close>

definition u8_swap :: "nat list \<Rightarrow> nat \<Rightarrow> int \<Rightarrow> nat list" where
  "u8_swap p i j =
     (case js_get p j of
        None \<Rightarrow> p[i := 0]
      | Some pj \<Rightarrow> (p[i := pj])[nat j := p ! i])"

text \<open>The shuffle loop \<open>for (let i = 255; i > 0; i--)\<close>, from \<open>i\<close> down to 1.\<close>

fun shuffle :: "nat \<Rightarrow> real \<Rightarrow> nat list \<Rightarrow> nat list" where
  "shuffle 0 seed p = p"
| "shuffle (Suc n) seed p =
     (let seed' = next_seed seed;
          j = \<lfloor>seed' / 233280 * real (Suc n + 1)\<rfloor>
      in shuffle n seed' (u8_swap p (Suc n) j))"

record SimplexNoise =
  sn_p :: "nat list"
  sn_perm :: "nat list"
  sn_permMod12 :: "nat list"

text \<open>The constructor, for a given seed.\<close>

definition new_SimplexNoise :: "real \<Rightarrow> SimplexNoise" where
  "new_SimplexNoise seed =
     (let p = shuffle 255 seed [0..<256];
          perm = map (\<lambda>i. p ! (i AND 255)) [0..<512];
          permMod12 = map (\<lambda>i. perm ! i mod 12) [0..<512]
      in \<lparr>sn_p = p, sn_perm = perm, sn_permMod12 = permMod12\<rparr>)"

definition gradient2D :: "nat \<Rightarrow> real \<Rightarrow> real \<Rightarrow> real" where
  "gradient2D hash x y =
     (let h = hash AND 7;
          u = (if h < 4 then x else y);
          v = (if h < 4 then y else x)
      in (if h AND 1 \<noteq> 0 then - u else u) + (if h AND 2 \<noteq> 0 then - 2 * v else 2 * v))"

definition noise2D :: "SimplexNoise \<Rightarrow> real \<Rightarrow> real \<Rightarrow> real" where
  "noise2D sn x y =
     (let F2 = 0.5 * (sqrt 3 - 1);
          G2 = (3 - sqrt 3) / 6;
          s = (x + y) * F2;
          i = \<lfloor>x + s\<rfloor>;
          j = \<lfloor>y + s\<rfloor>;
          t = real_of_int (i + j) * G2;
          X0 = real_of_int i - t;
          Y0 = real_of_int j - t;
          x0 = x - X0;
          y0 = y - Y0;
          i1 = (if x0 > y0 then 1 else 0);
          j1 = (if x0 > y0 then 0 else 1);
          x1 = x0 - real i1 + G2;
          y1 = y0 - real j1 + G2;
          x2 = x0 - 1 + 2 * G2;
          y2 = y0 - 1 + 2 * G2;
          ii = nat (i AND 255);
          jj = nat (j AND 255);
          n0 = gradient2D (sn_permMod12 sn ! (ii + sn_perm sn ! jj)) x0 y0;
          n1 = gradient2D (sn_permMod12 sn ! (ii + i1 + sn_perm sn ! (jj + j1))) x1 y1;
          n2 = gradient2D (sn_permMod12 sn ! (ii + 1 + sn_perm sn ! (jj + 1))) x2 y2
      in 70 * (n0 + n1 + n2))"

section \<open>Heightfield generation (TerrainSystem)\<close>

text \<open>\<open>Math.pow(h, 1.5)\<close>: \<open>NaN\<close> for a negative base.\<close>

definition pow_3_2 :: "real \<Rightarrow> jsnum" where
  "pow_3_2 h = (if h < 0 then NaN else Num (h powr (3 / 2)))"

text \<open>
  \<open>generateSimplexNoise(width, height, scale)\<close>. \<open>new SimplexNoise()\<close> is called
  without a seed, so the default \<open>seed = Math.random()\<close> draws it from the ambient source.
\<close>

definition octaves :: "SimplexNoise \<Rightarrow> nat \<Rightarrow> nat \<Rightarrow> real \<Rightarrow> nat \<Rightarrow> nat \<Rightarrow> real" where
  "octaves simplex width height scale x y =
     (let nx = real x / real width - 0.5;
          ny = real y / real height - 0.5;
          value = noise2D simplex (nx * scale) (ny * scale) * 0.7;
          value = value + noise2D simplex (nx * scale * 2) (ny * scale * 2) * 0.2;
          value = value + noise2D simplex (nx * scale * 4) (ny * scale * 4) * 0.1;
          value = (value + 1) * 0.5
      in value)"

definition generateSimplexNoise :: "random_source \<Rightarrow> nat \<Rightarrow> nat \<Rightarrow> real \<Rightarrow> real list list \<times> random_source" where
  "generateSimplexNoise rnd width height scale =
     (let (seed, rnd') = Math_random rnd;
          simplex = new_SimplexNoise seed
      in (map (\<lambda>y. map (\<lambda>x. octaves simplex width height scale x y) [0..<width]) [0..<height], rnd'))"

text \<open>
  \<open>generateDesertHeightmap()\<close>, with the module's \<open>terrainResolution\<close> as argument.
  A negative resolution makes \<open>new Array\<close> throw a RangeError, after the noise
  generator has been constructed.
\<close>

definition generateDesertHeightmap :: "int \<Rightarrow> random_source \<Rightarrow> (js_error + jsnum list list) \<times> random_source" where
  "generateDesertHeightmap terrainResolution rnd =
     (if terrainResolution < 0 then (Inl RangeError, snd (Math_random rnd))
      else
        let (baseNoise, rnd') = generateSimplexNoise rnd (nat terrainResolution) (nat terrainResolution) 5;
            heightData = map (\<lambda>y. map (\<lambda>x. num_mul (pow_3_2 (baseNoise ! y ! x)) (Num 0.8))
                                       [0..<nat terrainResolution])
                             [0..<nat terrainResolution]
        in addDesertDunes terrainResolution rnd' heightData)"

section \<open>Rock clusters (terrain.js)\<close>

text \<open>
  A rock mesh as \<open>addRocksWithPhysics\<close> creates it: the indices of the geometry and the
  material it clones, its uniform scale, its position and its rotation. The scene and
  the physics world it is added to are outside the model.
\<close>

record rock_mesh =
  rm_geometry :: nat
  rm_material :: nat
  rm_scale :: real
  rm_x :: real
  rm_y :: jsnum
  rm_z :: real
  rm_rotation :: "real \<times> real \<times> real"

text \<open>\<open>Math.floor((pos + extent / 2) * (resolution - 1) / extent)\<close>.\<close>

definition gridIndex :: "real \<Rightarrow> int \<Rightarrow> real \<Rightarrow> int" where
  "gridIndex extent resolution pos = \<lfloor>(pos + extent / 2) * real_of_int (resolution - 1) / extent\<rfloor>"

text \<open>
  Constructing an object of three.js (release 0.137, a library outside the repository)
  gives it a uuid: the constructors of \<open>BufferGeometry\<close>, \<open>Material\<close> and \<open>Object3D\<close>
  each run \<open>this.uuid = generateUUID()\<close>, and \<open>generateUUID\<close> calls \<open>Math.random()\<close>
  four times. \<open>clone()\<close> is \<open>new this.constructor().copy(this)\<close> for a geometry and
  for a material, so each \<open>clone()\<close> and each \<open>new THREE.Mesh\<close> takes four draws from
  the ambient source. The uuid itself is not part of the model.
\<close>

definition generateUUID :: "random_source \<Rightarrow> random_source" where
  "generateUUID rnd =
     (let (d0, rnd1) = Math_random rnd;
          (d1, rnd2) = Math_random rnd1;
          (d2, rnd3) = Math_random rnd2;
          (d3, rnd4) = Math_random rnd3
      in rnd4)"

text \<open>
  The body of the loop over the members of a cluster: one rock, for which the loop
  itself draws eight numbers and the three constructors twelve more. \<open>rockGeometries\<close>
  has four entries and \<open>rockMaterials\<close> two; an index outside them reads \<open>undefined\<close>,
  whose \<open>clone\<close> throws. \<open>height\<close> is the value sampled at the anchor.
\<close>

definition cluster_rock :: "real \<Rightarrow> real \<Rightarrow> jsval \<Rightarrow> random_source \<Rightarrow> (js_error + rock_mesh) \<times> random_source" where
  "cluster_rock centerX centerZ height rnd =
     (let (u1, rnd1) = Math_random rnd;
          angle = u1 * pi * 2;
          (u2, rnd2) = Math_random rnd1;
          distance = u2 * 3 + 1;
          offsetX = cos angle * distance;
          offsetZ = sin angle * distance;
          (u3, rnd3) = Math_random rnd2
      in case js_get [0, 1, 2, 3] \<lfloor>u3 * 4\<rfloor> of
           None \<Rightarrow> (Inl TypeError, rnd3)
         | Some rockGeom \<Rightarrow>
             let rnd3' = generateUUID rnd3;
                 (u4, rnd4) = Math_random rnd3'
             in case js_get [0, 1] \<lfloor>u4 * 2\<rfloor> of
                  None \<Rightarrow> (Inl TypeError, rnd4)
                | Some rockMat \<Rightarrow>
                    let rnd4' = generateUUID rnd4;
                        rnd4'' = generateUUID rnd4';
                        (u5, rnd5) = Math_random rnd4'';
                        scale = u5 * 2 + 1;
                        (u6, rnd6) = Math_random rnd5;
                        (u7, rnd7) = Math_random rnd6;
                        (u8, rnd8) = Math_random rnd7
                    in (Inr \<lparr>rm_geometry = rockGeom, rm_material = rockMat, rm_scale = scale,
                             rm_x = centerX + offsetX,
                             rm_y = num_add (ToNumber height) (Num (scale / 2)),
                             rm_z = centerZ + offsetZ,
                             rm_rotation = (u6 * pi, u7 * pi * 2, u8 * pi)\<rparr>, rnd8))"

text \<open>The loop \<open>for (let j = 0; j < rocksInCluster; j++)\<close>, collecting the rocks it adds.\<close>

fun cluster_rocks ::
  "nat \<Rightarrow> real \<Rightarrow> real \<Rightarrow> jsval \<Rightarrow> random_source \<Rightarrow> (js_error + rock_mesh list) \<times> random_source" where
  "cluster_rocks 0 centerX centerZ height rnd = (Inr [], rnd)"
| "cluster_rocks (Suc n) centerX centerZ height rnd =
     (case cluster_rock centerX centerZ height rnd of
        (Inl e, rnd') \<Rightarrow> (Inl e, rnd')
      | (Inr mesh, rnd') \<Rightarrow>
          (case cluster_rocks n centerX centerZ height rnd' of
             (Inl e, rnd'') \<Rightarrow> (Inl e, rnd'')
           | (Inr rocks, rnd'') \<Rightarrow> (Inr (mesh # rocks), rnd'')))"

text \<open>
  The body of the loop over the clusters: the anchor, the one height sample at the
  anchor's grid cell, the number of members, and the members. (\<open>hdata\<close> and \<open>len\<close>
  stand for the parameters \<open>heightData\<close> and \<open>length\<close>.)
\<close>

definition rock_cluster ::
  "jsnum list list \<Rightarrow> real \<Rightarrow> real \<Rightarrow> int \<Rightarrow> random_source \<Rightarrow> (js_error + rock_mesh list) \<times> random_source" where
  "rock_cluster hdata width len resolution rnd =
     (let (u1, rnd1) = Math_random rnd;
          centerX = u1 * width - width / 2;
          (u2, rnd2) = Math_random rnd1;
          centerZ = u2 * len - len / 2;
          gridX = gridIndex width resolution centerX;
          gridZ = gridIndex len resolution centerZ
      in if gridX \<ge> 0 \<and> gridX < resolution \<and> gridZ \<ge> 0 \<and> gridZ < resolution
         then (case elem hdata gridZ gridX of
                 Inl e \<Rightarrow> (Inl e, rnd2)
               | Inr height \<Rightarrow>
                   let (u3, rnd3) = Math_random rnd2;
                       rocksInCluster = \<lfloor>u3 * 5\<rfloor> + 3
                   in cluster_rocks (nat rocksInCluster) centerX centerZ height rnd3)
         else (Inr [], rnd2))"

chapter \<open>Properties\<close>

section \<open>Properties of the rounding\<close>

lemma round_even_int [simp]: "round_even (real_of_int k) = k"
  by (simp add: round_even_def)

lemma round_even_bounds: "\<lfloor>r\<rfloor> \<le> round_even r" "round_even r \<le> \<lfloor>r\<rfloor> + 1"
  by (simp_all add: round_even_def Let_def)

lemma round_even_mono:
  assumes "r \<le> s"
  shows "round_even r \<le> round_even s"
proof (cases "\<lfloor>r\<rfloor> = \<lfloor>s\<rfloor>")
  case True
  then show ?thesis
    using assms by (auto simp: round_even_def Let_def)
next
  case False
  then have "\<lfloor>r\<rfloor> < \<lfloor>s\<rfloor>"
    using floor_mono[OF assms] by linarith
  then show ?thesis
    using round_even_bounds(2)[of r] round_even_bounds(1)[of s] by linarith
qed

lemma round_even_minus: "round_even (- r) = - round_even r"
proof (cases "r = real_of_int \<lfloor>r\<rfloor>")
  case True
  then obtain k where "r = real_of_int k" by blast
  then have "- r = real_of_int (- k)" by simp
  then show ?thesis
    using \<open>r = real_of_int k\<close> by (simp only: round_even_int)
next
  case False
  then have lt: "real_of_int \<lfloor>r\<rfloor> < r"
    using of_int_floor_le[of r] by linarith
  have f: "\<lfloor>- r\<rfloor> = - \<lfloor>r\<rfloor> - 1"
    using lt floor_correct[of r] by (intro floor_unique) (simp_all, linarith)
  show ?thesis
    using lt by (auto simp: round_even_def Let_def f)
qed

lemma round_even_error: "\<bar>real_of_int (round_even r) - r\<bar> \<le> 1/2"
  using floor_correct[of r] by (auto simp: round_even_def Let_def abs_le_iff)

lemma two_powr: "2 powr real_of_int n = (2::real) powi n"
  by (simp add: powr_real_of_int')

lemma double_exp_bounds:
  assumes "x \<noteq> 0"
  shows "2 powi double_exp x \<le> \<bar>x\<bar>" "\<bar>x\<bar> < 2 powi (double_exp x + 1)"
proof -
  have p: "0 < \<bar>x\<bar>" using assms by simp
  have "real_of_int (double_exp x) \<le> log 2 \<bar>x\<bar>"
    by (simp add: double_exp_def)
  then have "2 powr real_of_int (double_exp x) \<le> \<bar>x\<bar>"
    using p by (simp add: le_log_iff)
  then show "2 powi double_exp x \<le> \<bar>x\<bar>"
    by (simp add: powr_real_of_int')
  have "log 2 \<bar>x\<bar> < real_of_int (double_exp x + 1)"
    by (simp add: double_exp_def)
  then have "\<bar>x\<bar> < 2 powr real_of_int (double_exp x + 1)"
    using p by (simp add: log_less_iff)
  then show "\<bar>x\<bar> < 2 powi (double_exp x + 1)"
    by (simp only: two_powr)
qed

lemma double_exp_unique:
  assumes "2 powi e \<le> \<bar>x\<bar>" "\<bar>x\<bar> < 2 powi (e + 1)"
  shows "double_exp x = e"
proof -
  have p: "0 < \<bar>x\<bar>"
    using assms(1) zero_less_power_int[of "2::real" e] by linarith
  have "2 powr real_of_int e \<le> \<bar>x\<bar>"
    using assms(1) by (simp add: powr_real_of_int')
  then have a: "real_of_int e \<le> log 2 \<bar>x\<bar>"
    using p by (simp add: le_log_iff)
  have "\<bar>x\<bar> < 2 powr real_of_int (e + 1)"
    using assms(2) by (simp only: two_powr)
  then have b: "log 2 \<bar>x\<bar> < real_of_int e + 1"
    using p by (simp add: log_less_iff)
  show ?thesis
    unfolding double_exp_def using a b by (intro floor_unique) simp_all
qed

lemma fl_0 [simp]: "fl 0 = 0"
  by (simp add: fl_def)

lemma fl_eval:
  assumes "2 powi e \<le> \<bar>x\<bar>" "\<bar>x\<bar> < 2 powi (e + 1)"
  shows "fl x = real_of_int (round_even (x / 2 powi (e - 52))) * 2 powi (e - 52)"
proof -
  have "0 < \<bar>x\<bar>"
    by (rule less_le_trans[OF _ assms(1)]) simp
  then have "x \<noteq> 0"
    by simp
  then show ?thesis
    by (simp add: fl_def double_exp_unique[OF assms])
qed

lemma double_exp_minus [simp]: "double_exp (- x) = double_exp x"
  by (simp add: double_exp_def)

lemma fl_minus: "fl (- x) = - fl x"
  by (simp add: fl_def round_even_minus)

lemma p52: "(2::real) powi (e - 52) * 2 ^ 52 = 2 powi e"
proof -
  have "(2::real) powi (e - 52) * 2 powi 52 = 2 powi (e - 52 + 52)"
    by (subst power_int_add) simp_all
  then show ?thesis by simp
qed

lemma p53: "(2::real) powi (e - 52) * 2 ^ 53 = 2 powi (e + 1)"
proof -
  have "(2::real) powi (e - 52) * 2 powi 53 = 2 powi (e - 52 + 53)"
    by (subst power_int_add) simp_all
  then show ?thesis by (simp add: add.commute)
qed

lemma scaled_bounds:
  fixes x :: real
  assumes "0 < x" "2 powi e \<le> x" "x < 2 powi (e + 1)"
  shows "2 ^ 52 \<le> x / 2 powi (e - 52)" "x / 2 powi (e - 52) < 2 ^ 53"
proof -
  have q: "0 < (2::real) powi (e - 52)" by simp
  have a: "2 ^ 52 * (2::real) powi (e - 52) = 2 powi e" "2 ^ 53 * (2::real) powi (e - 52) = 2 powi (e + 1)"
    using p52[of e] p53[of e] by (simp_all add: mult.commute)
  have "2 ^ 52 * 2 powi (e - 52) \<le> x"
    using assms(2) by (simp only: a)
  then show "2 ^ 52 \<le> x / 2 powi (e - 52)"
    using q by (simp only: pos_le_divide_eq)
  have "x < 2 ^ 53 * 2 powi (e - 52)"
    using assms(3) by (simp only: a)
  then show "x / 2 powi (e - 52) < 2 ^ 53"
    using q by (simp only: pos_divide_less_eq)
qed

lemma fl_pos_bounds:
  assumes "0 < x" "2 powi e \<le> x" "x < 2 powi (e + 1)"
  shows "2 powi e \<le> fl x" "fl x \<le> 2 powi (e + 1)"
proof -
  note s = scaled_bounds[OF assms]
  have f: "fl x = real_of_int (round_even (x / 2 powi (e - 52))) * 2 powi (e - 52)"
    using assms by (intro fl_eval) simp_all
  have "round_even (real_of_int (2 ^ 52)) \<le> round_even (x / 2 powi (e - 52))"
    using s(1) by (intro round_even_mono) simp
  then have a: "(2::real) ^ 52 \<le> real_of_int (round_even (x / 2 powi (e - 52)))"
    by (simp only: round_even_int) (metis of_int_le_iff of_int_numeral of_int_power)
  have "round_even (x / 2 powi (e - 52)) \<le> round_even (real_of_int (2 ^ 53))"
    using s(2) by (intro round_even_mono) simp
  then have b: "real_of_int (round_even (x / 2 powi (e - 52))) \<le> (2::real) ^ 53"
    by (simp only: round_even_int) (metis of_int_le_iff of_int_numeral of_int_power)
  have c: "2 ^ 52 * (2::real) powi (e - 52) = 2 powi e" "2 ^ 53 * (2::real) powi (e - 52) = 2 powi (e + 1)"
    using p52[of e] p53[of e] by (simp_all add: mult.commute)
  have "2 ^ 52 * 2 powi (e - 52) \<le> fl x"
    unfolding f using a by (intro mult_right_mono) simp_all
  then show "2 powi e \<le> fl x"
    by (simp only: c)
  have "fl x \<le> 2 ^ 53 * 2 powi (e - 52)"
    unfolding f using b by (intro mult_right_mono) simp_all
  then show "fl x \<le> 2 powi (e + 1)"
    by (simp only: c)
qed

lemma fl_pos:
  assumes "0 < x"
  shows "0 < fl x"
proof -
  have "2 powi double_exp x \<le> x" "x < 2 powi (double_exp x + 1)"
    using double_exp_bounds[of x] assms by simp_all
  then have "2 powi double_exp x \<le> fl x"
    using assms by (intro fl_pos_bounds(1))
  moreover have "0 < (2::real) powi double_exp x" by simp
  ultimately show ?thesis by linarith
qed

lemma fl_neg: "x < 0 \<Longrightarrow> fl x < 0"
  using fl_pos[of "- x"] by (simp add: fl_minus)

lemma fl_mono_pos:
  assumes "0 < x" "x \<le> y"
  shows "fl x \<le> fl y"
proof -
  have y: "0 < y" using assms by simp
  note bx = double_exp_bounds[of x] and by' = double_exp_bounds[of y]
  have ex: "2 powi double_exp x \<le> x" "x < 2 powi (double_exp x + 1)"
    using bx assms(1) by simp_all
  have ey: "2 powi double_exp y \<le> y" "y < 2 powi (double_exp y + 1)"
    using by' y by simp_all
  have le: "double_exp x \<le> double_exp y"
    using assms by (simp add: double_exp_def floor_mono)
  show ?thesis
  proof (cases "double_exp x = double_exp y")
    case True
    have "x / 2 powi (double_exp y - 52) \<le> y / 2 powi (double_exp y - 52)"
      using assms(2) by (simp add: divide_right_mono)
    then have "round_even (x / 2 powi (double_exp y - 52)) \<le> round_even (y / 2 powi (double_exp y - 52))"
      by (rule round_even_mono)
    then show ?thesis
      using assms(1) y by (simp add: fl_def True mult_right_mono)
  next
    case False
    then have "double_exp x + 1 \<le> double_exp y" using le by simp
    then have "(2::real) powi (double_exp x + 1) \<le> 2 powi double_exp y"
      by (intro power_int_increasing) simp_all
    then show ?thesis
      using fl_pos_bounds(2)[OF assms(1) ex] fl_pos_bounds(1)[OF y ey] by linarith
  qed
qed

lemma fl_mono:
  assumes "x \<le> y"
  shows "fl x \<le> fl y"
proof -
  consider "0 < x" | "x \<le> 0" "0 \<le> y" | "y < 0" using assms by linarith
  then show ?thesis
  proof cases
    case 1
    then show ?thesis using assms by (rule fl_mono_pos)
  next
    case 2
    have "fl x \<le> 0" using 2(1) fl_neg[of x] by (cases "x = 0") auto
    moreover have "0 \<le> fl y" using 2(2) fl_pos[of y] by (cases "y = 0") auto
    ultimately show ?thesis by simp
  next
    case 3
    then have "fl (- y) \<le> fl (- x)" using assms by (intro fl_mono_pos) simp_all
    then show ?thesis by (simp add: fl_minus)
  qed
qed

lemma fl_error: "\<bar>fl x - x\<bar> \<le> \<bar>x\<bar> / 2 ^ 53"
proof (cases "x = 0")
  case True
  then show ?thesis by simp
next
  case False
  let ?q = "(2::real) powi (double_exp x - 52)"
  have q: "0 < ?q" by simp
  have "fl x - x = (real_of_int (round_even (x / ?q)) - x / ?q) * ?q"
    using False by (simp add: fl_def left_diff_distrib)
  then have "\<bar>fl x - x\<bar> = \<bar>real_of_int (round_even (x / ?q)) - x / ?q\<bar> * ?q"
    by (simp add: abs_mult)
  also have "\<dots> \<le> 1/2 * ?q"
    using round_even_error[of "x / ?q"] by (intro mult_right_mono) simp_all
  also have "\<dots> = 2 powi double_exp x / 2 ^ 53"
    using p53[of "double_exp x"] power_int_add_1[of "2::real" "double_exp x"]
    by (simp add: field_simps)
  also have "\<dots> \<le> \<bar>x\<bar> / 2 ^ 53"
    using double_exp_bounds(1)[OF False] by (simp add: divide_right_mono)
  finally show ?thesis .
qed

lemma fl_repr:
  assumes "\<bar>m\<bar> < 2 ^ 53"
  shows "fl (real_of_int m * 2 powi k) = real_of_int m * 2 powi k"
proof (cases "m = 0")
  case True
  then show ?thesis by simp
next
  case False
  define x where "x = real_of_int m * 2 powi k"
  define e where "e = double_exp x"
  define q where "q = (2::real) powi (e - 52)"
  have x: "x \<noteq> 0" using False by (simp add: x_def)
  have q: "q \<noteq> 0" by (simp add: q_def)
  have "\<bar>x\<bar> = real_of_int \<bar>m\<bar> * 2 powi k"
    by (simp add: x_def abs_mult)
  also have "\<dots> < real_of_int (2 ^ 53) * 2 powi k"
    using assms by (intro mult_strict_right_mono) (simp_all only: of_int_less_iff zero_less_power_int zero_less_numeral)
  also have "\<dots> = 2 powi (k + 53)"
    using power_int_add[of "2::real" k 53] by (simp add: mult.commute)
  finally have "2 powi e < (2::real) powi (k + 53)"
    using double_exp_bounds(1)[OF x] unfolding e_def by linarith
  then have "e < k + 53"
    using power_int_increasing[of "k + 53" e "2::real"] by (cases "e < k + 53") simp_all
  then have "0 \<le> k - (e - 52)" by simp
  then obtain n where "k - (e - 52) = int n"
    using nonneg_int_cases by blast
  then have n: "k = e - 52 + int n" by simp
  have pk: "(2::real) powi k = q * 2 ^ n"
    unfolding q_def by (subst n, subst power_int_add) simp_all
  have "x / q = real_of_int m * 2 ^ n"
    using q by (simp add: x_def pk)
  then have s: "x / q = real_of_int (m * 2 ^ n)"
    by simp
  have "fl x = real_of_int (round_even (x / q)) * q"
    using x by (simp add: fl_def e_def q_def)
  also have "\<dots> = real_of_int (m * 2 ^ n) * q"
    by (simp only: s round_even_int)
  also have "\<dots> = x"
    by (simp add: x_def pk)
  finally show ?thesis
    by (simp only: x_def)
qed

lemma fl_int:
  assumes "\<bar>m\<bar> < 2 ^ 53"
  shows "fl (real_of_int m) = real_of_int m"
  using fl_repr[OF assms, of 0] by simp

lemma fl_1 [simp]: "fl 1 = 1"
  using fl_int[of 1] by simp

section \<open>Properties of the height queries\<close>

text \<open>A height grid of \<open>res\<close> rows with \<open>res\<close> columns each.\<close>

definition square_grid :: "int \<Rightarrow> 'a list list \<Rightarrow> bool" where
  "square_grid res grid = (int (length grid) = res \<and> list_all (\<lambda>row. int (length row) = res) grid)"

text \<open>An index pair (row, column) that lies inside the grid.\<close>

definition inside :: "'a list list \<Rightarrow> int \<times> int \<Rightarrow> bool" where
  "inside grid p =
     (0 \<le> fst p \<and> fst p < int (length grid) \<and> 0 \<le> snd p \<and> snd p < int (length (grid ! nat (fst p))))"

text \<open>The world-space bounds \<open>[-terrainSize/2, terrainSize/2]\<close> on both axes.\<close>

definition in_world :: "real \<Rightarrow> real \<Rightarrow> real \<Rightarrow> bool" where
  "in_world sz x z = (- sz / 2 \<le> x \<and> x \<le> sz / 2 \<and> - sz / 2 \<le> z \<and> z \<le> sz / 2)"

text \<open>
  A point beyond a near edge of the world, or beyond a far edge by more than the
  fraction \<open>2\<^sup>-\<^sup>5\<^sup>1\<close> of the terrain size.
\<close>

definition beyond_world :: "real \<Rightarrow> real \<Rightarrow> real \<Rightarrow> bool" where
  "beyond_world sz x z =
     (x < - sz / 2 \<or> z < - sz / 2 \<or> sz / 2 + sz / 2 ^ 51 < x \<or> sz / 2 + sz / 2 ^ 51 < z)"

text \<open>A terrain size that is a positive double with a double for its half, as 1000 is.\<close>

definition double_size :: "real \<Rightarrow> bool" where
  "double_size sz = (0 < sz \<and> fl sz = sz \<and> fl (sz / 2) = sz / 2)"

lemma normalized_in_world:
  assumes "double_size sz" "- sz / 2 \<le> v" "v \<le> sz / 2"
  shows "0 \<le> normalized sz v" "normalized sz v \<le> 1"
proof -
  have s: "0 < sz" "fl sz = sz" "fl (sz / 2) = sz / 2"
    using assms(1) by (simp_all add: double_size_def)
  have "fl 0 \<le> fl (v + sz / 2)" using assms(2) by (intro fl_mono) simp
  then have a: "0 \<le> fl (v + sz / 2)" by simp
  have "fl (v + sz / 2) \<le> fl sz" using assms(3) by (intro fl_mono) simp
  then have b: "fl (v + sz / 2) \<le> sz" by (simp only: s)
  have "fl 0 \<le> fl (fl (v + sz / 2) / sz)"
    using a s(1) by (intro fl_mono) simp
  then show "0 \<le> normalized sz v"
    by (simp add: normalized_def s)
  have "fl (fl (v + sz / 2) / sz) \<le> fl 1"
    using b s(1) by (intro fl_mono) simp
  then show "normalized sz v \<le> 1"
    by (simp add: normalized_def s)
qed

lemma normalized_near:
  assumes "double_size sz" "v < - sz / 2"
  shows "normalized sz v < 0"
proof -
  have s: "0 < sz" "fl (sz / 2) = sz / 2"
    using assms(1) by (simp_all add: double_size_def)
  have "fl (v + sz / 2) < 0" using assms(2) by (intro fl_neg) simp
  then have "fl (v + sz / 2) / sz < 0" using s(1) by (simp add: divide_neg_pos)
  then have "fl (fl (v + sz / 2) / sz) < 0" by (rule fl_neg)
  then show ?thesis by (simp add: normalized_def s)
qed

lemma fl_lower:
  assumes "0 < x"
  shows "x - x / 2 ^ 53 \<le> fl x"
proof -
  have "\<bar>fl x - x\<bar> \<le> x / 2 ^ 53"
    using fl_error[of x] assms by simp
  then show ?thesis by linarith
qed

lemma normalized_far:
  assumes "double_size sz" "sz / 2 + sz / 2 ^ 51 < v"
  shows "1 < normalized sz v"
proof -
  have s: "0 < sz" "fl (sz / 2) = sz / 2"
    using assms(1) by (simp_all add: double_size_def)
  define t where "t = v + sz / 2"
  define q where "q = fl t / sz"
  have t: "sz + sz / 2 ^ 51 < t" using assms(2) by (simp add: t_def)
  then have tp: "0 < t" using s(1) by (simp add: add_pos_pos less_trans[rotated])
  have "(sz + sz / 2 ^ 51) - (sz + sz / 2 ^ 51) / 2 ^ 53 < t - t / 2 ^ 53"
    using t by simp
  also have "\<dots> \<le> fl t" using tp by (rule fl_lower)
  finally have "sz * ((1 + 1 / 2 ^ 51) - (1 + 1 / 2 ^ 51) / 2 ^ 53) < fl t"
    by (simp add: algebra_simps)
  then have q: "(1 + 1 / 2 ^ 51) - (1 + 1 / 2 ^ 51) / 2 ^ 53 < q"
    using s(1) by (simp add: q_def pos_less_divide_eq mult.commute)
  then have qp: "0 < q" by simp
  have "1 < q - q / 2 ^ 53" using q by simp
  also have "\<dots> \<le> fl q" using qp by (rule fl_lower)
  finally show ?thesis
    by (simp add: normalized_def s q_def t_def)
qed

lemma accepted_in_world:
  assumes "double_size sz" "in_world sz x z"
  shows "\<not> rejected (normalized sz x) (normalized sz z)"
  using normalized_in_world[OF assms(1), of x] normalized_in_world[OF assms(1), of z] assms(2)
  by (simp add: rejected_def in_world_def not_less)

lemma rejected_beyond_world:
  assumes "double_size sz" "beyond_world sz x z"
  shows "rejected (normalized sz x) (normalized sz z)"
  using normalized_near[OF assms(1), of x] normalized_near[OF assms(1), of z]
    normalized_far[OF assms(1), of x] normalized_far[OF assms(1), of z] assms(2)
  unfolding rejected_def beyond_world_def by blast

lemma cs_index_bounds:
  assumes "2 \<le> res" "0 \<le> n"
  shows "0 \<le> cs_index res n" "cs_index res n \<le> res - 2"
proof -
  have "fl 0 \<le> fl (n * real_of_int (res - 1))" using assms by (intro fl_mono) simp
  then have "0 \<le> \<lfloor>fl (n * real_of_int (res - 1))\<rfloor>" by simp
  then show "0 \<le> cs_index res n" using assms by (simp add: cs_index_def)
  show "cs_index res n \<le> res - 2" by (simp add: cs_index_def)
qed

lemma ts_index_bounds:
  assumes "1 \<le> res" "0 \<le> n"
  shows "0 \<le> ts_index res n" "ts_index res n \<le> res - 1"
proof -
  have "fl 0 \<le> fl (n * real_of_int res)" using assms by (intro fl_mono) simp
  then have "0 \<le> \<lfloor>fl (n * real_of_int res)\<rfloor>" by simp
  then show "0 \<le> ts_index res n" using assms by (simp add: ts_index_def)
  show "ts_index res n \<le> res - 1" by (simp add: ts_index_def)
qed

lemma elem_in_grid:
  assumes "square_grid res grid" "0 \<le> iz" "iz < res" "0 \<le> ix" "ix < res"
  shows "elem grid iz ix = Inr (Number (grid ! nat iz ! nat ix))" "inside grid (iz, ix)"
proof -
  have len: "int (length grid) = res" using assms(1) by (simp add: square_grid_def)
  have "nat iz < length grid" using assms len by linarith
  then have "grid ! nat iz \<in> set grid" by simp
  then have row: "int (length (grid ! nat iz)) = res"
    using assms(1) by (simp add: square_grid_def list_all_iff)
  show "elem grid iz ix = Inr (Number (grid ! nat iz ! nat ix))"
    using assms len row by (simp add: elem_def js_get_def)
  show "inside grid (iz, ix)"
    using assms len row by (simp add: inside_def)
qed

lemma maxHeight_undefined: "get_prop TerrainSystem ''maxHeight'' = Undefined"
  by (simp add: get_prop_def TerrainSystem_def)

lemma corner_in_grid:
  assumes "square_grid res grid" "0 \<le> iz" "iz < res" "0 \<le> ix" "ix < res"
  shows "corner TS grid iz ix =
           (Inr (js_mul (Number (grid ! nat iz ! nat ix)) (get_prop TS ''maxHeight'')), [(iz, ix)])"
  by (simp add: corner_def read_cell_def and_then_def returns_def elem_in_grid(1)[OF assms])

text \<open>The outcome and the reads of \<open>TerrainSystem.getHeightAt\<close>.\<close>

lemma ts_traced:
  fixes x z :: real
  assumes "ts_heightData S = Some tgrid" "square_grid (ts_terrainResolution S) tgrid"
    "1 \<le> ts_terrainResolution S"
  defines "nx \<equiv> normalized (ts_terrainSize S) x" and "nz \<equiv> normalized (ts_terrainSize S) z"
  defines "xi \<equiv> ts_index (ts_terrainResolution S) nx" and "zi \<equiv> ts_index (ts_terrainResolution S) nz"
  shows "rejected nx nz \<Longrightarrow> TerrainSystem_getHeightAt_traced S x z = (Inr (Num 0), [])"
    and "\<not> rejected nx nz \<Longrightarrow> TerrainSystem_getHeightAt_traced S x z =
           (Inr (num_mul (tgrid ! nat zi ! nat xi) (Num (ts_maxHeight S))), [(zi, xi)])"
    and "\<not> rejected nx nz \<Longrightarrow> inside tgrid (zi, xi)"
proof -
  show "TerrainSystem_getHeightAt_traced S x z = (Inr (Num 0), [])" if "rejected nx nz"
    using that assms(1) by (simp add: TerrainSystem_getHeightAt_traced_def nx_def nz_def returns_def)
  assume a: "\<not> rejected nx nz"
  then have n: "0 \<le> nx" "0 \<le> nz" by (auto simp: rejected_def)
  note bx = ts_index_bounds[OF assms(3) n(1)]
  note bz = ts_index_bounds[OF assms(3) n(2)]
  have r: "0 \<le> zi" "zi < ts_terrainResolution S" "0 \<le> xi" "xi < ts_terrainResolution S"
    using bx bz by (simp_all add: xi_def zi_def)
  note e = elem_in_grid[OF assms(2) r]
  show "inside tgrid (zi, xi)" by (rule e(2))
  show "TerrainSystem_getHeightAt_traced S x z =
           (Inr (num_mul (tgrid ! nat zi ! nat xi) (Num (ts_maxHeight S))), [(zi, xi)])"
    using a assms(1) e(1)
    by (simp add: TerrainSystem_getHeightAt_traced_def Let_def and_then_def read_cell_def returns_def
          js_mul_def flip: nx_def nz_def xi_def zi_def)
qed

text \<open>The outcome and the reads of \<open>CollisionSystem.getHeightAt\<close>.\<close>

lemma cs_traced:
  fixes x z :: real and TS :: jsobject
  assumes "heightData st = Some grid" "square_grid (int (length grid)) grid" "2 \<le> length grid"
  defines "nx \<equiv> normalized (terrainSize st) x" and "nz \<equiv> normalized (terrainSize st) z"
  defines "ix \<equiv> cs_index (int (length grid)) nx" and "iz \<equiv> cs_index (int (length grid)) nz"
  defines "h \<equiv> \<lambda>r c. js_mul (Number (grid ! nat r ! nat c)) (get_prop TS ''maxHeight'')"
  shows "rejected nx nz \<Longrightarrow> CollisionSystem_getHeightAt_traced TS st x z = (Inr (Num 0), [])"
    and "\<not> rejected nx nz \<Longrightarrow> CollisionSystem_getHeightAt_traced TS st x z =
           (Inr (bilinear (h iz ix) (h iz (ix + 1)) (h (iz + 1) ix) (h (iz + 1) (ix + 1))
                   (cs_frac (int (length grid)) nx) (cs_frac (int (length grid)) nz)),
            [(iz, ix), (iz, ix + 1), (iz + 1, ix), (iz + 1, ix + 1)])"
    and "\<not> rejected nx nz \<Longrightarrow>
           0 \<le> ix \<and> ix \<le> int (length grid) - 2 \<and> 0 \<le> iz \<and> iz \<le> int (length grid) - 2"
    and "\<not> rejected nx nz \<Longrightarrow>
           list_all (inside grid) [(iz, ix), (iz, ix + 1), (iz + 1, ix), (iz + 1, ix + 1)]"
proof -
  show "CollisionSystem_getHeightAt_traced TS st x z = (Inr (Num 0), [])" if "rejected nx nz"
    using that assms(1) by (simp add: CollisionSystem_getHeightAt_traced_def nx_def nz_def returns_def)
  assume a: "\<not> rejected nx nz"
  then have n: "0 \<le> nx" "0 \<le> nz" by (auto simp: rejected_def)
  have res: "2 \<le> int (length grid)" using assms(3) by simp
  note bx = cs_index_bounds[OF res n(1)]
  note bz = cs_index_bounds[OF res n(2)]
  show b: "0 \<le> ix \<and> ix \<le> int (length grid) - 2 \<and> 0 \<le> iz \<and> iz \<le> int (length grid) - 2"
    using bx bz by (simp add: ix_def iz_def)
  have r: "0 \<le> iz" "iz < int (length grid)" "0 \<le> iz + 1" "iz + 1 < int (length grid)"
      "0 \<le> ix" "ix < int (length grid)" "0 \<le> ix + 1" "ix + 1 < int (length grid)"
    using b by simp_all
  note g = assms(2)
  have c: "corner TS grid iz ix = (Inr (h iz ix), [(iz, ix)])"
      "corner TS grid iz (ix + 1) = (Inr (h iz (ix + 1)), [(iz, ix + 1)])"
      "corner TS grid (iz + 1) ix = (Inr (h (iz + 1) ix), [(iz + 1, ix)])"
      "corner TS grid (iz + 1) (ix + 1) = (Inr (h (iz + 1) (ix + 1)), [(iz + 1, ix + 1)])"
    unfolding h_def
    by (rule corner_in_grid[OF g r(1,2,5,6)] corner_in_grid[OF g r(1,2,7,8)]
             corner_in_grid[OF g r(3,4,5,6)] corner_in_grid[OF g r(3,4,7,8)])+
  show "list_all (inside grid) [(iz, ix), (iz, ix + 1), (iz + 1, ix), (iz + 1, ix + 1)]"
    using elem_in_grid(2)[OF g r(1,2,5,6)] elem_in_grid(2)[OF g r(1,2,7,8)]
      elem_in_grid(2)[OF g r(3,4,5,6)] elem_in_grid(2)[OF g r(3,4,7,8)] by simp
  show "CollisionSystem_getHeightAt_traced TS st x z =
           (Inr (bilinear (h iz ix) (h iz (ix + 1)) (h (iz + 1) ix) (h (iz + 1) (ix + 1))
                   (cs_frac (int (length grid)) nx) (cs_frac (int (length grid)) nz)),
            [(iz, ix), (iz, ix + 1), (iz + 1, ix), (iz + 1, ix + 1)])"
    using a assms(1)
    by (simp add: CollisionSystem_getHeightAt_traced_def Let_def and_then_def returns_def c
          flip: nx_def nz_def ix_def iz_def)
qed






lemma world_check:
  fixes x z :: real
  assumes "double_size sz"
  shows "let nx = fl (fl (x + fl (sz / 2)) / sz); nz = fl (fl (z + fl (sz / 2)) / sz)
         in (in_world sz x z \<longrightarrow> \<not> (nx < 0 \<or> nx > 1 \<or> nz < 0 \<or> nz > 1)) \<and>
            (beyond_world sz x z \<longrightarrow> nx < 0 \<or> nx > 1 \<or> nz < 0 \<or> nz > 1)"
  using accepted_in_world[OF assms, of x z] rejected_beyond_world[OF assms, of x z]
  by (simp add: Let_def rejected_def normalized_def)

subsection \<open>A concrete terrain\<close>

text \<open>
  A 256 by 256 height grid whose cell \<open>[0][0]\<close> is 0 and whose other cells are 1, held
  by a TerrainSystem with the declared sizes and by a CollisionSystem initialised from it.
\<close>

definition example_grid :: "jsnum list list" where
  "example_grid = (Num 0 # replicate 255 (Num 1)) # replicate 255 (replicate 256 (Num 1))"

definition example_terrain :: terrain_vars where
  "example_terrain = terrain_vars0\<lparr>ts_heightData := Some example_grid\<rparr>"

definition example_cs :: cs_state where
  "example_cs = CollisionSystem_init 1000 (Some example_grid)"

lemma example_grid_square: "square_grid 256 example_grid"
  by (simp add: square_grid_def example_grid_def list_all_iff)

lemma example_grid_length: "length example_grid = 256"
  by (simp add: example_grid_def)

lemma example_facts:
  "ts_heightData example_terrain = Some example_grid"
  "ts_terrainResolution example_terrain = 256"
  "ts_terrainSize example_terrain = 1000"
  "ts_maxHeight example_terrain = 20"
  "heightData example_cs = Some example_grid"
  "terrainSize example_cs = 1000"
  by (simp_all add: example_terrain_def terrain_vars0_def example_cs_def CollisionSystem_init_def)

text \<open>Doubles that the concrete queries compute with.\<close>

lemma fl_examples:
  "fl 1000 = 1000" "fl 500 = 500" "fl 256 = 256" "fl 255 = 255" "fl 128 = 128"
  "fl (1/2) = 1/2" "fl (255/2) = 255/2"
  "fl (125/64) = 125/64" "fl (1/512) = 1/512" "fl (255/512) = 255/512"
  using fl_int[of 1000] fl_int[of 500] fl_int[of 256] fl_int[of 255] fl_int[of 128]
    fl_repr[of 1 "-1"] fl_repr[of 255 "-1"]
    fl_repr[of 125 "-6"] fl_repr[of 1 "-9"] fl_repr[of 255 "-9"]
  by (simp_all add: power_int_minus)

lemma double_size_1000: "double_size 1000"
  by (simp add: double_size_def fl_examples)

text \<open>
  The successor of the double 500 is \<open>500 + 2\<^sup>-\<^sup>4\<^sup>4\<close>. Adding 500 to it gives a number
  halfway between the doubles 1000 and \<open>1000 + 2\<^sup>-\<^sup>4\<^sup>3\<close>, which rounds to the even one,
  1000: the point is normalized to 1.
\<close>

lemma fl_tie: "fl (1000 + 1 / 2 ^ 44) = 1000"
proof -
  have "fl (1000 + 1 / 2 ^ 44) =
          real_of_int (round_even ((1000 + 1 / 2 ^ 44) / 2 powi (9 - 52))) * 2 powi (9 - 52)"
    by (rule fl_eval) simp_all
  also have "(1000 + 1 / 2 ^ 44) / 2 powi (9 - 52) = (17592186044416001 / 2 :: real)"
    by (simp add: power_int_minus field_simps)
  also have "round_even (17592186044416001 / 2) = 8796093022208000"
    by (simp add: round_even_def Let_def)
  finally show ?thesis
    by (simp add: power_int_minus)
qed

lemma fl_tie_numeral: "fl (17592186044416001 / 17592186044416) = 1000"
  using fl_tie by simp

lemma normalized_examples:
  "normalized 1000 0 = 1/2" "normalized 1000 500 = 1" "normalized 1000 (-500) = 0"
  "normalized 1000 (- 31875 / 64) = 1/512"
  "normalized 1000 (500 + 1 / 2 ^ 44) = 1"
  "1 < normalized 1000 600"
proof -
  show "normalized 1000 0 = 1/2" "normalized 1000 500 = 1" "normalized 1000 (-500) = 0"
    "normalized 1000 (- 31875 / 64) = 1/512" "normalized 1000 (500 + 1 / 2 ^ 44) = 1"
    by (simp_all add: normalized_def fl_examples fl_tie_numeral)
  show "1 < normalized 1000 600"
    by (rule normalized_far[OF double_size_1000]) simp
qed




lemma ts_safe:
  fixes x z :: real
  assumes "ts_heightData S = Some tgrid" "square_grid (ts_terrainResolution S) tgrid"
    "1 \<le> ts_terrainResolution S"
  shows "let size = ts_terrainSize S;
             nx = fl (fl (x + fl (size / 2)) / size);
             nz = fl (fl (z + fl (size / 2)) / size)
         in \<exists>h reads. TerrainSystem_getHeightAt_traced S x z = (Inr h, reads) \<and>
              list_all (inside tgrid) reads \<and>
              (if nx < 0 \<or> nx > 1 \<or> nz < 0 \<or> nz > 1 then h = Num 0 \<and> reads = []
               else length reads = 1)"
proof (cases "rejected (normalized (ts_terrainSize S) x) (normalized (ts_terrainSize S) z)")
  case True
  show ?thesis
    using True ts_traced(1)[OF assms True]
    by (simp add: Let_def rejected_def normalized_def)
next
  case False
  show ?thesis
    using False ts_traced(2)[OF assms False] ts_traced(3)[OF assms False]
    by (simp add: Let_def rejected_def normalized_def)
qed

lemma cs_safe:
  fixes x z :: real and TS :: jsobject
  assumes "heightData st = Some grid" "square_grid (int (length grid)) grid" "2 \<le> length grid"
  shows "let size = terrainSize st; res = int (length grid);
             nx = fl (fl (x + fl (size / 2)) / size);
             nz = fl (fl (z + fl (size / 2)) / size);
             ix = min \<lfloor>fl (nx * real_of_int (res - 1))\<rfloor> (res - 2);
             iz = min \<lfloor>fl (nz * real_of_int (res - 1))\<rfloor> (res - 2)
         in \<exists>h reads. CollisionSystem_getHeightAt_traced TS st x z = (Inr h, reads) \<and>
              list_all (inside grid) reads \<and>
              (if nx < 0 \<or> nx > 1 \<or> nz < 0 \<or> nz > 1 then h = Num 0 \<and> reads = []
               else reads = [(iz, ix), (iz, ix + 1), (iz + 1, ix), (iz + 1, ix + 1)] \<and>
                    0 \<le> ix \<and> ix \<le> res - 2 \<and> 0 \<le> iz \<and> iz \<le> res - 2)"
proof (cases "rejected (normalized (terrainSize st) x) (normalized (terrainSize st) z)")
  case True
  show ?thesis
    using True cs_traced(1)[OF assms True]
    by (simp add: Let_def rejected_def normalized_def)
next
  case False
  show ?thesis
    using False cs_traced(2)[OF assms False, of TS] cs_traced(3)[OF assms False]
      cs_traced(4)[OF assms False]
    by (simp add: Let_def rejected_def normalized_def cs_index_def)
qed

lemma cs_far_corner:
  fixes TS :: jsobject
  assumes "heightData st = Some grid" "square_grid (int (length grid)) grid" "2 \<le> length grid"
    "double_size (terrainSize st)" "length grid < 2 ^ 32"
  shows "snd (CollisionSystem_getHeightAt_traced TS st (terrainSize st / 2) (terrainSize st / 2)) =
          [(int (length grid) - 2, int (length grid) - 2), (int (length grid) - 2, int (length grid) - 1),
           (int (length grid) - 1, int (length grid) - 2), (int (length grid) - 1, int (length grid) - 1)]"
proof -
  have s: "0 < terrainSize st" "fl (terrainSize st) = terrainSize st"
      "fl (terrainSize st / 2) = terrainSize st / 2"
    using assms(4) by (simp_all add: double_size_def)
  have a: "fl (terrainSize st / 2 + fl (terrainSize st / 2)) = terrainSize st"
    unfolding s(3) using s(2) by simp
  have b: "fl (terrainSize st / terrainSize st) = 1"
    using s(1) by simp
  have n: "normalized (terrainSize st) (terrainSize st / 2) = 1"
    by (simp only: normalized_def Let_def a b)
  have "\<bar>int (length grid) - 1\<bar> < 2 ^ 53"
    using assms(3,5) by simp
  then have "fl (real_of_int (int (length grid) - 1)) = real_of_int (int (length grid) - 1)"
    by (rule fl_int)
  then have i: "cs_index (int (length grid)) 1 = int (length grid) - 2"
    by (simp add: cs_index_def)
  have r: "\<not> rejected (normalized (terrainSize st) (terrainSize st / 2))
                       (normalized (terrainSize st) (terrainSize st / 2))"
    by (simp add: n rejected_def)
  show ?thesis
    using cs_traced(2)[OF assms(1-3) r, of TS] by (simp add: n i)
qed

text \<open>
  Claim C4, as amended. For every pair of finite coordinates, inside the world or
  outside it, the height queries do not throw and read the height array inside the
  grid only:
  \<open>TerrainSystem.getHeightAt\<close> reads one cell, \<open>CollisionSystem.getHeightAt\<close> the four
  corners of a cell whose corner index is between 0 and \<open>resolution - 2\<close> on both axes,
  also exactly at the far corner of the world, where it reads the last two rows and
  columns. A pair with a normalized coordinate below 0 or above 1 gets the default 0
  and no read. The check is made on the normalized coordinates as the machine computes
  them: it accepts every point of the world, and it rejects every point beyond a near
  edge and every point beyond a far edge by more than \<open>terrainSize / 2\<^sup>5\<^sup>1\<close>.
\<close>

theorem height_query_bounds_amended:
  fixes x z :: real and TS :: jsobject
  assumes "ts_heightData S = Some tgrid" and "square_grid (ts_terrainResolution S) tgrid"
    and "1 \<le> ts_terrainResolution S" and "double_size (ts_terrainSize S)"
    and "heightData st = Some grid" and "square_grid (int (length grid)) grid"
    and "2 \<le> length grid" and "length grid < 2 ^ 32" and "double_size (terrainSize st)"
  shows "(let size = ts_terrainSize S;
              nx = fl (fl (x + fl (size / 2)) / size);
              nz = fl (fl (z + fl (size / 2)) / size)
          in \<exists>h reads. TerrainSystem_getHeightAt_traced S x z = (Inr h, reads) \<and>
               list_all (inside tgrid) reads \<and>
               (if nx < 0 \<or> nx > 1 \<or> nz < 0 \<or> nz > 1 then h = Num 0 \<and> reads = []
                else length reads = 1)) \<and>
         (let size = terrainSize st; res = int (length grid);
              nx = fl (fl (x + fl (size / 2)) / size);
              nz = fl (fl (z + fl (size / 2)) / size);
              ix = min \<lfloor>fl (nx * real_of_int (res - 1))\<rfloor> (res - 2);
              iz = min \<lfloor>fl (nz * real_of_int (res - 1))\<rfloor> (res - 2)
          in \<exists>h reads. CollisionSystem_getHeightAt_traced TS st x z = (Inr h, reads) \<and>
               list_all (inside grid) reads \<and>
               (if nx < 0 \<or> nx > 1 \<or> nz < 0 \<or> nz > 1 then h = Num 0 \<and> reads = []
                else reads = [(iz, ix), (iz, ix + 1), (iz + 1, ix), (iz + 1, ix + 1)] \<and>
                     0 \<le> ix \<and> ix \<le> res - 2 \<and> 0 \<le> iz \<and> iz \<le> res - 2)) \<and>
         snd (CollisionSystem_getHeightAt_traced TS st (terrainSize st / 2) (terrainSize st / 2)) =
           [(int (length grid) - 2, int (length grid) - 2), (int (length grid) - 2, int (length grid) - 1),
            (int (length grid) - 1, int (length grid) - 2), (int (length grid) - 1, int (length grid) - 1)] \<and>
         (let size = ts_terrainSize S;
              nx = fl (fl (x + fl (size / 2)) / size);
              nz = fl (fl (z + fl (size / 2)) / size)
          in (in_world size x z \<longrightarrow> \<not> (nx < 0 \<or> nx > 1 \<or> nz < 0 \<or> nz > 1)) \<and>
             (beyond_world size x z \<longrightarrow> nx < 0 \<or> nx > 1 \<or> nz < 0 \<or> nz > 1)) \<and>
         (let size = terrainSize st;
              nx = fl (fl (x + fl (size / 2)) / size);
              nz = fl (fl (z + fl (size / 2)) / size)
          in (in_world size x z \<longrightarrow> \<not> (nx < 0 \<or> nx > 1 \<or> nz < 0 \<or> nz > 1)) \<and>
             (beyond_world size x z \<longrightarrow> nx < 0 \<or> nx > 1 \<or> nz < 0 \<or> nz > 1))"
proof (intro conjI)
  show "let size = ts_terrainSize S;
             nx = fl (fl (x + fl (size / 2)) / size);
             nz = fl (fl (z + fl (size / 2)) / size)
         in (in_world size x z \<longrightarrow> \<not> (nx < 0 \<or> nx > 1 \<or> nz < 0 \<or> nz > 1)) \<and>
            (beyond_world size x z \<longrightarrow> nx < 0 \<or> nx > 1 \<or> nz < 0 \<or> nz > 1)"
    using world_check[OF assms(4), of x z] by (simp add: Let_def)
  show "let size = terrainSize st;
             nx = fl (fl (x + fl (size / 2)) / size);
             nz = fl (fl (z + fl (size / 2)) / size)
         in (in_world size x z \<longrightarrow> \<not> (nx < 0 \<or> nx > 1 \<or> nz < 0 \<or> nz > 1)) \<and>
            (beyond_world size x z \<longrightarrow> nx < 0 \<or> nx > 1 \<or> nz < 0 \<or> nz > 1)"
    using world_check[OF assms(9), of x z] by (simp add: Let_def)
qed (rule ts_safe[OF assms(1-3)] cs_safe[OF assms(5-7)] cs_far_corner[OF assms(5-7) assms(9) assms(8)])+

lemma example_cells:
  "example_grid ! 128 ! 255 = Num 1" "example_grid ! 255 ! 255 = Num 1"
  by (simp_all add: example_grid_def)

lemma ts_index_examples: "ts_index 256 1 = 255" "ts_index 256 (1/2) = 128"
  by (simp_all add: ts_index_def fl_examples)

lemma cs_index_examples: "cs_index 256 1 = 254" "cs_index 256 (1/2) = 127"
  by (simp_all add: cs_index_def fl_examples)

text \<open>
  The amended claim C4 at the concrete terrain: the far corner \<open>(500, 500)\<close> of the
  world, where the CollisionSystem reads rows and columns 254 and 255, and the point
  \<open>(600, 0)\<close> beyond the world, where nothing is read.
\<close>

theorem height_query_bounds_amended_witness:
  "double_size 1000 \<and> square_grid 256 example_grid \<and> length example_grid < 2 ^ 32 \<and>
   in_world 1000 500 500 \<and>
   (\<exists>h reads. TerrainSystem_getHeightAt_traced example_terrain 500 500 = (Inr h, reads) \<and>
      list_all (inside example_grid) reads \<and> length reads = 1) \<and>
   (\<exists>h. CollisionSystem_getHeightAt_traced TerrainSystem example_cs 500 500
           = (Inr h, [(254, 254), (254, 255), (255, 254), (255, 255)])) \<and>
   list_all (inside example_grid) [(254, 254), (254, 255), (255, 254), (255, 255)] \<and>
   beyond_world 1000 600 0 \<and>
   TerrainSystem_getHeightAt_traced example_terrain 600 0 = (Inr (Num 0), []) \<and>
   CollisionSystem_getHeightAt_traced TerrainSystem example_cs 600 0 = (Inr (Num 0), [])"
proof -
  have w: "in_world 1000 500 500" "beyond_world 1000 600 0"
    by (simp_all add: in_world_def beyond_world_def)
  have f: "ts_heightData example_terrain = Some example_grid"
    "square_grid (ts_terrainResolution example_terrain) example_grid"
    "1 \<le> ts_terrainResolution example_terrain" "double_size (ts_terrainSize example_terrain)"
    "heightData example_cs = Some example_grid" "square_grid (int (length example_grid)) example_grid"
    "2 \<le> length example_grid" "length example_grid < 2 ^ 32" "double_size (terrainSize example_cs)"
    by (simp_all add: example_facts example_grid_square example_grid_length double_size_1000)
  note T1 = height_query_bounds_amended[OF f, of 500 500 TerrainSystem]
  note T2 = height_query_bounds_amended[OF f, of 600 0 TerrainSystem]
  have a: "\<exists>h reads. TerrainSystem_getHeightAt_traced example_terrain 500 500 = (Inr h, reads) \<and>
      list_all (inside example_grid) reads \<and> length reads = 1"
    using T1 by (simp add: example_facts Let_def fl_examples)
  have b: "\<exists>h reads. CollisionSystem_getHeightAt_traced TerrainSystem example_cs 500 500 = (Inr h, reads) \<and>
      list_all (inside example_grid) reads \<and>
      reads = [(254, 254), (254, 255), (255, 254), (255, 255)]"
    using T1 by (simp add: example_facts example_grid_length Let_def fl_examples)
  have o: "let nx = fl (fl (600 + fl (1000 / 2)) / 1000); nz = fl (fl (0 + fl (1000 / 2)) / 1000)
           in nx < 0 \<or> nx > 1 \<or> nz < 0 \<or> nz > 1"
    using T2 w(2) by (simp only: example_facts Let_def)
  have c: "\<exists>h reads. TerrainSystem_getHeightAt_traced example_terrain 600 0 = (Inr h, reads) \<and>
      h = Num 0 \<and> reads = []"
    using T2 o by (simp only: example_facts Let_def if_True) blast
  have d: "\<exists>h reads. CollisionSystem_getHeightAt_traced TerrainSystem example_cs 600 0 = (Inr h, reads) \<and>
      h = Num 0 \<and> reads = []"
    using T2 o by (simp only: example_facts Let_def if_True) blast
  show ?thesis
    using w a b c d f(8) double_size_1000 example_grid_square by auto
qed

text \<open>
  Claim C4 as stated fails just beyond a far edge. The point \<open>(500 + 2\<^sup>-\<^sup>4\<^sup>4, 0)\<close> lies
  outside the world; its normalized \<open>x\<close> is rounded to 1, the check accepts it and
  \<open>TerrainSystem.getHeightAt\<close> returns the sample \<open>[128][255]\<close> times 20 and not the
  default 0, after one read inside the grid.
\<close>

theorem height_query_bounds_counterexample:
  "\<not> in_world 1000 (500 + 1 / 2 ^ 44) 0 \<and>
   TerrainSystem_getHeightAt_traced example_terrain (500 + 1 / 2 ^ 44) 0 = (Inr (Num 20), [(128, 255)]) \<and>
   TerrainSystem_getHeightAt example_terrain (500 + 1 / 2 ^ 44) 0 \<noteq> Inr (Num 0) \<and>
   CollisionSystem_getHeightAt_traced TerrainSystem example_cs (500 + 1 / 2 ^ 44) 0
     = (Inr NaN, [(127, 254), (127, 255), (128, 254), (128, 255)])"
proof -
  have r: "\<not> rejected (normalized 1000 (500 + 1 / 2 ^ 44)) (normalized 1000 0)"
    by (simp only: normalized_examples) (simp add: rejected_def)
  have t: "TerrainSystem_getHeightAt_traced example_terrain (500 + 1 / 2 ^ 44) 0 = (Inr (Num 20), [(128, 255)])"
    using ts_traced(2)[of example_terrain example_grid "500 + 1 / 2 ^ 44" 0] r
    by (simp only: example_facts normalized_examples ts_index_examples example_grid_square)
       (simp add: example_cells)
  have c: "CollisionSystem_getHeightAt_traced TerrainSystem example_cs (500 + 1 / 2 ^ 44) 0
     = (Inr NaN, [(127, 254), (127, 255), (128, 254), (128, 255)])"
    using cs_traced(2)[of example_cs example_grid "500 + 1 / 2 ^ 44" 0 TerrainSystem] r
    by (simp only: example_facts example_grid_length normalized_examples)
       (simp add: example_grid_square cs_index_examples maxHeight_undefined js_mul_def bilinear_def lerp_def)
  have "\<not> in_world 1000 (500 + 1 / 2 ^ 44) 0"
    by (simp add: in_world_def)
  then show ?thesis
    using t c by (simp add: TerrainSystem_getHeightAt_def)
qed

lemma corner_NaN:
  assumes "0 \<le> iz" "iz < int (length grid)"
  shows "corner TerrainSystem grid iz ix = (Inr NaN, [(iz, ix)])"
proof -
  obtain v where "elem grid iz ix = Inr v"
    using assms by (simp add: elem_def js_get_def)
  then show ?thesis
    by (cases "ToNumber v")
       (simp_all add: corner_def read_cell_def and_then_def returns_def maxHeight_undefined js_mul_def)
qed

lemma bilinear_NaN: "bilinear NaN NaN NaN NaN fx fz = NaN"
  by (simp add: bilinear_def lerp_def)

lemma cs_NaN:
  fixes x z :: real
  assumes "heightData st = Some grid" and "2 \<le> length grid"
  shows "CollisionSystem_getHeightAt TerrainSystem st x z =
           (if rejected (normalized (terrainSize st) x) (normalized (terrainSize st) z)
            then Inr (Num 0) else Inr NaN)"
proof (cases "rejected (normalized (terrainSize st) x) (normalized (terrainSize st) z)")
  case True
  then show ?thesis
    using assms(1)
    by (simp add: CollisionSystem_getHeightAt_def CollisionSystem_getHeightAt_traced_def returns_def)
next
  case False
  let ?res = "int (length grid)"
  let ?nz = "normalized (terrainSize st) z"
  have n: "0 \<le> ?nz" using False by (auto simp: rejected_def)
  have res: "2 \<le> ?res" using assms(2) by simp
  note bz = cs_index_bounds[OF res n]
  have c1: "\<And>ix. corner TerrainSystem grid (cs_index ?res ?nz) ix = (Inr NaN, [(cs_index ?res ?nz, ix)])"
    using bz by (intro corner_NaN) auto
  have c2: "\<And>ix. corner TerrainSystem grid (cs_index ?res ?nz + 1) ix
              = (Inr NaN, [(cs_index ?res ?nz + 1, ix)])"
    using bz by (intro corner_NaN) auto
  show ?thesis
    using assms(1) False
    by (simp add: CollisionSystem_getHeightAt_def CollisionSystem_getHeightAt_traced_def Let_def
          c1 c2 and_then_def returns_def bilinear_NaN)
qed

lemma cs_height_NaN:
  assumes "heightData st = Some grid" and "2 \<le> length grid" and "double_size (terrainSize st)"
    and "in_world (terrainSize st) x z"
  shows "CollisionSystem_getHeightAt TerrainSystem st x z = Inr NaN"
  using cs_NaN[OF assms(1,2), of x z] accepted_in_world[OF assms(3,4)] by simp

text \<open>
  Claim C2, as amended. The object \<open>TerrainSystem\<close> has the properties \<open>init\<close> and
  \<open>getHeightAt\<close> only, so \<open>TerrainSystem.maxHeight\<close> is \<open>undefined\<close>; with it, a call of
  \<open>CollisionSystem.getHeightAt\<close> on a grid of at least two rows returns \<open>NaN\<close> whenever
  the bounds check accepts the normalized coordinates, and 0 when it rejects them.
  Every in-bounds call returns \<open>NaN\<close>. Every call beyond a near edge, or beyond a far
  edge by more than \<open>terrainSize / 2\<^sup>5\<^sup>1\<close>, returns 0.
\<close>

theorem getHeightAt_NaN_amended:
  fixes x z :: real
  assumes "heightData st = Some grid" and "2 \<le> length grid" and "double_size (terrainSize st)"
  shows "dom TerrainSystem = {''init'', ''getHeightAt''} \<and>
         get_prop TerrainSystem ''maxHeight'' = Undefined \<and>
         CollisionSystem_getHeightAt TerrainSystem st x z =
           (let size = terrainSize st;
                nx = fl (fl (x + fl (size / 2)) / size);
                nz = fl (fl (z + fl (size / 2)) / size)
            in if nx < 0 \<or> nx > 1 \<or> nz < 0 \<or> nz > 1 then Inr (Num 0) else Inr NaN) \<and>
         (in_world (terrainSize st) x z \<longrightarrow>
            CollisionSystem_getHeightAt TerrainSystem st x z = Inr NaN) \<and>
         (beyond_world (terrainSize st) x z \<longrightarrow>
            CollisionSystem_getHeightAt TerrainSystem st x z = Inr (Num 0))"
proof (intro conjI impI)
  show "dom TerrainSystem = {''init'', ''getHeightAt''}"
    by (auto simp: TerrainSystem_def)
  show "get_prop TerrainSystem ''maxHeight'' = Undefined"
    by (rule maxHeight_undefined)
  show "CollisionSystem_getHeightAt TerrainSystem st x z =
           (let size = terrainSize st;
                nx = fl (fl (x + fl (size / 2)) / size);
                nz = fl (fl (z + fl (size / 2)) / size)
            in if nx < 0 \<or> nx > 1 \<or> nz < 0 \<or> nz > 1 then Inr (Num 0) else Inr NaN)"
    using cs_NaN[OF assms(1,2), of x z] by (simp add: Let_def rejected_def normalized_def)
  show "CollisionSystem_getHeightAt TerrainSystem st x z = Inr NaN"
    if "in_world (terrainSize st) x z"
    using assms that by (rule cs_height_NaN)
  show "CollisionSystem_getHeightAt TerrainSystem st x z = Inr (Num 0)"
    if "beyond_world (terrainSize st) x z"
    using cs_NaN[OF assms(1,2), of x z] rejected_beyond_world[OF assms(3) that] by simp
qed

text \<open>The amended claim C2 at the concrete terrain: the centre of the world and a point beyond it.\<close>

theorem getHeightAt_NaN_amended_witness:
  "double_size 1000 \<and> in_world 1000 0 0 \<and> beyond_world 1000 600 0 \<and>
   CollisionSystem_getHeightAt TerrainSystem example_cs 0 0 = Inr NaN \<and>
   CollisionSystem_getHeightAt TerrainSystem example_cs 600 0 = Inr (Num 0)"
proof -
  have w: "in_world 1000 0 0" "beyond_world 1000 600 0"
    by (simp_all add: in_world_def beyond_world_def)
  have f: "heightData example_cs = Some example_grid" "2 \<le> length example_grid"
    "double_size (terrainSize example_cs)"
    by (simp_all add: example_facts example_grid_length double_size_1000)
  have a: "CollisionSystem_getHeightAt TerrainSystem example_cs 0 0 = Inr NaN"
    using getHeightAt_NaN_amended[OF f, of 0 0] w(1) unfolding example_facts by blast
  have b: "CollisionSystem_getHeightAt TerrainSystem example_cs 600 0 = Inr (Num 0)"
    using getHeightAt_NaN_amended[OF f, of 600 0] w(2) unfolding example_facts by blast
  show ?thesis
    using a b w double_size_1000 by blast
qed

text \<open>
  Claim C2 as stated fails just beyond a far edge: the point \<open>(500 + 2\<^sup>-\<^sup>4\<^sup>4, 0)\<close> lies
  outside the world, its normalized \<open>x\<close> is rounded to 1, the check accepts it and the
  call returns \<open>NaN\<close>, not 0.
\<close>

theorem getHeightAt_NaN_counterexample:
  "\<not> in_world 1000 (500 + 1 / 2 ^ 44) 0 \<and>
   CollisionSystem_getHeightAt TerrainSystem example_cs (500 + 1 / 2 ^ 44) 0 = Inr NaN \<and>
   CollisionSystem_getHeightAt TerrainSystem example_cs (500 + 1 / 2 ^ 44) 0 \<noteq> Inr (Num 0)"
proof -
  have r: "\<not> rejected (normalized 1000 (500 + 1 / 2 ^ 44)) (normalized 1000 0)"
    by (simp only: normalized_examples) (simp add: rejected_def)
  have "CollisionSystem_getHeightAt TerrainSystem example_cs (500 + 1 / 2 ^ 44) 0 = Inr NaN"
    using cs_NaN[of example_cs example_grid "500 + 1 / 2 ^ 44" 0] r
    by (simp only: example_facts example_grid_length) simp
  moreover have "\<not> in_world 1000 (500 + 1 / 2 ^ 44) 0"
    by (simp add: in_world_def)
  ultimately show ?thesis by simp
qed

section \<open>Properties of the spatial grid and the collision query\<close>

text \<open>The contents of the bucket of a key; a key without a bucket has none.\<close>

definition bucket :: "cs_state \<Rightarrow> string \<Rightarrow> collisionData list" where
  "bucket st k = (case collisionGrid st k of None \<Rightarrow> [] | Some a \<Rightarrow> arrays st a)"

text \<open>Every bucket of the grid lives at an allocated address.\<close>

definition allocated :: "cs_state \<Rightarrow> bool" where
  "allocated st = (\<forall>k a. collisionGrid st k = Some a \<longrightarrow> a < next_addr st)"

lemma fold_nested:
  "fold (\<lambda>x. fold (\<lambda>z. f (g x z)) zs) xs s = fold f (concat (map (\<lambda>x. map (g x) zs) xs)) s"
  by (induction xs arbitrary: s) (simp_all add: fold_map comp_def)

lemma grid_push_fields [simp]:
  "terrainSize (grid_push cd k st) = terrainSize st"
  "heightData (grid_push cd k st) = heightData st"
  "collisionObjects (grid_push cd k st) = collisionObjects st"
  by (simp_all add: grid_push_def split: option.splits)

lemma grid_push_allocated: "allocated st \<Longrightarrow> allocated (grid_push cd k st)"
  by (auto simp: allocated_def grid_push_def less_Suc_eq split: option.splits if_splits)

lemma grid_push_bucket_same:
  "set (bucket (grid_push cd k st) k) = insert cd (set (bucket st k))"
  by (auto simp: bucket_def grid_push_def split: option.splits)

lemma grid_push_bucket_sub:
  "set (bucket (grid_push cd k st) k') \<subseteq> insert cd (set (bucket st k'))"
  by (auto simp: bucket_def grid_push_def split: option.splits if_splits)

lemma grid_push_bucket_mono:
  assumes "allocated st"
  shows "set (bucket st k') \<subseteq> set (bucket (grid_push cd k st) k')"
proof (cases "collisionGrid st k'")
  case None
  then show ?thesis by (simp add: bucket_def)
next
  case (Some a)
  then have "a < next_addr st" using assms by (simp add: allocated_def)
  then show ?thesis
    using Some by (cases "collisionGrid st k") (auto simp: bucket_def grid_push_def)
qed

lemma fold_grid_push_fields [simp]:
  "terrainSize (fold (grid_push cd) ks st) = terrainSize st"
  "heightData (fold (grid_push cd) ks st) = heightData st"
  "collisionObjects (fold (grid_push cd) ks st) = collisionObjects st"
  by (induction ks arbitrary: st) simp_all

lemma fold_grid_push_allocated:
  "allocated st \<Longrightarrow> allocated (fold (grid_push cd) ks st)"
  by (induction ks arbitrary: st) (simp_all add: grid_push_allocated)

lemma fold_grid_push_mono:
  "allocated st \<Longrightarrow> set (bucket st k') \<subseteq> set (bucket (fold (grid_push cd) ks st) k')"
proof (induction ks arbitrary: st)
  case Nil
  then show ?case by simp
next
  case (Cons k ks)
  have "set (bucket st k') \<subseteq> set (bucket (grid_push cd k st) k')"
    using Cons.prems by (rule grid_push_bucket_mono)
  also have "\<dots> \<subseteq> set (bucket (fold (grid_push cd) ks (grid_push cd k st)) k')"
    using Cons.prems by (intro Cons.IH grid_push_allocated)
  finally show ?case by simp
qed

lemma fold_grid_push_member:
  assumes "allocated st" "k \<in> set ks"
  shows "cd \<in> set (bucket (fold (grid_push cd) ks st) k)"
  using assms
proof (induction ks arbitrary: st)
  case Nil
  then show ?case by simp
next
  case (Cons k' ks)
  show ?case
  proof (cases "k = k'")
    case True
    have "cd \<in> set (bucket (grid_push cd k st) k)"
      by (simp add: grid_push_bucket_same)
    then show ?thesis
      using fold_grid_push_mono[OF grid_push_allocated[OF Cons.prems(1)], where k' = k and ks = ks] True
      by auto
  next
    case False
    then have "k \<in> set ks" using Cons.prems(2) by simp
    then show ?thesis
      using Cons.IH[OF grid_push_allocated[OF Cons.prems(1)]] by simp
  qed
qed

lemma fold_grid_push_sub:
  "set (bucket (fold (grid_push cd) ks st) k') \<subseteq> insert cd (set (bucket st k'))"
proof (induction ks arbitrary: st)
  case Nil
  then show ?case by auto
next
  case (Cons k ks)
  show ?case
    using Cons.IH[of "grid_push cd k st"] grid_push_bucket_sub[of cd k st k'] by auto
qed

text \<open>The keys of the cells \<open>addToGrid\<close> visits for an obstacle, in loop order.\<close>

definition cells_of :: "real \<Rightarrow> collisionData \<Rightarrow> string list" where
  "cells_of sz cd =
     concat (map (\<lambda>x. map (key x)
                       [cell sz (vec_z (cd_position cd) - cd_radius cd)..
                        cell sz (vec_z (cd_position cd) + cd_radius cd)])
                 [cell sz (vec_x (cd_position cd) - cd_radius cd)..
                  cell sz (vec_x (cd_position cd) + cd_radius cd)])"

lemma addToGrid_fold: "addToGrid cd st = fold (grid_push cd) (cells_of (terrainSize st) cd) st"
  by (simp add: addToGrid_def Let_def fold_nested cells_of_def)


definition block :: "int \<Rightarrow> int \<Rightarrow> string list" where
  "block cellX cellZ = concat (map (\<lambda>x. map (key x) [cellZ - 1..cellZ + 1]) [cellX - 1..cellX + 1])"

lemma gather_eq:
  assumes "\<forall>k a. collisionGrid s k = Some a \<longrightarrow> a \<noteq> r"
  shows "gather r k s = s\<lparr>arrays := (arrays s)(r := arrays s r @ bucket s k)\<rparr>"
  by (cases "collisionGrid s k") (simp_all add: gather_def bucket_def)

lemma fold_gather:
  assumes "\<forall>k a. collisionGrid s k = Some a \<longrightarrow> a \<noteq> r"
  shows "fold (gather r) ks s = s\<lparr>arrays := (arrays s)(r := arrays s r @ concat (map (bucket s) ks))\<rparr>"
  using assms
proof (induction ks arbitrary: s)
  case Nil
  then show ?case by simp
next
  case (Cons k ks)
  let ?s' = "s\<lparr>arrays := (arrays s)(r := arrays s r @ bucket s k)\<rparr>"
  have g: "gather r k s = ?s'" using Cons.prems by (rule gather_eq)
  have p: "\<forall>k a. collisionGrid ?s' k = Some a \<longrightarrow> a \<noteq> r" using Cons.prems by simp
  have b: "bucket ?s' = bucket s"
  proof
    fix k' show "bucket ?s' k' = bucket s k'"
      using Cons.prems by (cases "collisionGrid s k'") (auto simp: bucket_def)
  qed
  have "fold (gather r) (k # ks) s = fold (gather r) ks ?s'"
    by (simp add: g)
  also have "\<dots> = ?s'\<lparr>arrays := (arrays ?s')(r := arrays ?s' r @ concat (map (bucket ?s') ks))\<rparr>"
    by (rule Cons.IH[OF p])
  also have "\<dots> = s\<lparr>arrays := (arrays s)(r := arrays s r @ concat (map (bucket s) (k # ks)))\<rparr>"
    unfolding b by (simp add: fun_upd_same del: fun_upd_apply)
  finally show ?case .
qed

lemma getNearbyObjects_eq:
  assumes "allocated st"
  shows "getNearbyObjects cellX cellZ st =
           (concat (map (bucket st) (block cellX cellZ)),
            st\<lparr>arrays := (arrays st)(next_addr st := concat (map (bucket st) (block cellX cellZ))),
               next_addr := Suc (next_addr st)\<rparr>)"
proof -
  let ?r = "next_addr st"
  let ?st0 = "st\<lparr>arrays := (arrays st)(?r := []), next_addr := Suc ?r\<rparr>"
  have p: "\<forall>k a. collisionGrid ?st0 k = Some a \<longrightarrow> a \<noteq> ?r"
    using assms by (auto simp: allocated_def)
  have b: "bucket ?st0 = bucket st"
  proof
    fix k show "bucket ?st0 k = bucket st k"
      using assms by (cases "collisionGrid st k") (auto simp: bucket_def allocated_def)
  qed
  show ?thesis
    by (simp add: getNearbyObjects_def Let_def fold_nested block_def[symmetric] fold_gather[OF p] b)
qed

lemma scan_hitD:
  assumes "scan position radius terrainY objs = Hit ob n p t"
  shows "\<exists>c \<in> set objs.
           ob = cd_object c \<and>
           planar_distance position (cd_position c) < radius + cd_radius c \<and>
           p = radius + cd_radius c - planar_distance position (cd_position c) \<and>
           n = Vector3_normalize (Vector3 (vec_x position - vec_x (cd_position c)) 0
                                          (vec_z position - vec_z (cd_position c))) \<and>
           t = terrainY"
  using assms
  by (induction objs) (auto simp: Let_def planar_distance_def split: if_splits)










text \<open>The states the module reaches after \<open>init\<close> by insertions and queries.\<close>

inductive reachable :: "cs_state \<Rightarrow> bool" where
  init: "reachable (CollisionSystem_init sz hdata)"
| add: "reachable st \<Longrightarrow> reachable (snd (addCollisionObject object boundingRadius st))"
| query: "reachable st \<Longrightarrow> reachable (snd (checkCollision TS position radius st))"

text \<open>Every obstacle is in the bucket of every cell \<open>addToGrid\<close> visits for it.\<close>

definition registered :: "cs_state \<Rightarrow> bool" where
  "registered st =
     (\<forall>cd \<in> set (collisionObjects st). \<forall>k \<in> set (cells_of (terrainSize st) cd). cd \<in> set (bucket st k))"

text \<open>Every bucket holds obstacles of \<open>collisionObjects\<close> only.\<close>

definition buckets_sound :: "cs_state \<Rightarrow> bool" where
  "buckets_sound st = (\<forall>k. set (bucket st k) \<subseteq> set (collisionObjects st))"

definition nearby :: "cs_state \<Rightarrow> Vector3 \<Rightarrow> collisionData list" where
  "nearby st position =
     concat (map (bucket st)
       (block (cell (terrainSize st) (vec_x position)) (cell (terrainSize st) (vec_z position))))"

lemma checkCollision_eq:
  assumes "allocated st"
  shows "checkCollision TS position radius st =
          (case CollisionSystem_getHeightAt TS st (vec_x position) (vec_z position) of
             Inl e \<Rightarrow> (Inl e, st)
           | Inr terrainY \<Rightarrow>
               (Inr (scan position radius terrainY (nearby st position)),
                st\<lparr>arrays := (arrays st)(next_addr st := nearby st position),
                   next_addr := Suc (next_addr st)\<rparr>))"
  by (simp add: checkCollision_def Let_def getNearbyObjects_eq[OF assms] nearby_def split: sum.splits)

lemma query_frame_aux:
  assumes "allocated st" "checkCollision TS position radius st = (res, st')"
  shows "terrainSize st' = terrainSize st" "heightData st' = heightData st"
    "collisionObjects st' = collisionObjects st" "collisionGrid st' = collisionGrid st"
    "\<And>a. a < next_addr st \<Longrightarrow> arrays st' a = arrays st a"
    "\<And>k. bucket st' k = bucket st k" "next_addr st \<le> next_addr st'"
proof -
  have "st' = st \<or> st' = st\<lparr>arrays := (arrays st)(next_addr st := nearby st position),
                              next_addr := Suc (next_addr st)\<rparr>"
    using assms(2) unfolding checkCollision_eq[OF assms(1)] by (auto split: sum.splits)
  then show "terrainSize st' = terrainSize st" "heightData st' = heightData st"
    "collisionObjects st' = collisionObjects st" "collisionGrid st' = collisionGrid st"
    "\<And>a. a < next_addr st \<Longrightarrow> arrays st' a = arrays st a" "next_addr st \<le> next_addr st'"
    by auto
  then show "bucket st' k = bucket st k" for k
    using assms(1) by (cases "collisionGrid st k") (auto simp: bucket_def allocated_def)
qed

lemma init_inv:
  "allocated (CollisionSystem_init sz hdata)" "registered (CollisionSystem_init sz hdata)"
  "buckets_sound (CollisionSystem_init sz hdata)"
  by (simp_all add: allocated_def registered_def buckets_sound_def CollisionSystem_init_def bucket_def)

lemma addCollisionObject_eq:
  "snd (addCollisionObject object boundingRadius st) =
     fold (grid_push (fst (addCollisionObject object boundingRadius st)))
          (cells_of (terrainSize st) (fst (addCollisionObject object boundingRadius st)))
          (st\<lparr>collisionObjects := collisionObjects st @ [fst (addCollisionObject object boundingRadius st)]\<rparr>)"
  by (simp add: addCollisionObject_def Let_def addToGrid_fold)

lemma bucket_objects_update [simp]: "bucket (st\<lparr>collisionObjects := xs\<rparr>) k = bucket st k"
  by (simp add: bucket_def split: option.splits)

lemma allocated_objects_update [simp]: "allocated (st\<lparr>collisionObjects := xs\<rparr>) = allocated st"
  by (simp add: allocated_def)

lemma add_inv:
  assumes "allocated st" "registered st" "buckets_sound st"
  shows "allocated (snd (addCollisionObject object boundingRadius st))"
    "registered (snd (addCollisionObject object boundingRadius st))"
    "buckets_sound (snd (addCollisionObject object boundingRadius st))"
    "terrainSize (snd (addCollisionObject object boundingRadius st)) = terrainSize st"
    "collisionObjects (snd (addCollisionObject object boundingRadius st)) =
       collisionObjects st @ [fst (addCollisionObject object boundingRadius st)]"
proof -
  let ?cd = "fst (addCollisionObject object boundingRadius st)"
  let ?st1 = "st\<lparr>collisionObjects := collisionObjects st @ [?cd]\<rparr>"
  let ?ks = "cells_of (terrainSize st) ?cd"
  let ?st2 = "snd (addCollisionObject object boundingRadius st)"
  have e: "?st2 = fold (grid_push ?cd) ?ks ?st1" by (rule addCollisionObject_eq)
  have a1: "allocated ?st1" using assms(1) by simp
  show "allocated ?st2" unfolding e using a1 by (rule fold_grid_push_allocated)
  show sz: "terrainSize ?st2 = terrainSize st" unfolding e by simp
  show objs: "collisionObjects ?st2 = collisionObjects st @ [?cd]" unfolding e by simp
  show "registered ?st2"
    unfolding registered_def
  proof (intro ballI)
    fix cd k assume cd: "cd \<in> set (collisionObjects ?st2)" and k: "k \<in> set (cells_of (terrainSize ?st2) cd)"
    show "cd \<in> set (bucket ?st2 k)"
    proof (cases "cd = ?cd")
      case True
      then have "k \<in> set ?ks" using k sz by simp
      then show ?thesis unfolding e True by (rule fold_grid_push_member[OF a1])
    next
      case False
      then have "cd \<in> set (collisionObjects st)" using cd objs by simp
      then have "cd \<in> set (bucket st k)" using assms(2) k sz by (simp add: registered_def)
      then show ?thesis
        unfolding e using fold_grid_push_mono[OF a1, of k ?cd ?ks] by auto
    qed
  qed
  show "buckets_sound ?st2"
    unfolding buckets_sound_def
  proof
    fix k
    have "set (bucket ?st2 k) \<subseteq> insert ?cd (set (bucket ?st1 k))"
      unfolding e by (rule fold_grid_push_sub)
    then show "set (bucket ?st2 k) \<subseteq> set (collisionObjects ?st2)"
      using assms(3) objs by (auto simp: buckets_sound_def)
  qed
qed

lemma query_inv:
  assumes "allocated st" "registered st" "buckets_sound st"
  shows "allocated (snd (checkCollision TS position radius st))"
    "registered (snd (checkCollision TS position radius st))"
    "buckets_sound (snd (checkCollision TS position radius st))"
proof -
  obtain res st' where c: "checkCollision TS position radius st = (res, st')"
    by (cases "checkCollision TS position radius st")
  note f = query_frame_aux[OF assms(1) c]
  show "allocated (snd (checkCollision TS position radius st))"
    using assms(1) f(4,7) unfolding c by (fastforce simp: allocated_def)
  show "registered (snd (checkCollision TS position radius st))"
    using assms(2) f(1,3,6) unfolding c by (simp add: registered_def)
  show "buckets_sound (snd (checkCollision TS position radius st))"
    using assms(3) f(3,6) unfolding c by (simp add: buckets_sound_def)
qed

lemma reachable_inv:
  assumes "reachable st"
  shows "allocated st \<and> registered st \<and> buckets_sound st"
  using assms
proof (induction rule: reachable.induct)
  case (init sz hdata)
  show ?case by (simp add: init_inv)
next
  case (add st object boundingRadius)
  then show ?case by (simp add: add_inv)
next
  case (query st TS position radius)
  then show ?case by (simp add: query_inv)
qed

lemma nearby_sound:
  assumes "buckets_sound st"
  shows "set (nearby st position) \<subseteq> set (collisionObjects st)"
  using assms by (auto simp: nearby_def buckets_sound_def)


subsection \<open>Concrete obstacles\<close>

text \<open>
  A rock of bounding radius 1 at the world origin and a boulder of bounding radius 2
  two units further along \<open>z\<close>, inserted in this order into the concrete terrain.
\<close>

definition rock :: object3d where
  "rock = \<lparr>obj_id = 0, obj_position = Vector3 0 0 0, obj_scale = Vector3 1 1 1\<rparr>"

definition boulder :: object3d where
  "boulder = \<lparr>obj_id = 1, obj_position = Vector3 0 0 2, obj_scale = Vector3 1 1 1\<rparr>"

definition one_rock :: cs_state where
  "one_rock = snd (addCollisionObject rock (Some 1) example_cs)"

definition two_rocks :: cs_state where
  "two_rocks = snd (addCollisionObject boulder (Some 2) one_rock)"

lemma reachable_examples: "reachable example_cs" "reachable one_rock" "reachable two_rocks"
  unfolding example_cs_def one_rock_def two_rocks_def by (intro reachable.intros)+


definition rock_data :: collisionData where
  "rock_data = \<lparr>cd_object = rock, cd_position = Vector3 0 0 0, cd_radius = 1\<rparr>"

definition boulder_data :: collisionData where
  "boulder_data = \<lparr>cd_object = boulder, cd_position = Vector3 0 0 2, cd_radius = 2\<rparr>"

lemma add_rock: "fst (addCollisionObject rock (Some 1) st) = rock_data"
  by (simp add: addCollisionObject_def rock_data_def rock_def Let_def)

lemma add_boulder: "fst (addCollisionObject boulder (Some 2) st) = boulder_data"
  by (simp add: addCollisionObject_def boulder_data_def boulder_def Let_def)

lemma keys_eval:
  "cells_of 1000 rock_data = [''49,49'', ''49,50'', ''50,49'', ''50,50'']"
  "cells_of 1000 boulder_data = [''49,50'', ''50,50'']"
  "block 53 50 = [''52,49'', ''52,50'', ''52,51'', ''53,49'', ''53,50'', ''53,51'', ''54,49'', ''54,50'', ''54,51'']"
  "block 50 50 = [''49,49'', ''49,50'', ''49,51'', ''50,49'', ''50,50'', ''50,51'', ''51,49'', ''51,50'', ''51,51'']"
  by (simp_all add: cells_of_def block_def rock_data_def boulder_data_def cell_def gridSize_def key_def
       show_int_def show_nat.simps digit_def)

lemma one_rock_state:
  "one_rock = \<lparr>terrainSize = 1000, heightData = Some example_grid, collisionObjects = [rock_data],
     collisionGrid = [''49,49'' \<mapsto> 0, ''49,50'' \<mapsto> Suc 0, ''50,49'' \<mapsto> Suc (Suc 0),
                      ''50,50'' \<mapsto> Suc (Suc (Suc 0))],
     arrays = (\<lambda>_. [])(0 := [rock_data], Suc 0 := [rock_data], Suc (Suc 0) := [rock_data],
                          Suc (Suc (Suc 0)) := [rock_data]),
     next_addr = Suc (Suc (Suc (Suc 0)))\<rparr>"
  unfolding one_rock_def addCollisionObject_eq add_rock
  by (simp add: example_facts keys_eval)
     (simp add: example_cs_def CollisionSystem_init_def grid_push_def)

lemma two_rocks_state:
  "two_rocks = \<lparr>terrainSize = 1000, heightData = Some example_grid,
     collisionObjects = [rock_data, boulder_data],
     collisionGrid = [''49,49'' \<mapsto> 0, ''49,50'' \<mapsto> Suc 0, ''50,49'' \<mapsto> Suc (Suc 0),
                      ''50,50'' \<mapsto> Suc (Suc (Suc 0))],
     arrays = (\<lambda>_. [])(0 := [rock_data], Suc 0 := [rock_data, boulder_data], Suc (Suc 0) := [rock_data],
                          Suc (Suc (Suc 0)) := [rock_data, boulder_data]),
     next_addr = Suc (Suc (Suc (Suc 0)))\<rparr>"
  unfolding two_rocks_def addCollisionObject_eq add_boulder
  by (simp add: one_rock_state keys_eval grid_push_def fun_upd_twist)

lemma addCollisionObject_fields [simp]:
  "terrainSize (snd (addCollisionObject object boundingRadius st)) = terrainSize st"
  "heightData (snd (addCollisionObject object boundingRadius st)) = heightData st"
  unfolding addCollisionObject_eq by simp_all

lemma example_heights:
  assumes "in_world 1000 x z"
  shows "CollisionSystem_getHeightAt TerrainSystem one_rock x z = Inr NaN"
    "CollisionSystem_getHeightAt TerrainSystem two_rocks x z = Inr NaN"
  using assms
  by (auto intro!: cs_height_NaN[where grid = example_grid]
       simp: one_rock_def two_rocks_def example_facts example_grid_length double_size_1000)

lemma example_allocated: "allocated one_rock" "allocated two_rocks"
  using reachable_examples reachable_inv by blast+

lemma example_nearby:
  "nearby one_rock (Vector3 30 0 0) = []"
  "nearby one_rock (Vector3 0 0 1) = [rock_data, rock_data, rock_data, rock_data]"
  "nearby one_rock (Vector3 0 5 0) = [rock_data, rock_data, rock_data, rock_data]"
  "nearby two_rocks (Vector3 0 0 1) = [rock_data, rock_data, boulder_data, rock_data, rock_data, boulder_data]"
proof -
  have c: "cell 1000 30 = 53" "cell 1000 0 = 50" "cell 1000 1 = 50"
    by (simp_all add: cell_def gridSize_def)
  have s: "terrainSize one_rock = 1000" "terrainSize two_rocks = 1000"
    by (simp_all add: one_rock_def two_rocks_def example_facts)
  show "nearby one_rock (Vector3 30 0 0) = []"
    by (simp add: nearby_def s c keys_eval) (simp add: bucket_def one_rock_state)
  show "nearby one_rock (Vector3 0 0 1) = [rock_data, rock_data, rock_data, rock_data]"
    by (simp add: nearby_def s c keys_eval) (simp add: bucket_def one_rock_state)
  show "nearby one_rock (Vector3 0 5 0) = [rock_data, rock_data, rock_data, rock_data]"
    by (simp add: nearby_def s c keys_eval) (simp add: bucket_def one_rock_state)
  show "nearby two_rocks (Vector3 0 0 1) = [rock_data, rock_data, boulder_data, rock_data, rock_data, boulder_data]"
    by (simp add: nearby_def s c keys_eval) (simp add: bucket_def two_rocks_state)
qed


lemma one_rock_near:
  "fst (checkCollision TerrainSystem (Vector3 0 0 1) (1/2) one_rock) =
     Inr (Hit rock (Vector3 0 0 1) (1/2) NaN)"
  by (simp add: checkCollision_eq[OF example_allocated(1)] example_heights in_world_def example_nearby
      rock_data_def Vector3_normalize_def Vector3_length_def multiplyScalar_def)

lemma one_rock_centre:
  "fst (checkCollision TerrainSystem (Vector3 0 5 0) (1/2) one_rock) =
     Inr (Hit rock (Vector3 0 0 0) (3/2) NaN)"
  by (simp add: checkCollision_eq[OF example_allocated(1)] example_heights in_world_def example_nearby
      rock_data_def Vector3_normalize_def Vector3_length_def multiplyScalar_def)


lemma normalize_planar:
  fixes dx dz :: real
  defines "d \<equiv> sqrt (dx * dx + dz * dz)"
  shows "Vector3_length (Vector3 dx 0 dz) = d"
    and "0 < d \<Longrightarrow> Vector3_normalize (Vector3 dx 0 dz) = Vector3 (dx / d) 0 (dz / d)"
    and "0 < d \<Longrightarrow> Vector3_length (Vector3_normalize (Vector3 dx 0 dz)) = 1"
    and "d = 0 \<Longrightarrow> Vector3_normalize (Vector3 dx 0 dz) = Vector3 0 0 0"
proof -
  show l: "Vector3_length (Vector3 dx 0 dz) = d"
    by (simp add: Vector3_length_def d_def)
  show n: "Vector3_normalize (Vector3 dx 0 dz) = Vector3 (dx / d) 0 (dz / d)" if "0 < d"
    using that by (simp add: Vector3_normalize_def l multiplyScalar_def)
  show "Vector3_length (Vector3_normalize (Vector3 dx 0 dz)) = 1" if "0 < d"
  proof -
    have "dx / d * (dx / d) + dz / d * (dz / d) = (dx * dx + dz * dz) / (d * d)"
      by (simp add: add_divide_distrib)
    also have "d * d = dx * dx + dz * dz"
      unfolding d_def by (simp add: add_nonneg_nonneg)
    also have "(dx * dx + dz * dz) / (dx * dx + dz * dz) = 1"
      using that unfolding d_def by (simp add: less_le)
    finally show ?thesis
      by (simp add: n[OF that] Vector3_length_def)
  qed
  show "Vector3_normalize (Vector3 dx 0 dz) = Vector3 0 0 0" if "d = 0"
  proof -
    have "dx * dx + dz * dz = 0" using that unfolding d_def by (simp add: add_nonneg_nonneg)
    then have "dx = 0 \<and> dz = 0" by (simp add: sum_squares_eq_zero_iff)
    then show ?thesis by (simp add: Vector3_normalize_def multiplyScalar_def)
  qed
qed


lemma example_distances:
  "planar_distance (Vector3 0 0 1) (cd_position rock_data) = 1"
  "planar_distance (Vector3 0 0 1) (cd_position boulder_data) = 1"
  "planar_distance (Vector3 30 0 0) (cd_position rock_data) = 30"
  "planar_distance (Vector3 0 5 0) (cd_position rock_data) = 0"
proof -
  show "planar_distance (Vector3 0 0 1) (cd_position rock_data) = 1"
    "planar_distance (Vector3 0 0 1) (cd_position boulder_data) = 1"
    "planar_distance (Vector3 0 5 0) (cd_position rock_data) = 0"
    by (simp_all add: planar_distance_def rock_data_def boulder_data_def)
  have "sqrt (30 * 30) = 30" by (simp only: real_sqrt_abs2)
  then show "planar_distance (Vector3 30 0 0) (cd_position rock_data) = 30"
    by (simp add: planar_distance_def rock_data_def)
qed



text \<open>
  Claim C8, as amended. A reported collision is with a registered obstacle; the
  penetration depth is the sum of the radii minus the planar distance, and the normal
  is \<open>Vector3(dx, 0, dz).normalize()\<close> with no branch of its own for the degenerate
  case: for a positive distance that is the unit vector from the obstacle toward the
  query position, for distance 0 it is the zero vector that \<open>normalize\<close> returns.
\<close>

theorem collision_normal_amended:
  assumes "reachable st" and "checkCollision TS position radius st = (Inr (Hit ob n p t), st')"
  shows "\<exists>c \<in> set (collisionObjects st).
           ob = cd_object c \<and>
           planar_distance position (cd_position c) < radius + cd_radius c \<and>
           p = radius + cd_radius c - planar_distance position (cd_position c) \<and>
           n = Vector3_normalize (Vector3 (vec_x position - vec_x (cd_position c)) 0
                                          (vec_z position - vec_z (cd_position c))) \<and>
           (0 < planar_distance position (cd_position c) \<longrightarrow>
              n = Vector3 ((vec_x position - vec_x (cd_position c)) / planar_distance position (cd_position c)) 0
                          ((vec_z position - vec_z (cd_position c)) / planar_distance position (cd_position c)) \<and>
              Vector3_length n = 1) \<and>
           (planar_distance position (cd_position c) = 0 \<longrightarrow> n = Vector3 0 0 0)"
proof -
  have inv: "allocated st" "buckets_sound st"
    using reachable_inv[OF assms(1)] by simp_all
  obtain terrainY where res: "scan position radius terrainY (nearby st position) = Hit ob n p t"
    using assms(2) unfolding checkCollision_eq[OF inv(1)] by (auto split: sum.splits)
  obtain c where c: "c \<in> set (nearby st position)" "ob = cd_object c"
      "planar_distance position (cd_position c) < radius + cd_radius c"
      "p = radius + cd_radius c - planar_distance position (cd_position c)"
      "n = Vector3_normalize (Vector3 (vec_x position - vec_x (cd_position c)) 0
                                      (vec_z position - vec_z (cd_position c)))"
    using scan_hitD[OF res] by blast
  have "c \<in> set (collisionObjects st)"
    using c(1) nearby_sound[OF inv(2), of position] by blast
  then show ?thesis
    using c(2-5) normalize_planar(2-4)[of "vec_x position - vec_x (cd_position c)"
        "vec_z position - vec_z (cd_position c)"]
    unfolding planar_distance_def by blast
qed

text \<open>The amended claim C8 at the rock: the query one unit away along \<open>z\<close> gets the normal \<open>(0, 0, 1)\<close> and depth 0.5.\<close>

theorem collision_normal_amended_witness:
  "reachable one_rock \<and>
   fst (checkCollision TerrainSystem (Vector3 0 0 1) (1/2) one_rock)
     = Inr (Hit rock (Vector3 0 0 1) (1/2) NaN) \<and>
   0 < planar_distance (Vector3 0 0 1) (cd_position rock_data) \<and>
   1/2 = 1/2 + cd_radius rock_data - planar_distance (Vector3 0 0 1) (cd_position rock_data) \<and>
   Vector3_length (Vector3 0 0 1) = 1"
proof -
  have e: "checkCollision TerrainSystem (Vector3 0 0 1) (1/2) one_rock =
     (Inr (Hit rock (Vector3 0 0 1) (1/2) NaN),
      snd (checkCollision TerrainSystem (Vector3 0 0 1) (1/2) one_rock))"
    using one_rock_near by (simp add: prod_eq_iff)
  obtain c where c: "c \<in> set (collisionObjects one_rock)"
    "1/2 = 1/2 + cd_radius c - planar_distance (Vector3 0 0 1) (cd_position c)"
    "0 < planar_distance (Vector3 0 0 1) (cd_position c) \<longrightarrow>
       Vector3_length (Vector3 0 0 1) = 1"
    using collision_normal_amended[OF reachable_examples(2) e] by blast
  have "c = rock_data"
    using c(1) by (simp add: one_rock_state)
  then have d: "1/2 = 1/2 + cd_radius rock_data - planar_distance (Vector3 0 0 1) (cd_position rock_data)"
    "0 < planar_distance (Vector3 0 0 1) (cd_position rock_data) \<longrightarrow>
       Vector3_length (Vector3 0 0 1) = 1"
    using c(2,3) by blast+
  have p: "0 < planar_distance (Vector3 0 0 1) (cd_position rock_data)"
    by (simp add: example_distances)
  show ?thesis
    using d(2) p by (intro conjI reachable_examples one_rock_near d(1)) blast+
qed

text \<open>
  Claim C8 as stated fails in the degenerate case: a query directly above the centre of
  the rock has planar distance 0 and gets the zero vector as its normal, not a unit
  vector.
\<close>

theorem collision_normal_counterexample:
  "planar_distance (Vector3 0 5 0) (cd_position rock_data) = 0 \<and>
   fst (checkCollision TerrainSystem (Vector3 0 5 0) (1/2) one_rock)
     = Inr (Hit rock (Vector3 0 0 0) (3/2) NaN) \<and>
   Vector3_length (Vector3 0 0 0) \<noteq> 1"
  by (simp add: one_rock_centre example_distances Vector3_length_def)

text \<open>
  Claim C10. In a state the module reaches, \<open>checkCollision\<close> leaves the terrain size,
  the height grid, the list of collision objects, the map of the spatial grid and the
  contents of every bucket as they were; every array allocated before the call is
  unchanged (the call allocates its own \<open>result\<close> array and appends to that one only).
\<close>

theorem checkCollision_frame:
  assumes "reachable st"
  shows "terrainSize (snd (checkCollision TS position radius st)) = terrainSize st \<and>
         heightData (snd (checkCollision TS position radius st)) = heightData st \<and>
         collisionObjects (snd (checkCollision TS position radius st)) = collisionObjects st \<and>
         collisionGrid (snd (checkCollision TS position radius st)) = collisionGrid st \<and>
         (\<forall>k. bucket (snd (checkCollision TS position radius st)) k = bucket st k) \<and>
         (\<forall>a. a < next_addr st \<longrightarrow> arrays (snd (checkCollision TS position radius st)) a = arrays st a)"
proof -
  have a: "allocated st" using reachable_inv[OF assms] by simp
  obtain res st' where c: "checkCollision TS position radius st = (res, st')"
    by (cases "checkCollision TS position radius st")
  show ?thesis
    using query_frame_aux[OF a c] unfolding c by simp
qed

text \<open>Claim C10 at the rock: a colliding query leaves the one obstacle and its four buckets in place.\<close>

theorem checkCollision_frame_witness:
  "reachable one_rock \<and>
   heightData (snd (checkCollision TerrainSystem (Vector3 0 0 1) (1/2) one_rock)) = Some example_grid \<and>
   collisionObjects (snd (checkCollision TerrainSystem (Vector3 0 0 1) (1/2) one_rock)) = [rock_data] \<and>
   bucket (snd (checkCollision TerrainSystem (Vector3 0 0 1) (1/2) one_rock)) ''50,50'' = [rock_data] \<and>
   (0::nat) < next_addr one_rock \<and>
   arrays (snd (checkCollision TerrainSystem (Vector3 0 0 1) (1/2) one_rock)) 0 = [rock_data]"
proof -
  have b: "bucket one_rock ''50,50'' = [rock_data]" "arrays one_rock 0 = [rock_data]"
    "collisionObjects one_rock = [rock_data]" "heightData one_rock = Some example_grid"
    "0 < next_addr one_rock"
    by (simp_all add: bucket_def one_rock_state)
  show ?thesis
    using checkCollision_frame[OF reachable_examples(2), of TerrainSystem "Vector3 0 0 1" "1/2"]
    by (simp add: b reachable_examples)
qed

section \<open>Properties of dune stamping\<close>

text \<open>The index range of the loops on one axis.\<close>

definition in_box :: "int \<Rightarrow> int \<Rightarrow> int \<Rightarrow> int \<Rightarrow> bool" where
  "in_box center radius resolution i = (max 0 (center - radius) \<le> i \<and> i < min resolution (center + radius))"

text \<open>
  The distance of the offset \<open>(dx, dz)\<close> from the dune centre: rotated into the
  dune's frame, the first axis divided by the elongation.
\<close>

definition elliptic_distance :: "real \<Rightarrow> real \<Rightarrow> real \<Rightarrow> real \<Rightarrow> real" where
  "elliptic_distance rotation elongation dx dz =
     sqrt (((dx * cos rotation - dz * sin rotation) / elongation)\<^sup>2 +
           (dx * sin rotation + dz * cos rotation)\<^sup>2)"

text \<open>The falloff \<open>height * (1 - distance / radius)\<^sup>2\<close> inside the radius, nothing outside.\<close>

definition falloff_height :: "real \<Rightarrow> real \<Rightarrow> int \<Rightarrow> int \<Rightarrow> int \<Rightarrow> real \<Rightarrow> int \<Rightarrow> int \<Rightarrow> real option" where
  "falloff_height rotation elongation centerX centerZ radius height x z =
     (let d = elliptic_distance rotation elongation (real_of_int (x - centerX)) (real_of_int (z - centerZ))
      in if d < real_of_int radius then Some (height * (1 - d / real_of_int radius)\<^sup>2) else None)"

lemma addDune_height_eq: "addDune_height = falloff_height"
  by (intro ext) (simp add: addDune_height_def falloff_height_def elliptic_distance_def Let_def)

lemma dune_contribution_eq: "dune_contribution = falloff_height"
  by (intro ext)
     (simp add: dune_contribution_def falloff_height_def elliptic_distance_def Let_def
        power2_eq_square mult.commute)

text \<open>What the stamp of amounts \<open>h\<close> makes of the value \<open>v\<close> of cell \<open>(z, x)\<close>.\<close>

definition stamped :: "(int \<Rightarrow> int \<Rightarrow> real option) \<Rightarrow> int \<Rightarrow> int \<Rightarrow> int \<Rightarrow> int \<Rightarrow> int \<Rightarrow> int \<Rightarrow> jsnum \<Rightarrow> jsnum" where
  "stamped h centerX centerZ radius resolution z x v =
     (if in_box centerX radius resolution x \<and> in_box centerZ radius resolution z
      then (case h x z of None \<Rightarrow> v | Some c \<Rightarrow> num_add v (Num c))
      else v)"

definition cell_at :: "'a list list \<Rightarrow> int \<Rightarrow> int \<Rightarrow> 'a" where
  "cell_at data z x = data ! nat z ! nat x"

definition upd :: "(int \<Rightarrow> int \<Rightarrow> real option) \<Rightarrow> int \<Rightarrow> int \<Rightarrow> jsnum \<Rightarrow> jsnum" where
  "upd h z x v = (case h x z of None \<Rightarrow> v | Some c \<Rightarrow> num_add v (Num c))"

lemma square_grid_row:
  assumes "square_grid res data" "0 \<le> z" "z < res"
  shows "int (length (data ! nat z)) = res" "nat z < length data"
proof -
  have len: "int (length data) = res" using assms(1) by (simp add: square_grid_def)
  show "nat z < length data" using assms len by linarith
  then have "data ! nat z \<in> set data" by simp
  then show "int (length (data ! nat z)) = res"
    using assms(1) by (simp add: square_grid_def list_all_iff)
qed

lemma add_to_cell_square:
  assumes "square_grid res data" "0 \<le> z" "z < res" "0 \<le> x" "x < res"
  shows "\<exists>data'. add_to_cell z x c data = Inr data' \<and> square_grid res data' \<and>
           (\<forall>z' x'. 0 \<le> z' \<and> z' < res \<and> 0 \<le> x' \<and> x' < res \<longrightarrow>
              cell_at data' z' x' =
                (if z' = z \<and> x' = x then num_add (cell_at data z x) (Num c) else cell_at data z' x'))"
proof -
  note r = square_grid_row[OF assms(1-3)]
  let ?row = "(data ! nat z)[nat x := num_add (data ! nat z ! nat x) (Num c)]"
  let ?data' = "data[nat z := ?row]"
  have e: "add_to_cell z x c data = Inr ?data'"
    using assms r by (simp add: add_to_cell_def js_get_def)
  have s: "square_grid res ?data'"
    using assms(1) r unfolding square_grid_def list_all_iff
    by (auto dest!: set_update_subset_insert[THEN subsetD])
  have c: "cell_at ?data' z' x' =
             (if z' = z \<and> x' = x then num_add (cell_at data z x) (Num c) else cell_at data z' x')"
    if "0 \<le> z'" "z' < res" "0 \<le> x'" "x' < res" for z' x'
  proof -
    have l: "nat z' < length data" using square_grid_row[OF assms(1) that(1,2)] by simp
    have x: "nat x < length (data ! nat z)" using r(1) assms(4,5) by linarith
    show ?thesis
      using that assms(2,4) r(2) l x
      by (auto simp: cell_at_def nth_list_update nat_eq_iff)
  qed
  show ?thesis using e s c by blast
qed

lemma inner_loop:
  assumes "square_grid res data" "0 \<le> z" "z < res" "\<forall>x \<in> set xs. 0 \<le> x \<and> x < res" "distinct xs"
  shows "\<exists>data'. foldE (\<lambda>x d. case h x z of None \<Rightarrow> Inr d | Some c \<Rightarrow> add_to_cell z x c d) xs data = Inr data' \<and>
           square_grid res data' \<and>
           (\<forall>z' x'. 0 \<le> z' \<and> z' < res \<and> 0 \<le> x' \<and> x' < res \<longrightarrow>
              cell_at data' z' x' =
                (if z' = z \<and> x' \<in> set xs then upd h z x' (cell_at data z' x') else cell_at data z' x'))"
  using assms(1,4,5)
proof (induction xs arbitrary: data)
  case Nil
  then show ?case by simp
next
  case (Cons x xs)
  let ?f = "\<lambda>x d. case h x z of None \<Rightarrow> Inr d | Some c \<Rightarrow> add_to_cell z x c d"
  have x: "0 \<le> x" "x < res" "x \<notin> set xs" using Cons.prems by simp_all
  obtain d1 where d1: "?f x data = Inr d1" "square_grid res d1"
    "\<forall>z' x'. 0 \<le> z' \<and> z' < res \<and> 0 \<le> x' \<and> x' < res \<longrightarrow>
       cell_at d1 z' x' = (if z' = z \<and> x' = x then upd h z x (cell_at data z x) else cell_at data z' x')"
  proof (cases "h x z")
    case None
    then show ?thesis using that[of data] Cons.prems(1) by (simp add: upd_def)
  next
    case (Some c)
    then show ?thesis
      using add_to_cell_square[OF Cons.prems(1) assms(2,3) x(1,2), of c] that by (auto simp: upd_def)
  qed
  obtain d2 where d2: "foldE ?f xs d1 = Inr d2" "square_grid res d2"
    "\<forall>z' x'. 0 \<le> z' \<and> z' < res \<and> 0 \<le> x' \<and> x' < res \<longrightarrow>
       cell_at d2 z' x' = (if z' = z \<and> x' \<in> set xs then upd h z x' (cell_at d1 z' x') else cell_at d1 z' x')"
    using Cons.IH[OF d1(2)] Cons.prems(2,3) by auto
  have "foldE ?f (x # xs) data = Inr d2" using d1(1) d2(1) by simp
  moreover have "cell_at d2 z' x' =
      (if z' = z \<and> x' \<in> set (x # xs) then upd h z x' (cell_at data z' x') else cell_at data z' x')"
    if "0 \<le> z' \<and> z' < res \<and> 0 \<le> x' \<and> x' < res" for z' x'
    using d1(3)[rule_format, OF that] d2(3)[rule_format, OF that] x(3) by auto
  ultimately show ?case using d2(2) by blast
qed

lemma outer_loop:
  assumes "square_grid res data" "\<forall>z \<in> set zs. 0 \<le> z \<and> z < res" "distinct zs"
    "\<forall>x \<in> set xs. 0 \<le> x \<and> x < res" "distinct xs"
  shows "\<exists>data'. foldE (\<lambda>z. foldE (\<lambda>x d. case h x z of None \<Rightarrow> Inr d | Some c \<Rightarrow> add_to_cell z x c d) xs) zs data
                    = Inr data' \<and>
           square_grid res data' \<and>
           (\<forall>z' x'. 0 \<le> z' \<and> z' < res \<and> 0 \<le> x' \<and> x' < res \<longrightarrow>
              cell_at data' z' x' =
                (if z' \<in> set zs \<and> x' \<in> set xs then upd h z' x' (cell_at data z' x') else cell_at data z' x'))"
  using assms(1,2,3)
proof (induction zs arbitrary: data)
  case Nil
  then show ?case by simp
next
  case (Cons z zs)
  let ?g = "\<lambda>z. foldE (\<lambda>x d. case h x z of None \<Rightarrow> Inr d | Some c \<Rightarrow> add_to_cell z x c d) xs"
  have z: "0 \<le> z" "z < res" "z \<notin> set zs" using Cons.prems by simp_all
  obtain d1 where d1: "?g z data = Inr d1" "square_grid res d1"
    "\<forall>z' x'. 0 \<le> z' \<and> z' < res \<and> 0 \<le> x' \<and> x' < res \<longrightarrow>
       cell_at d1 z' x' = (if z' = z \<and> x' \<in> set xs then upd h z x' (cell_at data z' x') else cell_at data z' x')"
    using inner_loop[OF Cons.prems(1) z(1,2) assms(4,5), of h] by blast
  obtain d2 where d2: "foldE ?g zs d1 = Inr d2" "square_grid res d2"
    "\<forall>z' x'. 0 \<le> z' \<and> z' < res \<and> 0 \<le> x' \<and> x' < res \<longrightarrow>
       cell_at d2 z' x' = (if z' \<in> set zs \<and> x' \<in> set xs then upd h z' x' (cell_at d1 z' x') else cell_at d1 z' x')"
    using Cons.IH[OF d1(2)] Cons.prems(2,3) by auto
  have "foldE ?g (z # zs) data = Inr d2" using d1(1) d2(1) by simp
  moreover have "cell_at d2 z' x' =
      (if z' \<in> set (z # zs) \<and> x' \<in> set xs then upd h z' x' (cell_at data z' x') else cell_at data z' x')"
    if "0 \<le> z' \<and> z' < res \<and> 0 \<le> x' \<and> x' < res" for z' x'
    using d1(3)[rule_format, OF that] d2(3)[rule_format, OF that] z(3) by auto
  ultimately show ?case using d2(2) by blast
qed

lemma dune_loop_stamped:
  assumes "square_grid resolution data"
  shows "\<exists>data'. dune_loop h centerX centerZ radius resolution data = Inr data' \<and>
           square_grid resolution data' \<and>
           (\<forall>z x. 0 \<le> z \<and> z < resolution \<and> 0 \<le> x \<and> x < resolution \<longrightarrow>
              cell_at data' z x = stamped h centerX centerZ radius resolution z x (cell_at data z x))"
proof -
  have r: "\<forall>i \<in> set [max 0 (c - radius)..min resolution (c + radius) - 1]. 0 \<le> i \<and> i < resolution" for c
    by auto
  have m: "i \<in> set [max 0 (c - radius)..min resolution (c + radius) - 1] \<longleftrightarrow> in_box c radius resolution i" for c i
    by (auto simp: in_box_def)
  show ?thesis
    using outer_loop[OF assms r[of centerZ] distinct_upto r[of centerX] distinct_upto, of h]
    unfolding dune_loop_def stamped_def upd_def m by (simp add: conj_commute)
qed

text \<open>A cell value does not decrease: a number grows or stays, \<open>NaN\<close> stays \<open>NaN\<close>.\<close>

fun not_decreased :: "jsnum \<Rightarrow> jsnum \<Rightarrow> bool" where
  "not_decreased (Num a) (Num b) = (a \<le> b)"
| "not_decreased NaN NaN = True"
| "not_decreased _ _ = False"

lemma falloff_height_nonneg:
  assumes "0 \<le> height" "falloff_height rotation elongation centerX centerZ radius height x z = Some c"
  shows "0 \<le> c"
  using assms by (auto simp: falloff_height_def Let_def split: if_splits)

lemma stamped_not_decreased:
  assumes "0 \<le> height"
  shows "not_decreased v
           (stamped (falloff_height rotation elongation centerX centerZ radius height)
              centerX centerZ radius resolution z x v)"
proof (cases "falloff_height rotation elongation centerX centerZ radius height x z")
  case None
  then show ?thesis by (cases v) (simp_all add: stamped_def)
next
  case (Some c)
  then have "0 \<le> c" using falloff_height_nonneg[OF assms] by blast
  then show ?thesis using Some by (cases v) (simp_all add: stamped_def)
qed

lemma addDune_eq:
  "addDune rnd data centerX centerZ radius height resolution =
     (dune_loop (falloff_height (fst rnd (snd rnd) * pi) (1 + fst rnd (Suc (snd rnd)) * 2)
                   centerX centerZ radius height)
        centerX centerZ radius resolution data,
      (fst rnd, Suc (Suc (snd rnd))))"
  by (simp add: addDune_def Math_random_def addDune_height_eq)

lemma stamp_dune_eq:
  "stamp_dune terrainResolution d heightmap =
     dune_loop (falloff_height (d_rotation d) (d_elongation d) (d_centerX d) (d_centerY d)
                  (d_radius d) (d_height d))
       (d_centerX d) (d_centerY d) (d_radius d) terrainResolution heightmap"
  by (simp add: stamp_dune_def dune_contribution_eq)

subsection \<open>A concrete dune\<close>

text \<open>
  The flat grid of \<open>generateTerrainData\<close>'s resolution 128 and a random source whose
  second draw is 0.5 and whose other draws are 0: \<open>addDune\<close> gets orientation 0 and
  elongation 2.
\<close>

definition flat128 :: "jsnum list list" where
  "flat128 = replicate 128 (replicate 128 (Num 0))"

definition draws_0_half :: random_source where
  "draws_0_half = ((\<lambda>n. if n = 1 then 1/2 else 0), 0)"

lemma flat128_square: "square_grid 128 flat128"
  by (simp add: square_grid_def flat128_def list_all_iff)

lemma elliptic_distance_axis: "elliptic_distance 0 e dx 0 = \<bar>dx / e\<bar>"
  by (simp add: elliptic_distance_def)

lemma flat128_cell: "0 \<le> z \<Longrightarrow> z < 128 \<Longrightarrow> 0 \<le> x \<Longrightarrow> x < 128 \<Longrightarrow> cell_at flat128 z x = Num 0"
  by (simp add: cell_at_def flat128_def)

lemma example_dune_cells:
  "\<exists>data'. fst (addDune draws_0_half flat128 64 64 10 1 128) = Inr data' \<and>
      cell_at data' 64 73 = Num (121/400) \<and> cell_at data' 64 74 = Num 0"
proof -
  obtain data' where d: "dune_loop (falloff_height 0 2 64 64 10 1) 64 64 10 128 flat128 = Inr data'"
    "\<forall>z x. 0 \<le> z \<and> z < 128 \<and> 0 \<le> x \<and> x < 128 \<longrightarrow>
       cell_at data' z x = stamped (falloff_height 0 2 64 64 10 1) 64 64 10 128 z x (cell_at flat128 z x)"
    using dune_loop_stamped[OF flat128_square] by blast
  have a: "cell_at data' 64 73 = Num (121/400)"
    using d(2)[rule_format, of 64 73]
    by (simp add: flat128_cell stamped_def in_box_def falloff_height_def elliptic_distance_axis
        power2_eq_square)
  have b: "cell_at data' 64 74 = Num 0"
    using d(2)[rule_format, of 64 74]
    by (simp add: flat128_cell stamped_def in_box_def)
  show ?thesis
    using d(1) a b by (simp add: addDune_eq draws_0_half_def)
qed

text \<open>The flat grid of the TerrainSystem's resolution 256.\<close>

definition flat256 :: "jsnum list list" where
  "flat256 = replicate 256 (replicate 256 (Num 0))"

lemma flat256_square: "square_grid 256 flat256"
  by (simp add: square_grid_def flat256_def list_all_iff)

lemma flat256_cell: "0 \<le> z \<Longrightarrow> z < 256 \<Longrightarrow> 0 \<le> x \<Longrightarrow> x < 256 \<Longrightarrow> cell_at flat256 z x = Num 0"
  by (simp add: cell_at_def flat256_def)

lemma example_stamp_cells:
  "\<exists>data'. stamp_dune 256 \<lparr>d_centerX = 64, d_centerY = 64, d_radius = 10, d_height = 1,
                            d_elongation = 2, d_rotation = 0\<rparr> flat256 = Inr data' \<and>
      cell_at data' 64 73 = Num (121/400) \<and> cell_at data' 64 74 = Num 0"
proof -
  obtain data' where d: "dune_loop (falloff_height 0 2 64 64 10 1) 64 64 10 256 flat256 = Inr data'"
    "\<forall>z x. 0 \<le> z \<and> z < 256 \<and> 0 \<le> x \<and> x < 256 \<longrightarrow>
       cell_at data' z x = stamped (falloff_height 0 2 64 64 10 1) 64 64 10 256 z x (cell_at flat256 z x)"
    using dune_loop_stamped[OF flat256_square] by blast
  have a: "cell_at data' 64 73 = Num (121/400)"
    using d(2)[rule_format, of 64 73]
    by (simp add: flat256_cell stamped_def in_box_def falloff_height_def elliptic_distance_axis
        power2_eq_square)
  have b: "cell_at data' 64 74 = Num 0"
    using d(2)[rule_format, of 64 74]
    by (simp add: flat256_cell stamped_def in_box_def)
  show ?thesis
    using d(1) a b by (simp add: stamp_dune_eq)
qed

text \<open>
  Claim C7 fails on the code. Both stamping loops run over the box from
  \<open>max(0, center - radius)\<close> up to but excluding \<open>min(resolution, center + radius)\<close>,
  which is the bounding box of a circular dune; the distance they test is divided by
  the elongation along the dune's long axis, so an elongated dune reaches beyond the
  box and is cut off at its edge. With orientation 0 and elongation 2, a dune of radius
  10 and height 1 centred at \<open>(64, 64)\<close> on a flat grid raises cell \<open>[64][73]\<close>, at
  distance 4.5, by \<open>(1 - 0.45)\<^sup>2 = 0.3025\<close>. The next cell \<open>[64][74]\<close> is at distance 5,
  below the radius, and the claim gives it \<open>(1 - 0.5)\<^sup>2 = 0.25\<close>; it is the first column
  outside the box and both \<open>addDune\<close>, on a grid of 128 rows, and the loop of
  \<open>addDesertDunes\<close>, on one of 256, leave it at 0.
\<close>

theorem dune_stamp_cut_off:
  "elliptic_distance 0 2 (real_of_int (74 - 64)) (real_of_int (64 - 64)) = 5 \<and>
   falloff_height 0 2 64 64 10 1 74 64 = Some (1/4) \<and>
   (\<exists>data'. fst (addDune draws_0_half flat128 64 64 10 1 128) = Inr data' \<and>
      cell_at data' 64 73 = Num (121/400) \<and>
      cell_at flat128 64 74 = Num 0 \<and> cell_at data' 64 74 = Num 0 \<and>
      cell_at data' 64 74 \<noteq> num_add (cell_at flat128 64 74) (Num (1/4))) \<and>
   (\<exists>data'. stamp_dune 256 \<lparr>d_centerX = 64, d_centerY = 64, d_radius = 10, d_height = 1,
                            d_elongation = 2, d_rotation = 0\<rparr> flat256 = Inr data' \<and>
      cell_at data' 64 73 = Num (121/400) \<and>
      cell_at flat256 64 74 = Num 0 \<and> cell_at data' 64 74 = Num 0 \<and>
      cell_at data' 64 74 \<noteq> num_add (cell_at flat256 64 74) (Num (1/4)))"
proof -
  have e: "elliptic_distance 0 2 (real_of_int (74 - 64)) (real_of_int (64 - 64)) = 5"
    by (simp add: elliptic_distance_axis)
  have f: "falloff_height 0 2 64 64 10 1 74 64 = Some (1/4)"
    by (simp add: falloff_height_def elliptic_distance_axis power2_eq_square)
  have c: "cell_at flat128 64 74 = Num 0" "cell_at flat256 64 74 = Num 0"
    by (simp_all add: flat128_cell flat256_cell)
  obtain d1 where d1: "fst (addDune draws_0_half flat128 64 64 10 1 128) = Inr d1"
      "cell_at d1 64 73 = Num (121/400)" "cell_at d1 64 74 = Num 0"
    using example_dune_cells by blast
  obtain d2 where d2: "stamp_dune 256 \<lparr>d_centerX = 64, d_centerY = 64, d_radius = 10, d_height = 1,
                            d_elongation = 2, d_rotation = 0\<rparr> flat256 = Inr d2"
      "cell_at d2 64 73 = Num (121/400)" "cell_at d2 64 74 = Num 0"
    using example_stamp_cells by blast
  have n: "cell_at d1 64 74 \<noteq> num_add (cell_at flat128 64 74) (Num (1/4))"
       "cell_at d2 64 74 \<noteq> num_add (cell_at flat256 64 74) (Num (1/4))"
    by (simp_all only: d1(3) d2(3) c) simp_all
  show ?thesis
    using e f c d1 d2 n by blast
qed

section \<open>Properties of the noise\<close>

lemma and7_cases: "(h::nat) AND 7 \<in> {0, 1, 2, 3, 4, 5, 6, 7}"
proof -
  have "h AND mask 3 = h mod 2 ^ 3"
    by (simp flip: take_bit_eq_mask add: take_bit_eq_mod)
  moreover have "mask 3 = (7::nat)"
    by (simp add: mask_eq_exp_minus_1)
  ultimately have "h AND 7 = h mod 8" by simp
  moreover have "h mod 8 < 8" by simp
  ultimately have "h AND 7 < 8" by simp
  then show ?thesis by (auto simp: less_Suc_eq eval_nat_numeral)
qed

lemma gradient2D_cases:
  "gradient2D hash x y \<in> {x + 2 * y, - x + 2 * y, x - 2 * y, - x - 2 * y,
                           y + 2 * x, - y + 2 * x, y - 2 * x, - y - 2 * x}"
  using and7_cases[of hash] by (auto simp: gradient2D_def Let_def)

lemma sqrt3_bounds: "1732 / 1000 < sqrt 3" "sqrt 3 < 17321 / 10000"
  by (rule real_less_rsqrt, simp add: power2_eq_square)
     (rule real_less_lsqrt, simp_all add: power2_eq_square)

lemma noise_at_origin:
  "noise2D sn 0 0 =
     70 * (gradient2D (sn_permMod12 sn ! (sn_perm sn ! 1)) ((3 - sqrt 3) / 6) ((3 - sqrt 3) / 6 - 1) +
           gradient2D (sn_permMod12 sn ! (1 + sn_perm sn ! 1)) (2 * ((3 - sqrt 3) / 6) - 1)
                      (2 * ((3 - sqrt 3) / 6) - 1))"
proof -
  have "gradient2D h 0 0 = 0" for h by (simp add: gradient2D_def Let_def)
  then show ?thesis
    by (simp add: noise2D_def Let_def algebra_simps)
qed

text \<open>
  Claim C6 fails on the code. \<open>noise2D\<close> applies no radial falloff: each corner
  contributes its gradient dot-product alone, and the sum is scaled by 70. At the input
  \<open>(0, 0)\<close> the first corner contributes 0 and the other two cannot cancel, so for
  every permutation table the result is more than 3 away from 0, outside \<open>[-1, 1]\<close>.
\<close>

theorem noise2D_origin_out_of_range: "3 < \<bar>noise2D sn 0 0\<bar>"
proof -
  define r where "r = sqrt 3"
  have r: "1732 / 1000 < r" "r < 17321 / 10000"
    using sqrt3_bounds by (simp_all add: r_def)
  define g where "g = (3 - r) / 6"
  define c where "c = 2 * g - 1"
  define n1 where "n1 = gradient2D (sn_permMod12 sn ! (sn_perm sn ! 1)) g (g - 1)"
  define n2 where "n2 = gradient2D (sn_permMod12 sn ! (1 + sn_perm sn ! 1)) c c"
  have v: "noise2D sn 0 0 = 70 * (n1 + n2)"
    by (simp add: noise_at_origin n1_def n2_def r_def g_def c_def)
  have c1: "n1 \<in> {g + 2 * (g - 1), - g + 2 * (g - 1), g - 2 * (g - 1), - g - 2 * (g - 1),
                  (g - 1) + 2 * g, - (g - 1) + 2 * g, (g - 1) - 2 * g, - (g - 1) - 2 * g}"
    unfolding n1_def by (rule gradient2D_cases)
  have "n2 \<in> {c + 2 * c, - c + 2 * c, c - 2 * c, - c - 2 * c,
                  c + 2 * c, - c + 2 * c, c - 2 * c, - c - 2 * c}"
    unfolding n2_def by (rule gradient2D_cases)
  then have c2: "n2 \<in> {c + 2 * c, - c + 2 * c, c - 2 * c, - c - 2 * c}"
    by auto
  have gb: "g = (3 - r) / 6" "c = 2 * ((3 - r) / 6) - 1"
    by (simp_all add: g_def c_def)
  have "3 < \<bar>70 * (n1 + n2)\<bar>"
    using c1 c2 r unfolding gb by (elim insertE emptyE; argo)
  then show ?thesis by (simp add: v)
qed

section \<open>Properties of the generation\<close>

text \<open>
  Where the value that the shuffle leaves at index \<open>k\<close> started: the swaps from
  \<open>i = n\<close> down to 1, followed backwards.
\<close>

definition swap_index :: "nat \<Rightarrow> int \<Rightarrow> nat \<Rightarrow> nat" where
  "swap_index i j m = (if m = i then nat j else if m = nat j then i else m)"

fun origin :: "nat \<Rightarrow> real \<Rightarrow> nat \<Rightarrow> nat" where
  "origin n seed k =
     (if n = 0 then k
      else swap_index n \<lfloor>next_seed seed / 233280 * real (n + 1)\<rfloor>
             (origin (n - 1) (next_seed seed) k))"

declare origin.simps [simp del]

lemma js_rem_bounds:
  assumes "0 \<le> a" "0 < n"
  shows "0 \<le> js_rem a n" "js_rem a n < n"
proof -
  have q: "\<not> a / n < 0" using assms by (simp add: not_less)
  have e: "js_rem a n = a - n * real_of_int \<lfloor>a / n\<rfloor>"
    using q by (simp add: js_rem_def)
  have an: "n * (a / n) = a" using assms(2) by simp
  have "n * real_of_int \<lfloor>a / n\<rfloor> \<le> n * (a / n)"
    using assms(2) by (intro mult_left_mono) simp_all
  then have "n * real_of_int \<lfloor>a / n\<rfloor> \<le> a" unfolding an .
  then show "0 \<le> js_rem a n" by (simp add: e)
  have "a / n < real_of_int \<lfloor>a / n\<rfloor> + 1" by linarith
  then have "n * (a / n) < n * (real_of_int \<lfloor>a / n\<rfloor> + 1)"
    using assms(2) by (intro mult_strict_left_mono) simp_all
  then have "a < n * (real_of_int \<lfloor>a / n\<rfloor> + 1)" unfolding an .
  then show "js_rem a n < n" by (simp add: e algebra_simps)
qed

lemma next_seed_bounds:
  assumes "0 \<le> seed"
  shows "0 \<le> next_seed seed" "next_seed seed < 233280"
  using js_rem_bounds[of "seed * 9301 + 49297" 233280] assms by (simp_all add: next_seed_def)

lemma shuffle_index_bounds:
  assumes "0 \<le> seed"
  shows "0 \<le> \<lfloor>next_seed seed / 233280 * real (n + 1)\<rfloor>"
    "\<lfloor>next_seed seed / 233280 * real (n + 1)\<rfloor> \<le> int n"
proof -
  note b = next_seed_bounds[OF assms]
  have u: "0 \<le> next_seed seed / 233280" "next_seed seed / 233280 < 1"
    using b by simp_all
  show "0 \<le> \<lfloor>next_seed seed / 233280 * real (n + 1)\<rfloor>"
    using u(1) by simp
  have "next_seed seed / 233280 * real (n + 1) < 1 * real (n + 1)"
    using u(2) by (intro mult_strict_right_mono) simp_all
  then have "\<lfloor>next_seed seed / 233280 * real (n + 1)\<rfloor> < int (n + 1)"
    by (simp add: floor_less_iff)
  then show "\<lfloor>next_seed seed / 233280 * real (n + 1)\<rfloor> \<le> int n" by simp
qed

lemma u8_swap_nth:
  assumes "i < length p" "0 \<le> j" "nat j < length p" "m < length p"
  shows "u8_swap p i j ! m = p ! swap_index i j m" "length (u8_swap p i j) = length p"
    "swap_index i j m < length p"
  using assms by (auto simp: u8_swap_def js_get_def swap_index_def nth_list_update)

lemma shuffle_nth:
  assumes "n < length p" "k < length p" "0 \<le> seed"
  shows "shuffle n seed p ! k = p ! origin n seed k \<and> origin n seed k < length p"
  using assms
proof (induction n arbitrary: seed p)
  case 0
  then show ?case by (simp add: origin.simps)
next
  case (Suc n)
  let ?j = "\<lfloor>next_seed seed / 233280 * real (Suc n + 1)\<rfloor>"
  let ?p' = "u8_swap p (Suc n) ?j"
  note jb = shuffle_index_bounds[OF Suc.prems(3), of "Suc n"]
  have j: "0 \<le> ?j" "nat ?j < length p" using jb Suc.prems(1) by linarith+
  have l: "length ?p' = length p" using u8_swap_nth(2)[OF Suc.prems(1) j Suc.prems(2)] .
  have ih: "shuffle n (next_seed seed) ?p' ! k = ?p' ! origin n (next_seed seed) k"
      "origin n (next_seed seed) k < length p"
    using Suc.IH[of ?p' "next_seed seed"] Suc.prems next_seed_bounds(1)[OF Suc.prems(3)] l by simp_all
  have o: "origin (Suc n) seed k = swap_index (Suc n) ?j (origin n (next_seed seed) k)"
    by (subst origin.simps) simp
  show ?case
    using ih u8_swap_nth(1,3)[OF Suc.prems(1) j ih(2)] by (simp add: Let_def o)
qed

lemma origin_seed0: "origin 255 0 (Suc 0) = 56" "origin 255 0 56 = 82" "origin 255 0 57 = 96"
  by (simp_all add: next_seed_def js_rem_def origin.simps swap_index_def)

lemma table_seed0:
  "sn_perm (new_SimplexNoise 0) ! Suc 0 = 56"
  "sn_permMod12 (new_SimplexNoise 0) ! 56 = 10"
  "sn_permMod12 (new_SimplexNoise 0) ! 57 = 0"
proof -
  have p: "shuffle 255 0 [0..<256] ! k = origin 255 0 k" if "k < 256" for k
    using shuffle_nth[of 255 "[0..<256]" k 0] that by simp
  show "sn_perm (new_SimplexNoise 0) ! Suc 0 = 56"
    by (simp add: new_SimplexNoise_def Let_def p origin_seed0)
  show "sn_permMod12 (new_SimplexNoise 0) ! 56 = 10"
    by (simp add: new_SimplexNoise_def Let_def p origin_seed0)
  show "sn_permMod12 (new_SimplexNoise 0) ! 57 = 0"
    by (simp add: new_SimplexNoise_def Let_def p origin_seed0)
qed

lemma noise_seed0_origin: "noise2D (new_SimplexNoise 0) 0 0 = 70 * ((9 - 5 * sqrt 3) / 6)"
proof -
  have g1: "gradient2D 10 x y = x - 2 * y" for x y
    by (simp add: gradient2D_def Let_def)
  have g2: "gradient2D 0 x y = x + 2 * y" for x y
    by (simp add: gradient2D_def Let_def)
  show ?thesis
    by (simp add: noise_at_origin table_seed0 g1 g2 field_simps)
qed

text \<open>Two random sources return the same next \<open>k\<close> numbers.\<close>

definition same_draws :: "nat \<Rightarrow> random_source \<Rightarrow> random_source \<Rightarrow> bool" where
  "same_draws k rnd1 rnd2 = (\<forall>i<k. fst rnd1 (snd rnd1 + i) = fst rnd2 (snd rnd2 + i))"

text \<open>The source after \<open>k\<close> draws.\<close>

definition advance :: "nat \<Rightarrow> random_source \<Rightarrow> random_source" where
  "advance k rnd = (fst rnd, snd rnd + k)"

lemma same_draws_advance:
  assumes "same_draws (m + k) rnd1 rnd2"
  shows "same_draws m rnd1 rnd2" "same_draws k (advance m rnd1) (advance m rnd2)"
  using assms by (auto simp: same_draws_def advance_def add.assoc)

lemma draw_dune_advance: "snd (draw_dune res rnd) = advance 6 rnd"
  by (simp add: draw_dune_def Math_random_def advance_def Let_def eval_nat_numeral)

lemma draw_dune_same:
  assumes "same_draws 6 rnd1 rnd2"
  shows "fst (draw_dune res rnd1) = fst (draw_dune res rnd2)"
proof -
  have "fst rnd1 (snd rnd1 + i) = fst rnd2 (snd rnd2 + i)" if "i < 6" for i
    using assms that by (simp add: same_draws_def)
  from this[of 0] this[of 1] this[of 2] this[of 3] this[of 4] this[of 5]
  show ?thesis
    by (simp add: draw_dune_def Math_random_def Let_def eval_nat_numeral)
qed

text \<open>A cell that holds a number.\<close>

fun is_num :: "jsnum \<Rightarrow> bool" where
  "is_num (Num a) = True"
| "is_num NaN = False"

lemma stamped_is_num: "is_num v \<Longrightarrow> is_num (stamped h centerX centerZ radius resolution z x v)"
  by (cases v) (auto simp: stamped_def split: option.splits)

lemma stamp_dune_square:
  assumes "square_grid res hm"
  shows "\<exists>hm'. stamp_dune res d hm = Inr hm' \<and> square_grid res hm' \<and>
           (\<forall>z x. 0 \<le> z \<and> z < res \<and> 0 \<le> x \<and> x < res \<longrightarrow>
              cell_at hm' z x =
                stamped (falloff_height (d_rotation d) (d_elongation d) (d_centerX d) (d_centerY d)
                           (d_radius d) (d_height d))
                  (d_centerX d) (d_centerY d) (d_radius d) res z x (cell_at hm z x))"
  unfolding stamp_dune_eq using dune_loop_stamped[OF assms] by blast

lemma dunes_loop_square:
  assumes "square_grid res hm"
  shows "\<exists>hm'. addDesertDunes_loop n res rnd hm = (Inr hm', advance (6 * n) rnd) \<and>
           square_grid res hm' \<and>
           (\<forall>z x. 0 \<le> z \<and> z < res \<and> 0 \<le> x \<and> x < res \<and> is_num (cell_at hm z x) \<longrightarrow>
              is_num (cell_at hm' z x))"
  using assms
proof (induction n arbitrary: rnd hm)
  case 0
  then show ?case by (simp add: advance_def)
next
  case (Suc n)
  obtain d where d: "draw_dune res rnd = (d, advance 6 rnd)"
    using draw_dune_advance[of res rnd] by (cases "draw_dune res rnd") simp
  obtain hm1 where h1: "stamp_dune res d hm = Inr hm1" "square_grid res hm1"
    "\<forall>z x. 0 \<le> z \<and> z < res \<and> 0 \<le> x \<and> x < res \<longrightarrow>
        cell_at hm1 z x =
          stamped (falloff_height (d_rotation d) (d_elongation d) (d_centerX d) (d_centerY d)
                     (d_radius d) (d_height d))
            (d_centerX d) (d_centerY d) (d_radius d) res z x (cell_at hm z x)"
    using stamp_dune_square[OF Suc.prems] by blast
  obtain hm2 where h2: "addDesertDunes_loop n res (advance 6 rnd) hm1 = (Inr hm2, advance (6 * n) (advance 6 rnd))"
    "square_grid res hm2"
    "\<forall>z x. 0 \<le> z \<and> z < res \<and> 0 \<le> x \<and> x < res \<and> is_num (cell_at hm1 z x) \<longrightarrow> is_num (cell_at hm2 z x)"
    using Suc.IH[OF h1(2)] by blast
  have a: "advance (6 * n) (advance 6 rnd) = advance (6 * Suc n) rnd"
    by (simp add: advance_def)
  have "addDesertDunes_loop (Suc n) res rnd hm = (Inr hm2, advance (6 * Suc n) rnd)"
    using d h1(1) h2(1) a by simp
  moreover have "is_num (cell_at hm2 z x)"
    if "0 \<le> z \<and> z < res \<and> 0 \<le> x \<and> x < res \<and> is_num (cell_at hm z x)" for z x
  proof -
    have "is_num (cell_at hm1 z x)"
      using h1(3) that stamped_is_num by simp
    then show ?thesis using h2(3) that by blast
  qed
  ultimately show ?case using h2(2) by blast
qed

lemma dunes_loop_same:
  assumes "square_grid res hm" "same_draws (6 * n) rnd1 rnd2"
  shows "fst (addDesertDunes_loop n res rnd1 hm) = fst (addDesertDunes_loop n res rnd2 hm)"
  using assms
proof (induction n arbitrary: rnd1 rnd2 hm)
  case 0
  then show ?case by simp
next
  case (Suc n)
  have s: "same_draws 6 rnd1 rnd2" "same_draws (6 * n) (advance 6 rnd1) (advance 6 rnd2)"
    using same_draws_advance[of 6 "6 * n" rnd1 rnd2] Suc.prems(2) by simp_all
  obtain d where d: "draw_dune res rnd1 = (d, advance 6 rnd1)" "draw_dune res rnd2 = (d, advance 6 rnd2)"
    using draw_dune_advance[of res rnd1] draw_dune_advance[of res rnd2] draw_dune_same[OF s(1), of res]
    by (cases "draw_dune res rnd1"; cases "draw_dune res rnd2") simp
  obtain hm1 where h1: "stamp_dune res d hm = Inr hm1" "square_grid res hm1"
    using stamp_dune_square[OF Suc.prems(1)] by blast
  show ?case
    using d h1(1) Suc.IH[OF h1(2) s(2)] by simp
qed

lemma dunes_loop_add:
  "addDesertDunes_loop (n + m) res rnd hm =
     (case addDesertDunes_loop n res rnd hm of
        (Inl e, rnd') \<Rightarrow> (Inl e, rnd')
      | (Inr hm', rnd') \<Rightarrow> addDesertDunes_loop m res rnd' hm')"
proof (induction n arbitrary: rnd hm)
  case 0
  then show ?case by simp
next
  case (Suc n)
  show ?case
    by (cases "draw_dune res rnd") (simp add: Suc.IH split: sum.splits)
qed

text \<open>The grid before the dunes: \<open>Math.pow(noise, 1.5) * 0.8\<close> of the noise of the seed.\<close>

definition shaped :: "real \<Rightarrow> nat \<Rightarrow> jsnum list list" where
  "shaped seed res =
     map (\<lambda>y. map (\<lambda>x. num_mul (pow_3_2 (octaves (new_SimplexNoise seed) res res 5 x y)) (Num 0.8))
               [0..<res]) [0..<res]"

lemma shaped_square: "square_grid (int res) (shaped seed res)"
  by (simp add: square_grid_def shaped_def list_all_iff)

lemma shaped_cell:
  assumes "0 \<le> z" "z < int res" "0 \<le> x" "x < int res"
  shows "cell_at (shaped seed res) z x =
           num_mul (pow_3_2 (octaves (new_SimplexNoise seed) res res 5 (nat x) (nat z))) (Num 0.8)"
proof -
  have "nat z < res" "nat x < res" using assms by linarith+
  then show ?thesis by (simp add: cell_at_def shaped_def)
qed

lemma generateDesertHeightmap_eq:
  assumes "0 \<le> res"
  shows "generateDesertHeightmap res rnd =
           addDesertDunes_loop 30 res (advance 1 rnd) (shaped (fst rnd (snd rnd)) (nat res))"
proof -
  have m: "map (\<lambda>y. map (\<lambda>x. num_mul (pow_3_2 (map (\<lambda>y. map (\<lambda>x. g x y) [0..<n]) [0..<n] ! y ! x)) c)
                        [0..<n]) [0..<n] =
           map (\<lambda>y. map (\<lambda>x. num_mul (pow_3_2 (g x y)) c) [0..<n]) [0..<n]" for g n c
    by (intro map_cong refl) simp
  show ?thesis
    using assms
    by (simp add: generateDesertHeightmap_def generateSimplexNoise_def Math_random_def Let_def
        addDesertDunes_def shaped_def advance_def m)
qed

text \<open>
  Claim C5, as amended. \<open>generateDesertHeightmap\<close> takes no seed. It draws 181 numbers
  from the ambient random source, one as the seed of its noise generator and six for
  each of the 30 dunes, and the grid is a function of these draws: two runs whose
  sources return the same next 181 numbers produce the same square grid.
\<close>

theorem generation_amended:
  assumes "0 \<le> res" and "same_draws 181 rnd1 rnd2"
  shows "fst (generateDesertHeightmap res rnd1) = fst (generateDesertHeightmap res rnd2) \<and>
         (\<exists>grid. fst (generateDesertHeightmap res rnd1) = Inr grid \<and> square_grid res grid) \<and>
         snd (generateDesertHeightmap res rnd1) = advance 181 rnd1"
proof -
  have s: "same_draws 1 rnd1 rnd2" "same_draws (6 * 30) (advance 1 rnd1) (advance 1 rnd2)"
    using same_draws_advance[of 1 180 rnd1 rnd2] assms(2) by simp_all
  have seed: "fst rnd1 (snd rnd1) = fst rnd2 (snd rnd2)"
    using s(1) by (simp add: same_draws_def)
  have sq: "square_grid res (shaped (fst rnd1 (snd rnd1)) (nat res))"
    using shaped_square[of "nat res"] assms(1) by simp
  have same: "fst (generateDesertHeightmap res rnd1) = fst (generateDesertHeightmap res rnd2)"
    unfolding generateDesertHeightmap_eq[OF assms(1)] seed[symmetric]
    using sq s(2) by (rule dunes_loop_same)
  obtain grid where g:
    "addDesertDunes_loop 30 res (advance 1 rnd1) (shaped (fst rnd1 (snd rnd1)) (nat res))
       = (Inr grid, advance (6 * 30) (advance 1 rnd1))" "square_grid res grid"
    using dunes_loop_square[OF sq] by blast
  have a: "advance (6 * 30) (advance 1 rnd1) = advance 181 rnd1"
    by (simp add: advance_def)
  have "generateDesertHeightmap res rnd1 = (Inr grid, advance 181 rnd1)"
    unfolding generateDesertHeightmap_eq[OF assms(1)] g(1) a by simp
  then have r: "fst (generateDesertHeightmap res rnd1) = Inr grid"
    "snd (generateDesertHeightmap res rnd1) = advance 181 rnd1"
    by simp_all
  show ?thesis
    using same r g(2) by blast
qed

subsection \<open>Concrete runs\<close>

text \<open>
  Two sources that return 0 for the first 181 draws and differ afterwards, and two
  runs that both draw the seed 0 and whose draws differ in one place, the height of the
  last dune: number 178 is 0.5 in the first run and 0 in the second. In both runs the
  last dune is centred at \<open>(128, 128)\<close> with radius 10.
\<close>

definition zeros :: random_source where
  "zeros = ((\<lambda>n. 0), 0)"

definition zeros_then_half :: random_source where
  "zeros_then_half = ((\<lambda>n. if n < 181 then 0 else 1/2), 0)"

definition run_a :: random_source where
  "run_a = ((\<lambda>n. if n = 175 \<or> n = 176 \<or> n = 178 then 1/2 else 0), 0)"

definition run_b :: random_source where
  "run_b = ((\<lambda>n. if n = 175 \<or> n = 176 then 1/2 else 0), 0)"

text \<open>The amended claim C5 for two sources that agree on 181 draws and differ on the next.\<close>

theorem generation_amended_witness:
  "(0::int) \<le> 256 \<and> same_draws 181 zeros zeros_then_half \<and>
   fst zeros 181 \<noteq> fst zeros_then_half 181 \<and>
   fst (generateDesertHeightmap 256 zeros) = fst (generateDesertHeightmap 256 zeros_then_half) \<and>
   (\<exists>grid. fst (generateDesertHeightmap 256 zeros) = Inr grid \<and> square_grid 256 grid) \<and>
   snd (generateDesertHeightmap 256 zeros) = advance 181 zeros"
proof -
  have s: "same_draws 181 zeros zeros_then_half"
    by (simp add: same_draws_def zeros_def zeros_then_half_def)
  have d: "fst zeros 181 \<noteq> fst zeros_then_half 181"
    by (simp add: zeros_def zeros_then_half_def)
  have z: "(0::int) \<le> 256" by simp
  show ?thesis
    using generation_amended[OF z s] s d z by blast
qed

lemma centre_is_num: "is_num (cell_at (shaped 0 256) 128 128)"
proof -
  have "5 * sqrt 3 < 9"
    using sqrt3_bounds(2) by simp
  then have "0 \<le> octaves (new_SimplexNoise 0) 256 256 5 128 128"
    by (simp add: octaves_def Let_def noise_seed0_origin)
  then show ?thesis
    using shaped_cell[of 128 256 128 0] by (simp add: pow_3_2_def)
qed

lemma last_dune:
  "draw_dune 256 (advance 175 run_a) =
     (\<lparr>d_centerX = 128, d_centerY = 128, d_radius = 10, d_height = 7/20, d_elongation = 1,
       d_rotation = 0\<rparr>, advance 181 run_a)"
  "draw_dune 256 (advance 175 run_b) =
     (\<lparr>d_centerX = 128, d_centerY = 128, d_radius = 10, d_height = 1/10, d_elongation = 1,
       d_rotation = 0\<rparr>, advance 181 run_b)"
  by (simp_all add: draw_dune_def Math_random_def advance_def run_a_def run_b_def Let_def)

lemma centre_stamp:
  "stamped (falloff_height 0 1 128 128 10 h) 128 128 10 256 128 128 (Num v) = Num (v + h)"
  by (simp add: stamped_def in_box_def falloff_height_def elliptic_distance_axis)

text \<open>
  Claim C5 as stated fails: the two runs share the only seed there is, the seed 0 of
  the noise generator, and their grids differ in cell \<open>[128][128]\<close>, which the last
  dune raises by 0.35 in one run and by 0.1 in the other.
\<close>

theorem generation_counterexample:
  "fst run_a 0 = fst run_b 0 \<and>
   fst (generateDesertHeightmap 256 run_a) \<noteq> fst (generateDesertHeightmap 256 run_b)"
proof -
  let ?S = "shaped 0 256"
  have sq: "square_grid 256 ?S" using shaped_square[of 256 0] by simp
  have ga: "generateDesertHeightmap 256 run_a = addDesertDunes_loop (29 + 1) 256 (advance 1 run_a) ?S"
    using generateDesertHeightmap_eq[of 256 run_a] by (simp add: run_a_def)
  have gb: "generateDesertHeightmap 256 run_b = addDesertDunes_loop (29 + 1) 256 (advance 1 run_b) ?S"
    using generateDesertHeightmap_eq[of 256 run_b] by (simp add: run_b_def)
  obtain H where H: "addDesertDunes_loop 29 256 (advance 1 run_a) ?S = (Inr H, advance (6 * 29) (advance 1 run_a))"
    "square_grid 256 H"
    "\<forall>z x. 0 \<le> z \<and> z < 256 \<and> 0 \<le> x \<and> x < 256 \<and> is_num (cell_at ?S z x) \<longrightarrow> is_num (cell_at H z x)"
    using dunes_loop_square[OF sq, of 29 "advance 1 run_a"] by blast
  have "same_draws (6 * 29) (advance 1 run_a) (advance 1 run_b)"
    by (simp add: same_draws_def advance_def run_a_def run_b_def)
  then have "fst (addDesertDunes_loop 29 256 (advance 1 run_b) ?S) = Inr H"
    using dunes_loop_same[OF sq, of 29 "advance 1 run_a" "advance 1 run_b"] H(1) by simp
  moreover have "snd (addDesertDunes_loop 29 256 (advance 1 run_b) ?S) = advance (6 * 29) (advance 1 run_b)"
    using dunes_loop_square[OF sq, of 29 "advance 1 run_b"] by auto
  ultimately have Hb: "addDesertDunes_loop 29 256 (advance 1 run_b) ?S = (Inr H, advance (6 * 29) (advance 1 run_b))"
    by (simp add: prod_eq_iff)
  have adv: "advance (6 * 29) (advance 1 r) = advance 175 r" for r
    by (simp add: advance_def)
  have "is_num (cell_at H 128 128)"
    using H(3) centre_is_num by simp
  then obtain v where v: "cell_at H 128 128 = Num v"
    by (cases "cell_at H 128 128") simp_all
  let ?da = "\<lparr>d_centerX = 128, d_centerY = 128, d_radius = 10, d_height = 7/20, d_elongation = 1,
               d_rotation = 0\<rparr>"
  let ?db = "\<lparr>d_centerX = 128, d_centerY = 128, d_radius = 10, d_height = 1/10, d_elongation = 1,
               d_rotation = 0\<rparr>"
  obtain Ha where Ha: "stamp_dune 256 ?da H = Inr Ha"
    "cell_at Ha 128 128 = Num (v + 7/20)"
    using stamp_dune_square[OF H(2), of ?da] by (auto simp: v centre_stamp)
  obtain Hb' where Hb': "stamp_dune 256 ?db H = Inr Hb'"
    "cell_at Hb' 128 128 = Num (v + 1/10)"
    using stamp_dune_square[OF H(2), of ?db] by (auto simp: v centre_stamp)
  have "fst (generateDesertHeightmap 256 run_a) = Inr Ha"
    unfolding ga dunes_loop_add H(1) adv by (simp add: last_dune Ha(1))
  moreover have "fst (generateDesertHeightmap 256 run_b) = Inr Hb'"
    unfolding gb dunes_loop_add Hb adv by (simp add: last_dune Hb'(1))
  moreover have "Ha \<noteq> Hb'"
    using Ha(2) Hb'(2) by auto
  ultimately show ?thesis
    by (simp add: run_a_def run_b_def)
qed

section \<open>Properties of the rock clusters\<close>

text \<open>The height the code samples for a position: the cell of the position's grid indices.\<close>

definition sampled_height :: "jsnum list list \<Rightarrow> real \<Rightarrow> real \<Rightarrow> int \<Rightarrow> real \<Rightarrow> real \<Rightarrow> js_error + jsval" where
  "sampled_height hdata width len resolution x z =
     elem hdata (gridIndex len resolution z) (gridIndex width resolution x)"

text \<open>A member of the cluster anchored at \<open>(centerX, centerZ)\<close> with the sampled height \<open>height\<close>.\<close>

definition member_of :: "real \<Rightarrow> real \<Rightarrow> jsval \<Rightarrow> rock_mesh \<Rightarrow> bool" where
  "member_of centerX centerZ height mesh =
     (rm_y mesh = num_add (ToNumber height) (Num (rm_scale mesh / 2)) \<and>
      1 \<le> rm_scale mesh \<and> rm_scale mesh < 3 \<and>
      (\<exists>distance. 1 \<le> distance \<and> distance < 4 \<and>
         (rm_x mesh - centerX)\<^sup>2 + (rm_z mesh - centerZ)\<^sup>2 = distance\<^sup>2))"

lemma Math_random_pair: "Math_random (f, n) = (f n, (f, Suc n))"
  by (simp add: Math_random_def)

lemma generateUUID_pair: "generateUUID (f, n) = (f, n + 4)"
  by (simp add: generateUUID_def Math_random_pair)

lemma unit_source_pair: "unit_source (f, n) = unit_source (f, m)"
  by (simp add: unit_source_def)

lemma unit_floor:
  assumes "0 \<le> u" "u < 1" "0 < k"
  shows "0 \<le> \<lfloor>u * real_of_int k\<rfloor>" "\<lfloor>u * real_of_int k\<rfloor> < k"
proof -
  show "0 \<le> \<lfloor>u * real_of_int k\<rfloor>" using assms by simp
  have "u * real_of_int k < real_of_int k" using assms by simp
  then show "\<lfloor>u * real_of_int k\<rfloor> < k" by (simp add: floor_less_iff)
qed

text \<open>One member: with draws in \<open>[0, 1)\<close> the body does not throw, takes twenty draws and builds a member.\<close>

lemma cluster_rock_member:
  assumes "unit_source (f, n)"
  shows "\<exists>mesh. cluster_rock centerX centerZ height (f, n) = (Inr mesh, (f, n + 20)) \<and>
           member_of centerX centerZ height mesh"
proof -
  have u: "\<And>k. 0 \<le> f k" "\<And>k. f k < 1"
    using assms by (simp_all add: unit_source_def)
  have g: "0 \<le> \<lfloor>f (Suc (Suc n)) * 4\<rfloor>" "\<lfloor>f (Suc (Suc n)) * 4\<rfloor> < 4"
    using unit_floor[OF u(1) u(2), of 4 "Suc (Suc n)"] by simp_all
  have m: "0 \<le> \<lfloor>f (n + 7) * 2\<rfloor>" "\<lfloor>f (n + 7) * 2\<rfloor> < 2"
    using unit_floor[OF u(1) u(2), of 2 "n + 7"] by simp_all
  obtain rockGeom where rg: "js_get [0, 1, 2, 3] \<lfloor>f (Suc (Suc n)) * 4\<rfloor> = Some (rockGeom::nat)"
    using g by (simp add: js_get_def)
  obtain rockMat where rm: "js_get [0, 1] \<lfloor>f (n + 7) * 2\<rfloor> = Some (rockMat::nat)"
    using m by (simp add: js_get_def)
  let ?mesh = "\<lparr>rm_geometry = rockGeom, rm_material = rockMat, rm_scale = f (n + 16) * 2 + 1,
                 rm_x = centerX + cos (f n * pi * 2) * (f (Suc n) * 3 + 1),
                 rm_y = num_add (ToNumber height) (Num ((f (n + 16) * 2 + 1) / 2)),
                 rm_z = centerZ + sin (f n * pi * 2) * (f (Suc n) * 3 + 1),
                 rm_rotation = (f (n + 17) * pi, f (n + 18) * pi * 2, f (n + 19) * pi)\<rparr>"
  have a: "Suc (Suc (Suc n)) + 4 = n + 7" "Suc (n + 7) + 4 + 4 = n + 16"
    "Suc (n + 16) = n + 17" "Suc (n + 17) = n + 18" "Suc (n + 18) = n + 19" "Suc (n + 19) = n + 20"
    by simp_all
  have e: "cluster_rock centerX centerZ height (f, n) = (Inr ?mesh, (f, n + 20))"
    by (simp only: cluster_rock_def Math_random_pair generateUUID_pair Let_def prod.case rg rm
        option.case a)
  have "(cos (f n * pi * 2) * (f (Suc n) * 3 + 1))\<^sup>2 + (sin (f n * pi * 2) * (f (Suc n) * 3 + 1))\<^sup>2
          = (f (Suc n) * 3 + 1)\<^sup>2"
    by (simp add: power_mult_distrib flip: distrib_right)
  moreover have "1 \<le> f (Suc n) * 3 + 1" "f (Suc n) * 3 + 1 < 4"
    using u(1)[of "Suc n"] u(2)[of "Suc n"] by simp_all
  ultimately have "\<exists>distance. 1 \<le> distance \<and> distance < 4 \<and>
         (rm_x ?mesh - centerX)\<^sup>2 + (rm_z ?mesh - centerZ)\<^sup>2 = distance\<^sup>2"
    by (intro exI[of _ "f (Suc n) * 3 + 1"]) simp
  moreover have "1 \<le> rm_scale ?mesh" "rm_scale ?mesh < 3"
    using u(1)[of "n + 16"] u(2)[of "n + 16"] by simp_all
  ultimately have "member_of centerX centerZ height ?mesh"
    by (simp add: member_of_def)
  then show ?thesis using e by blast
qed

lemma cluster_rocks_members:
  assumes "unit_source (f, n)"
  shows "\<exists>rocks. cluster_rocks k centerX centerZ height (f, n) = (Inr rocks, (f, n + 20 * k)) \<and>
           length rocks = k \<and> list_all (member_of centerX centerZ height) rocks"
  using assms
proof (induction k arbitrary: n)
  case 0
  then show ?case by simp
next
  case (Suc k)
  obtain mesh where m: "cluster_rock centerX centerZ height (f, n) = (Inr mesh, (f, n + 20))"
      "member_of centerX centerZ height mesh"
    using cluster_rock_member[OF Suc.prems] by blast
  have "unit_source (f, n + 20)"
    using Suc.prems unit_source_pair by blast
  then obtain rest where r: "cluster_rocks k centerX centerZ height (f, n + 20) = (Inr rest, (f, n + 20 + 20 * k))"
      "length rest = k" "list_all (member_of centerX centerZ height) rest"
    using Suc.IH by blast
  have "cluster_rocks (Suc k) centerX centerZ height (f, n) = (Inr (mesh # rest), (f, n + 20 * Suc k))"
    using m(1) r(1) by (simp add: add.assoc)
  then show ?case
    using m(2) r(2,3) by (intro exI[of _ "mesh # rest"]) simp
qed

lemma anchor_gridIndex:
  assumes "0 < extent"
  shows "gridIndex extent resolution (u * extent - extent / 2) = \<lfloor>u * real_of_int (resolution - 1)\<rfloor>"
  using assms by (simp add: gridIndex_def)

lemma anchor_on_grid:
  assumes "0 < extent" "0 \<le> u" "u < 1" "1 \<le> resolution"
  shows "0 \<le> gridIndex extent resolution (u * extent - extent / 2)"
    "gridIndex extent resolution (u * extent - extent / 2) < resolution"
proof -
  have m: "0 \<le> u * real_of_int (resolution - 1)"
    using assms by simp
  then show "0 \<le> gridIndex extent resolution (u * extent - extent / 2)"
    by (simp only: anchor_gridIndex[OF assms(1)]) simp
  have "u * real_of_int (resolution - 1) \<le> real_of_int (resolution - 1)"
    using assms by (simp add: mult_left_le_one_le)
  then have "u * real_of_int (resolution - 1) < real_of_int resolution"
    by simp
  then show "gridIndex extent resolution (u * extent - extent / 2) < resolution"
    by (simp only: anchor_gridIndex[OF assms(1)] floor_less_iff)
qed

text \<open>
  Claim C9, as amended. The anchor of a cluster always falls on the grid, and the
  terrain height is sampled once, at the anchor's grid cell. The cluster gets 3 to 7
  members; each is placed at a polar offset of 1 up to (excluding) 4 units from the
  anchor, and its vertical position is that anchor height plus half its scale: the
  height is shared by the members and is not sampled again at a member's own position.
\<close>

theorem cluster_members_amended:
  assumes "unit_source rnd" and "0 < width" and "0 < len"
    and "1 \<le> resolution" and "int (length hdata) = resolution"
  shows "\<exists>rocks rnd' height.
           rock_cluster hdata width len resolution rnd = (Inr rocks, rnd') \<and>
           3 \<le> length rocks \<and> length rocks \<le> 7 \<and>
           sampled_height hdata width len resolution
             (fst rnd (snd rnd) * width - width / 2) (fst rnd (Suc (snd rnd)) * len - len / 2)
             = Inr height \<and>
           list_all (member_of (fst rnd (snd rnd) * width - width / 2)
                               (fst rnd (Suc (snd rnd)) * len - len / 2) height) rocks"
proof -
  obtain f n where rnd: "rnd = (f, n)" by (cases rnd)
  let ?cx = "f n * width - width / 2"
  let ?cz = "f (Suc n) * len - len / 2"
  let ?k = "nat (\<lfloor>f (Suc (Suc n)) * 5\<rfloor> + 3)"
  have u: "\<And>k. 0 \<le> f k" "\<And>k. f k < 1"
    using assms(1) by (simp_all add: unit_source_def rnd)
  note gx = anchor_on_grid[OF assms(2) u(1) u(2) assms(4), of n]
  note gz = anchor_on_grid[OF assms(3) u(1) u(2) assms(4), of "Suc n"]
  obtain height where h: "elem hdata (gridIndex len resolution ?cz) (gridIndex width resolution ?cx) = Inr height"
    using gz assms(5) by (auto simp: elem_def js_get_def)
  have s: "unit_source (f, Suc (Suc (Suc n)))"
    using assms(1) unit_source_pair rnd by blast
  obtain rocks where r: "cluster_rocks ?k ?cx ?cz height (f, Suc (Suc (Suc n)))
                           = (Inr rocks, (f, Suc (Suc (Suc n)) + 20 * ?k))"
      "length rocks = ?k" "list_all (member_of ?cx ?cz height) rocks"
    using cluster_rocks_members[OF s] by blast
  have c: "0 \<le> \<lfloor>f (Suc (Suc n)) * 5\<rfloor>" "\<lfloor>f (Suc (Suc n)) * 5\<rfloor> < 5"
    using unit_floor[OF u(1) u(2), of 5 "Suc (Suc n)"] by simp_all
  then have k: "3 \<le> ?k" "?k \<le> 7"
    by linarith+
  have e: "rock_cluster hdata width len resolution rnd = (Inr rocks, (f, Suc (Suc (Suc n)) + 20 * ?k))"
    using gx gz h r(1) by (simp add: rock_cluster_def rnd Math_random_pair Let_def)
  show ?thesis
    using e k r(2,3) h by (simp add: rnd sampled_height_def)
qed

subsection \<open>A concrete cluster\<close>

text \<open>
  A 128 by 128 grid that is flat but for a peak of height 5 in cell \<open>[63][65]\<close>, under
  a terrain of width and length 200, and a random source that anchors the cluster at
  the centre of the world, gives it three members at angle 0 and scale 1, and offsets
  the first member by 2.5 units and the others by 1.
\<close>

definition peak128 :: "jsnum list list" where
  "peak128 = flat128[63 := (replicate 128 (Num 0))[65 := Num 5]]"

definition cluster_draws :: random_source where
  "cluster_draws = ((\<lambda>n. if n = 0 \<or> n = 1 \<or> n = 4 then 1/2 else 0), 0)"

definition member1 :: rock_mesh where
  "member1 = \<lparr>rm_geometry = 0, rm_material = 0, rm_scale = 1, rm_x = 5/2, rm_y = Num (1/2),
              rm_z = 0, rm_rotation = (0, 0, 0)\<rparr>"

definition member2 :: rock_mesh where
  "member2 = \<lparr>rm_geometry = 0, rm_material = 0, rm_scale = 1, rm_x = 1, rm_y = Num (1/2),
              rm_z = 0, rm_rotation = (0, 0, 0)\<rparr>"

lemma cluster_draws_unit: "unit_source cluster_draws"
  by (simp add: unit_source_def cluster_draws_def)

lemma peak128_samples:
  "sampled_height peak128 200 200 128 0 0 = Inr (Number (Num 0))"
  "sampled_height peak128 200 200 128 (5/2) 0 = Inr (Number (Num 5))"
  by (simp_all add: sampled_height_def gridIndex_def elem_def js_get_def peak128_def flat128_def)

lemma example_cluster:
  "fst (rock_cluster peak128 200 200 128 cluster_draws) = Inr [member1, member2, member2]"
proof -
  have g: "gridIndex 200 128 0 = 63"
    by (simp add: gridIndex_def)
  have e: "elem peak128 63 63 = Inr (Number (Num 0))"
    by (simp add: elem_def js_get_def peak128_def flat128_def)
  have r1: "cluster_rock 0 0 (Number (Num 0)) (fst cluster_draws, Suc (Suc (Suc 0)))
              = (Inr member1, (fst cluster_draws, 23))"
    by (simp add: cluster_rock_def Math_random_def generateUUID_def cluster_draws_def Let_def
        js_get_def member1_def eval_nat_numeral)
  have r2: "cluster_rock 0 0 (Number (Num 0)) (fst cluster_draws, 23) = (Inr member2, (fst cluster_draws, 43))"
    by (simp add: cluster_rock_def Math_random_def generateUUID_def cluster_draws_def Let_def
        js_get_def member2_def eval_nat_numeral)
  have r3: "cluster_rock 0 0 (Number (Num 0)) (fst cluster_draws, 43) = (Inr member2, (fst cluster_draws, 63))"
    by (simp add: cluster_rock_def Math_random_def generateUUID_def cluster_draws_def Let_def
        js_get_def member2_def eval_nat_numeral)
  have c: "cluster_rocks (Suc (Suc (Suc 0))) 0 0 (Number (Num 0)) (fst cluster_draws, Suc (Suc (Suc 0)))
             = (Inr [member1, member2, member2], (fst cluster_draws, 63))"
    by (simp add: r1 r2 r3)
  have d: "fst cluster_draws 0 = 1/2" "fst cluster_draws (Suc 0) = 1/2" "fst cluster_draws (Suc (Suc 0)) = 0"
    "snd cluster_draws = 0"
    by (simp_all add: cluster_draws_def)
  show ?thesis
    by (simp add: rock_cluster_def Math_random_def Let_def d g e numeral_3_eq_3 c
        del: cluster_rocks.simps)
qed

text \<open>The amended claim C9 at the concrete cluster: three members at the anchor's height 0 plus half their scale.\<close>

theorem cluster_members_amended_witness:
  "unit_source cluster_draws \<and> int (length peak128) = 128 \<and>
   fst (rock_cluster peak128 200 200 128 cluster_draws) = Inr [member1, member2, member2] \<and>
   (\<exists>height. sampled_height peak128 200 200 128 0 0 = Inr height \<and>
      list_all (member_of 0 0 height) [member1, member2, member2])"
proof -
  have l: "int (length peak128) = 128"
    by (simp add: peak128_def flat128_def)
  have d: "fst cluster_draws (snd cluster_draws) * 200 - 200 / 2 = 0"
    "fst cluster_draws (Suc (snd cluster_draws)) * 200 - 200 / 2 = 0"
    by (simp_all add: cluster_draws_def)
  note T = cluster_members_amended[OF cluster_draws_unit _ _ _ l, of 200 200, unfolded d]
  have "\<exists>rocks rnd' height.
           rock_cluster peak128 200 200 128 cluster_draws = (Inr rocks, rnd') \<and>
           3 \<le> length rocks \<and> length rocks \<le> 7 \<and>
           sampled_height peak128 200 200 128 0 0 = Inr height \<and>
           list_all (member_of 0 0 height) rocks"
    by (rule T) simp_all
  then obtain rocks rnd' height where
      r: "rock_cluster peak128 200 200 128 cluster_draws = (Inr rocks, rnd')"
      and h: "sampled_height peak128 200 200 128 0 0 = Inr height"
        "list_all (member_of 0 0 height) rocks"
    by blast
  have "rocks = [member1, member2, member2]"
    using r example_cluster by simp
  then show ?thesis
    using cluster_draws_unit l example_cluster h by blast
qed

text \<open>
  Claim C9 as stated fails: the first member stands at \<open>(2.5, 0)\<close>, where the sampled
  terrain height is 5, and its vertical position is 0.5, the anchor's height 0 plus half
  its scale 1.
\<close>

theorem cluster_members_counterexample:
  "fst (rock_cluster peak128 200 200 128 cluster_draws) = Inr [member1, member2, member2] \<and>
   sampled_height peak128 200 200 128 (rm_x member1) (rm_z member1) = Inr (Number (Num 5)) \<and>
   rm_y member1 = Num (1/2) \<and>
   rm_y member1 \<noteq> Num 5 \<and>
   rm_y member1 \<noteq> num_add (Num 5) (Num (rm_scale member1 / 2))"
  using example_cluster peak128_samples(2) by (simp add: member1_def)

end
